theory Spec2Isabelle
  imports Complex_Main "HOL-Library.Product_Lexorder"
begin

section \<open>Tables\<close>

text \<open>
  The analyzer of \<^verbatim>\<open>sample_analysis.py\<close> works on pandas data frames. A frame is
  modelled row-major: a header (column name and dtype, in column order) and the list of
  rows, each row a list of cells in header order. A cell is a missing value (NaN, None,
  NaT), a string, an integer, a float (as a real number), a boolean or a timestamp
  (nanoseconds since the epoch, as \<^verbatim>\<open>datetime64[ns]\<close> stores it).
\<close>

datatype cell = Missing | Str string | IntV int | FloatV real | BoolV bool | Timestamp int

datatype dtype = Object | Int64 | Float64 | Boolean | Datetime64

record table =
  columns :: "(string \<times> dtype) list"
  rows :: "cell list list"

definition col_names :: "table \<Rightarrow> string list" where
  "col_names t = map fst (columns t)"

text \<open>\<^verbatim>\<open>'c' in df.columns\<close>\<close>

definition has_column :: "table \<Rightarrow> string \<Rightarrow> bool" where
  "has_column t c = (c \<in> set (col_names t))"

fun index_of :: "string \<Rightarrow> string list \<Rightarrow> nat option" where
  "index_of c [] = None"
| "index_of c (x # xs) = (if x = c then Some 0 else map_option Suc (index_of c xs))"

definition cell_at :: "nat \<Rightarrow> cell list \<Rightarrow> cell" where
  "cell_at i r = (if i < length r then r ! i else Missing)"

definition get_cell :: "table \<Rightarrow> string \<Rightarrow> cell list \<Rightarrow> cell" where
  "get_cell t c r = (case index_of c (col_names t) of Some i \<Rightarrow> cell_at i r | None \<Rightarrow> Missing)"

text \<open>\<^verbatim>\<open>df[c]\<close> for a column that exists: its values in row order.\<close>

definition column_values :: "table \<Rightarrow> string \<Rightarrow> cell list" where
  "column_values t c = map (get_cell t c) (rows t)"

definition dtype_of :: "table \<Rightarrow> string \<Rightarrow> dtype" where
  "dtype_of t c = (case map_of (columns t) c of Some d \<Rightarrow> d | None \<Rightarrow> Object)"

text \<open>
  \<^verbatim>\<open>df[c] = values\<close> where the new values are computed row by row (every column
  operation of the script is element-wise): an existing column is replaced in place, a new
  one is appended as the last column.
\<close>

definition assign :: "string \<Rightarrow> dtype \<Rightarrow> (cell list \<Rightarrow> cell) \<Rightarrow> table \<Rightarrow> table" where
  "assign c d f t =
     (case index_of c (col_names t) of
        Some i \<Rightarrow> t\<lparr>columns := (columns t)[i := (c, d)], rows := map (\<lambda>r. r[i := f r]) (rows t)\<rparr>
      | None \<Rightarrow> t\<lparr>columns := columns t @ [(c, d)], rows := map (\<lambda>r. r @ [f r]) (rows t)\<rparr>)"

text \<open>\<^verbatim>\<open>df[dst] = g(df[src])\<close> for an element-wise \<open>g\<close>.\<close>

definition assign_from :: "string \<Rightarrow> dtype \<Rightarrow> string \<Rightarrow> (cell \<Rightarrow> cell) \<Rightarrow> table \<Rightarrow> table" where
  "assign_from dst d src g t = assign dst d (\<lambda>r. g (get_cell t src r)) t"

subsection \<open>Library operations on frames\<close>

text \<open>\<^verbatim>\<open>drop_duplicates()\<close> keeps the first occurrence of every row, in order; missing
  values compare equal to each other, as pandas' duplicate detection has it.\<close>

fun keep_first :: "'a list \<Rightarrow> 'a list \<Rightarrow> 'a list" where
  "keep_first seen [] = []"
| "keep_first seen (x # xs) =
     (if x \<in> set seen then keep_first seen xs else x # keep_first (x # seen) xs)"

definition drop_duplicates :: "table \<Rightarrow> table" where
  "drop_duplicates t = t\<lparr>rows := keep_first [] (rows t)\<rparr>"

definition isnull :: "cell \<Rightarrow> bool" where
  "isnull v = (v = Missing)"

text \<open>\<^verbatim>\<open>df[cs].isnull().any(axis=1)\<close> for one row.\<close>

definition any_null :: "table \<Rightarrow> string list \<Rightarrow> cell list \<Rightarrow> bool" where
  "any_null t cs r = list_ex (\<lambda>c. isnull (get_cell t c r)) cs"

definition dropna :: "string list \<Rightarrow> table \<Rightarrow> table" where
  "dropna cs t = t\<lparr>rows := filter (\<lambda>r. \<not> any_null t cs r) (rows t)\<rparr>"

definition fillna_cell :: "cell \<Rightarrow> cell \<Rightarrow> cell" where
  "fillna_cell v x = (if isnull x then v else x)"

text \<open>Filling a string into a column of another dtype that has a missing value makes the
  column an object column; a column without missing values keeps its dtype.\<close>

definition fillna_dtype :: "table \<Rightarrow> string \<Rightarrow> dtype" where
  "fillna_dtype t c =
     (if dtype_of t c = Object \<or> Missing \<in> set (column_values t c) then Object else dtype_of t c)"

text \<open>\<^verbatim>\<open>df[c] = df[c].fillna(v)\<close> for a string \<open>v\<close>.\<close>

definition fillna_column :: "string \<Rightarrow> cell \<Rightarrow> table \<Rightarrow> table" where
  "fillna_column c v t = assign_from c (fillna_dtype t c) c (fillna_cell v) t"

text \<open>\<^verbatim>\<open>astype(bool)\<close> takes each value's truth value (NaN is truthy).\<close>

fun astype_bool :: "cell \<Rightarrow> cell" where
  "astype_bool Missing = BoolV True"
| "astype_bool (Str s) = BoolV (s \<noteq> [])"
| "astype_bool (IntV n) = BoolV (n \<noteq> 0)"
| "astype_bool (FloatV x) = BoolV (x \<noteq> 0)"
| "astype_bool (BoolV b) = BoolV b"
| "astype_bool (Timestamp n) = BoolV True"

text \<open>\<^verbatim>\<open>df[c] = df[c].fillna(False).astype(bool)\<close>\<close>

definition to_bool_column :: "string \<Rightarrow> table \<Rightarrow> table" where
  "to_bool_column c t = assign_from c Boolean c (\<lambda>x. astype_bool (fillna_cell (BoolV False) x)) t"

text \<open>\<^verbatim>\<open>df.select_dtypes(include=['object']).columns\<close>\<close>

definition select_dtypes_object :: "table \<Rightarrow> string list" where
  "select_dtypes_object t = map fst (filter (\<lambda>cd. snd cd = Object) (columns t))"

subsection \<open>Strings\<close>

text \<open>
  A string is a list of code points below 256 (the Latin-1 range of Unicode), one
  character each. \<^verbatim>\<open>str.strip()\<close> removes leading and trailing white space: the code
  points 9 to 13, 28 to 32, 133 and 160. \<^verbatim>\<open>str.upper()\<close> maps a to z and the
  letters 224 to 254 (but not the division sign 247) to the code point 32 below, and the
  sharp s (223) to the two letters SS. The micro sign (181) and the y with diaeresis (255)
  have their upper case outside the range; they and all text beyond Latin-1 are outside
  this model.
\<close>

definition is_space :: "char \<Rightarrow> bool" where
  "is_space c = (let n = (of_char c :: nat)
                 in (9 \<le> n \<and> n \<le> 13) \<or> (28 \<le> n \<and> n \<le> 32) \<or> n = 133 \<or> n = 160)"

definition upper_char :: "char \<Rightarrow> string" where
  "upper_char c =
     (let n = (of_char c :: nat)
      in if (97 \<le> n \<and> n \<le> 122) \<or> (224 \<le> n \<and> n \<le> 254 \<and> n \<noteq> 247) then [char_of (n - 32)]
         else if n = 223 then ''SS''
         else [c])"

definition strip :: "string \<Rightarrow> string" where
  "strip s = rev (dropWhile is_space (rev (dropWhile is_space s)))"

definition upper :: "string \<Rightarrow> string" where
  "upper s = concat (map upper_char s)"

text \<open>
  The \<^verbatim>\<open>.str\<close> accessor looks at the values of the column that are not missing.
  It raises \<open>AttributeError\<close> when there are such values and they are all booleans, all
  numbers (integers, floats or both) or all timestamps; it accepts a column without values,
  a column of strings and a column of mixed kinds. Where it is accepted, its methods return
  NaN for an element that is not a string. The result of \<^verbatim>\<open>.str.strip()\<close> holds only
  strings and NaN, so the second accessor of \<^verbatim>\<open>.str.strip().str.upper()\<close> never
  raises.
\<close>

fun bool_cell :: "cell \<Rightarrow> bool" where
  "bool_cell (BoolV b) = True"
| "bool_cell v = False"

fun number_cell :: "cell \<Rightarrow> bool" where
  "number_cell (IntV n) = True"
| "number_cell (FloatV x) = True"
| "number_cell v = False"

fun stamp_cell :: "cell \<Rightarrow> bool" where
  "stamp_cell (Timestamp n) = True"
| "stamp_cell v = False"

definition str_accessor_ok :: "cell list \<Rightarrow> bool" where
  "str_accessor_ok vs =
     (let xs = filter (\<lambda>v. \<not> isnull v) vs
      in xs = [] \<or> \<not> (list_all bool_cell xs \<or> list_all number_cell xs \<or> list_all stamp_cell xs))"

fun str_strip :: "cell \<Rightarrow> cell" where
  "str_strip (Str s) = Str (strip s)"
| "str_strip v = Missing"

fun str_upper :: "cell \<Rightarrow> cell" where
  "str_upper (Str s) = Str (upper s)"
| "str_upper v = Missing"

text \<open>\<^verbatim>\<open>df[col] = df[col].str.strip().str.upper()\<close>\<close>

definition str_normalize_column :: "string \<Rightarrow> table \<Rightarrow> table" where
  "str_normalize_column c t = assign_from c Object c (\<lambda>x. str_upper (str_strip x)) t"

subsection \<open>Timestamps\<close>

text \<open>
  The \<^verbatim>\<open>.dt\<close> accessors on a timestamp counted in nanoseconds since 1970-01-01T00:00:
  the proleptic Gregorian calendar (days to civil date), Monday as day 0 of the week.
  A missing timestamp (NaT) gives a missing value.
\<close>

definition ns_per_day :: int where
  "ns_per_day = 86400000000000"

definition ns_per_hour :: int where
  "ns_per_hour = 3600000000000"

definition days_of :: "int \<Rightarrow> int" where
  "days_of ts = ts div ns_per_day"

definition civil_from_days :: "int \<Rightarrow> int \<times> int \<times> int" where
  "civil_from_days z =
     (let z' = z + 719468;
          era = z' div 146097;
          doe = z' - era * 146097;
          yoe = (doe - doe div 1460 + doe div 36524 - doe div 146096) div 365;
          y = yoe + era * 400;
          doy = doe - (365 * yoe + yoe div 4 - yoe div 100);
          mp = (5 * doy + 2) div 153;
          d = doy - (153 * mp + 2) div 5 + 1;
          m = (if mp < 10 then mp + 3 else mp - 9)
      in (if m \<le> 2 then y + 1 else y, m, d))"

definition year_of :: "int \<Rightarrow> int" where
  "year_of ts = fst (civil_from_days (days_of ts))"

definition month_of :: "int \<Rightarrow> int" where
  "month_of ts = fst (snd (civil_from_days (days_of ts)))"

definition day_of :: "int \<Rightarrow> int" where
  "day_of ts = snd (snd (civil_from_days (days_of ts)))"

definition dayofweek_of :: "int \<Rightarrow> int" where
  "dayofweek_of ts = (days_of ts + 3) mod 7"

definition hour_of :: "int \<Rightarrow> int" where
  "hour_of ts = (ts mod ns_per_day) div ns_per_hour"

definition month_names :: "string list" where
  "month_names = [''January'', ''February'', ''March'', ''April'', ''May'', ''June'', ''July'',
     ''August'', ''September'', ''October'', ''November'', ''December'']"

definition day_names :: "string list" where
  "day_names = [''Monday'', ''Tuesday'', ''Wednesday'', ''Thursday'', ''Friday'', ''Saturday'',
     ''Sunday'']"

fun dt_int :: "(int \<Rightarrow> int) \<Rightarrow> cell \<Rightarrow> cell" where
  "dt_int f (Timestamp ts) = IntV (f ts)"
| "dt_int f v = Missing"

fun dt_month_name :: "cell \<Rightarrow> cell" where
  "dt_month_name (Timestamp ts) = Str (month_names ! nat (month_of ts - 1))"
| "dt_month_name v = Missing"

fun dt_day_name :: "cell \<Rightarrow> cell" where
  "dt_day_name (Timestamp ts) = Str (day_names ! nat (dayofweek_of ts))"
| "dt_day_name v = Missing"

text \<open>An integer accessor gives an integer column, or a float column when a value is
  missing.\<close>

definition dt_dtype :: "table \<Rightarrow> dtype" where
  "dt_dtype t = (if Missing \<in> set (column_values t ''date'') then Float64 else Int64)"

section \<open>The analyzer\<close>

text \<open>
  The exceptions the script raises or lets through. An analyzer object has the attributes
  \<^verbatim>\<open>data_path\<close>, \<^verbatim>\<open>df\<close> and \<^verbatim>\<open>clean_df\<close>; the two frames are references
  into a store of frame objects (\<open>frames\<close>, addressed by position), so that copying a
  frame, building a new one and assigning a column in place are different things.
  A method returns its result or the exception raised, and the state afterwards.
\<close>

datatype error =
    ValueError string
  | KeyError string
  | AttributeError string
  | TypeError string
  | ZeroDivisionError
  | FileNotFoundError
  | OutOfBoundsDatetime
  | OtherError string

record analyzer =
  data_path :: "string option"
  df :: "nat option"
  clean_df :: "nat option"
  frames :: "table list"

text \<open>\<^verbatim>\<open>CrimeDataAnalyzer(data_path)\<close>\<close>

definition init :: "string option \<Rightarrow> analyzer" where
  "init p = \<lparr>data_path = p, df = None, clean_df = None, frames = []\<rparr>"

text \<open>A new frame object, and an in-place change of an existing one.\<close>

definition alloc :: "table \<Rightarrow> table list \<Rightarrow> table list \<times> nat" where
  "alloc t h = (h @ [t], length h)"

definition inplace :: "nat \<Rightarrow> (table \<Rightarrow> table) \<Rightarrow> table list \<Rightarrow> table list" where
  "inplace a f h = h[a := f (h ! a)]"

subsection \<open>load_data\<close>

text \<open>
  \<^verbatim>\<open>pd.read_csv\<close> is a parameter: for a path it gives the parsed frame or the exception
  (\<open>FileNotFoundError\<close> or any other). \<^verbatim>\<open>data_path or self.data_path\<close> takes the
  argument unless it is None or the empty string.
\<close>

definition py_or :: "string option \<Rightarrow> string option \<Rightarrow> string option" where
  "py_or a b = (case a of None \<Rightarrow> b | Some s \<Rightarrow> (if s = [] then b else Some s))"

definition load_data ::
  "(string \<Rightarrow> error + table) \<Rightarrow> string option \<Rightarrow> analyzer \<Rightarrow> (error + nat) \<times> analyzer" where
  "load_data read_csv arg s =
     (case py_or arg (data_path s) of
        None \<Rightarrow> (Inl (ValueError ''Data path must be provided''), s)
      | Some path \<Rightarrow>
          (case read_csv path of
             Inl e \<Rightarrow> (Inl e, s)
           | Inr t \<Rightarrow>
               (let (h, a) = alloc t (frames s)
                in (Inr a, s\<lparr>frames := h, df := Some a\<rparr>))))"

subsection \<open>clean_data\<close>

definition critical_fields :: "string list" where
  "critical_fields = [''date'', ''primary_type'', ''latitude'', ''longitude'']"

text \<open>What \<^verbatim>\<open>clean_data\<close> prints: the two counts.\<close>

record clean_log =
  duplicates_removed :: nat
  missing_critical :: nat

text \<open>\<^verbatim>\<open>if c in df.columns: df[c] = df[c].fillna('UNKNOWN')\<close> and
  \<^verbatim>\<open>if c in df.columns: df[c] = df[c].fillna(False).astype(bool)\<close>, on the frame they
  change.\<close>

definition fill_step :: "string \<Rightarrow> table \<Rightarrow> table" where
  "fill_step c t = (if has_column t c then fillna_column c (Str ''UNKNOWN'') t else t)"

definition bool_step :: "string \<Rightarrow> table \<Rightarrow> table" where
  "bool_step c t = (if has_column t c then to_bool_column c t else t)"

text \<open>The loop over the text columns: each one except \<^verbatim>\<open>date\<close> is stripped and
  upper-cased in place, unless the accessor refuses it; then the loop ends with the
  exception, the columns before it already changed.\<close>

definition str_error :: error where
  "str_error = AttributeError ''Can only use .str accessor with string values!''"

fun standardize_text :: "string list \<Rightarrow> nat \<Rightarrow> table list \<Rightarrow> error option \<times> table list" where
  "standardize_text [] a h = (None, h)"
| "standardize_text (col # cols) a h =
     (if col = ''date'' then standardize_text cols a h
      else if \<not> str_accessor_ok (column_values (h ! a) col) then (Some str_error, h)
      else standardize_text cols a (inplace a (str_normalize_column col) h))"

definition clean_data :: "analyzer \<Rightarrow> (error + nat \<times> clean_log) \<times> analyzer" where
  "clean_data s =
     (case df s of
        None \<Rightarrow> (Inl (ValueError ''Data not loaded. Call load_data() first.''), s)
      | Some raw \<Rightarrow>
          (let (h0, d0) = alloc (frames s ! raw) (frames s);
               initial_count = length (rows (h0 ! d0));
               (h1, d1) = alloc (drop_duplicates (h0 ! d0)) h0;
               dups = initial_count - length (rows (h1 ! d1))
           in (case filter (\<lambda>c. \<not> has_column (h1 ! d1) c) critical_fields of
                 c # cs \<Rightarrow> (Inl (KeyError c), s\<lparr>frames := h1\<rparr>)
               | [] \<Rightarrow>
                  (let miss = length (filter (any_null (h1 ! d1) critical_fields) (rows (h1 ! d1)));
                       (h2, d) = alloc (dropna critical_fields (h1 ! d1)) h1;
                       h3 = inplace d (fill_step ''description'') h2;
                       h4 = inplace d (fill_step ''location_description'') h3;
                       h5 = inplace d (bool_step ''arrest'') h4;
                       h6 = inplace d (bool_step ''domestic'') h5;
                       text_columns = select_dtypes_object (h6 ! d)
                   in (case standardize_text text_columns d h6 of
                         (Some e, h7) \<Rightarrow> (Inl e, s\<lparr>frames := h7\<rparr>)
                       | (None, h7) \<Rightarrow>
                           (Inr (d, \<lparr>duplicates_removed = dups, missing_critical = miss\<rparr>),
                            s\<lparr>frames := h7, clean_df := Some d\<rparr>))))))"

subsection \<open>engineer_features\<close>

fun categorize_time :: "int \<Rightarrow> string" where
  "categorize_time hour =
     (if 6 \<le> hour \<and> hour < 12 then ''Morning''
      else if 12 \<le> hour \<and> hour < 18 then ''Afternoon''
      else if 18 \<le> hour \<and> hour < 24 then ''Evening''
      else ''Night'')"

fun get_season :: "int \<Rightarrow> string" where
  "get_season month =
     (if month \<in> set [12, 1, 2] then ''Winter''
      else if month \<in> set [3, 4, 5] then ''Spring''
      else if month \<in> set [6, 7, 8] then ''Summer''
      else ''Fall'')"

text \<open>
  \<^verbatim>\<open>df['hour'].apply(categorize_time)\<close>: the hour column holds integers, or NaN where
  the date is missing; every comparison with NaN is false, so NaN takes the last branch of
  either function.
\<close>

fun apply_categorize_time :: "cell \<Rightarrow> cell" where
  "apply_categorize_time (IntV h) = Str (categorize_time h)"
| "apply_categorize_time v = Str ''Night''"

fun apply_get_season :: "cell \<Rightarrow> cell" where
  "apply_get_season (IntV m) = Str (get_season m)"
| "apply_get_season v = Str ''Fall''"

definition violent_crimes :: "string list" where
  "violent_crimes = [''HOMICIDE'', ''ASSAULT'', ''BATTERY'', ''ROBBERY'',
     ''CRIMINAL SEXUAL ASSAULT'', ''KIDNAPPING'']"

text \<open>\<^verbatim>\<open>isin\<close> on one value.\<close>

fun isin_int :: "int list \<Rightarrow> cell \<Rightarrow> cell" where
  "isin_int xs (IntV n) = BoolV (n \<in> set xs)"
| "isin_int xs v = BoolV False"

fun isin_str :: "string list \<Rightarrow> cell \<Rightarrow> cell" where
  "isin_str xs (Str s) = BoolV (s \<in> set xs)"
| "isin_str xs v = BoolV False"

text \<open>The column assignments of \<^verbatim>\<open>engineer_features\<close>, in the order of the source, on
  the frame they change.\<close>

definition temporal_features :: "table \<Rightarrow> table" where
  "temporal_features t0 =
     (let t1 = assign_from ''year'' (dt_dtype t0) ''date'' (dt_int year_of) t0;
          t2 = assign_from ''month'' (dt_dtype t1) ''date'' (dt_int month_of) t1;
          t3 = assign_from ''month_name'' Object ''date'' dt_month_name t2;
          t4 = assign_from ''day'' (dt_dtype t3) ''date'' (dt_int day_of) t3;
          t5 = assign_from ''day_of_week'' (dt_dtype t4) ''date'' (dt_int dayofweek_of) t4;
          t6 = assign_from ''day_name'' Object ''date'' dt_day_name t5;
          t7 = assign_from ''hour'' (dt_dtype t6) ''date'' (dt_int hour_of) t6
      in assign_from ''is_weekend'' Boolean ''day_of_week'' (isin_int [5, 6]) t7)"

definition category_features :: "table \<Rightarrow> table" where
  "category_features t0 =
     (let t1 = assign_from ''time_of_day'' Object ''hour'' apply_categorize_time t0
      in assign_from ''season'' Object ''month'' apply_get_season t1)"

definition severity_feature :: "table \<Rightarrow> table" where
  "severity_feature t =
     (if has_column t ''primary_type''
      then assign_from ''is_violent'' Boolean ''primary_type'' (isin_str violent_crimes) t
      else t)"

text \<open>
  \<^verbatim>\<open>df['date']\<close> raises \<open>KeyError\<close> without the column, and \<^verbatim>\<open>.dt\<close> raises
  \<open>AttributeError\<close> on a column that is not of a datetime dtype; both happen at the first
  assignment, before the copy is changed.
\<close>

definition engineer_features :: "analyzer \<Rightarrow> (error + nat) \<times> analyzer" where
  "engineer_features s =
     (case clean_df s of
        None \<Rightarrow> (Inl (ValueError ''Data not cleaned. Call clean_data() first.''), s)
      | Some c \<Rightarrow>
          (let (h0, d) = alloc (frames s ! c) (frames s)
           in if \<not> has_column (h0 ! d) ''date'' then (Inl (KeyError ''date''), s\<lparr>frames := h0\<rparr>)
              else if dtype_of (h0 ! d) ''date'' \<noteq> Datetime64
              then (Inl (AttributeError ''Can only use .dt accessor with datetimelike values''),
                    s\<lparr>frames := h0\<rparr>)
              else
                (let h1 = inplace d temporal_features h0;
                     h2 = inplace d category_features h1;
                     h3 = inplace d severity_feature h2
                 in (Inr d, s\<lparr>frames := h3, clean_df := Some d\<rparr>))))"

subsection \<open>Aggregations\<close>

text \<open>
  \<^verbatim>\<open>groupby(key).size()\<close>: the groups are the distinct keys in ascending order, each with
  its number of rows; rows with a missing key are left out. The grouping columns
  \<^verbatim>\<open>year\<close>, \<^verbatim>\<open>month\<close> and \<^verbatim>\<open>hour\<close> are the integer columns written by
  \<^verbatim>\<open>engineer_features\<close>: their cells are integers or missing values.
\<close>

fun int_key :: "cell \<Rightarrow> int option" where
  "int_key (IntV n) = Some n"
| "int_key v = None"

definition int_keys :: "cell list \<Rightarrow> int list" where
  "int_keys vs = List.map_filter int_key vs"

definition groupby_size :: "('k :: linorder) list \<Rightarrow> ('k \<times> nat) list" where
  "groupby_size ks = map (\<lambda>k. (k, count_list ks k)) (sort (remdups ks))"

text \<open>\<^verbatim>\<open>pct_change() * 100\<close>: NaN for the first entry, then current / previous - 1, times
  one hundred, in exact arithmetic.\<close>

fun pct_from :: "nat \<Rightarrow> ('k \<times> nat) list \<Rightarrow> ('k \<times> real option) list" where
  "pct_from prev [] = []"
| "pct_from prev ((k, c) # xs) = (k, Some ((real c / real prev - 1) * 100)) # pct_from c xs"

fun pct_change :: "('k \<times> nat) list \<Rightarrow> ('k \<times> real option) list" where
  "pct_change [] = []"
| "pct_change ((k, c) # xs) = (k, None) # pct_from c xs"

text \<open>\<^verbatim>\<open>idxmax()\<close>: the label of the first maximum; \<open>ValueError\<close> on an empty series.\<close>

fun argmax_first :: "'k \<times> nat \<Rightarrow> ('k \<times> nat) list \<Rightarrow> 'k" where
  "argmax_first best [] = fst best"
| "argmax_first best (x # xs) = argmax_first (if snd best < snd x then x else best) xs"

fun idxmax :: "('k \<times> nat) list \<Rightarrow> error + 'k" where
  "idxmax [] = Inl (ValueError ''attempt to get argmax of an empty sequence'')"
| "idxmax (x # xs) = Inr (argmax_first x xs)"

text \<open>\<^verbatim>\<open>groupby(['year', 'month']).size().groupby('month').mean()\<close>\<close>

definition year_month_keys :: "table \<Rightarrow> (int \<times> int) list" where
  "year_month_keys t =
     List.map_filter
       (\<lambda>r. case (int_key (get_cell t ''year'' r), int_key (get_cell t ''month'' r)) of
               (Some y, Some m) \<Rightarrow> Some (y, m)
             | _ \<Rightarrow> None)
       (rows t)"

definition mean :: "nat list \<Rightarrow> real" where
  "mean xs = real (sum_list xs) / real (length xs)"

definition monthly_mean :: "((int \<times> int) \<times> nat) list \<Rightarrow> (int \<times> real) list" where
  "monthly_mean sizes =
     map (\<lambda>m. (m, mean (map snd (filter (\<lambda>e. snd (fst e) = m) sizes))))
       (sort (remdups (map (\<lambda>e. snd (fst e)) sizes)))"

text \<open>\<^verbatim>\<open>value_counts()\<close>: the distinct values that are not missing with their counts,
  the most frequent first, equal counts in the order of first appearance.\<close>

definition value_counts :: "cell list \<Rightarrow> (cell \<times> nat) list" where
  "value_counts vs =
     (let xs = filter (\<lambda>v. \<not> isnull v) vs
      in sort_key (\<lambda>e. - int (snd e)) (map (\<lambda>v. (v, count_list xs v)) (keep_first [] xs)))"

subsection \<open>analyze_trends\<close>

record trends =
  yearly_crimes :: "(int \<times> nat) list"
  yoy_change :: "(int \<times> real option) list"
  monthly_avg :: "(int \<times> real) list"
  peak_hour :: int

text \<open>Each \<^verbatim>\<open>groupby\<close> raises \<open>KeyError\<close> for a column the frame does not have, in the
  order of the source. The frame is read through the reference, not copied.\<close>

definition analyze_trends :: "analyzer \<Rightarrow> (error + trends) \<times> analyzer" where
  "analyze_trends s =
     (case clean_df s of
        None \<Rightarrow> (Inl (ValueError ''Data not prepared. Call clean_data() first.''), s)
      | Some c \<Rightarrow>
          (let t = frames s ! c
           in if \<not> has_column t ''year'' then (Inl (KeyError ''year''), s)
              else
                (let yearly = groupby_size (int_keys (column_values t ''year''));
                     yoy = pct_change yearly
                 in if \<not> has_column t ''month'' then (Inl (KeyError ''month''), s)
                    else
                      (let monthly = monthly_mean (groupby_size (year_month_keys t))
                       in if \<not> has_column t ''day_name'' then (Inl (KeyError ''day_name''), s)
                          else if \<not> has_column t ''hour'' then (Inl (KeyError ''hour''), s)
                          else
                            (case idxmax (groupby_size (int_keys (column_values t ''hour''))) of
                               Inl e \<Rightarrow> (Inl e, s)
                             | Inr peak \<Rightarrow>
                                 (Inr \<lparr>yearly_crimes = yearly, yoy_change = yoy,
                                       monthly_avg = monthly, peak_hour = peak\<rparr>, s))))))"

subsection \<open>analyze_crime_types and analyze_geographic\<close>

text \<open>The returned frame of counts and percentages, one entry per category; the
  percentage is rounded to two decimals.\<close>

definition round_half_even :: "real \<Rightarrow> int" where
  "round_half_even x =
     (let f = \<lfloor>x\<rfloor>; d = x - of_int f
      in if d < 1 / 2 then f else if 1 / 2 < d then f + 1 else if even f then f else f + 1)"

definition round2 :: "real \<Rightarrow> real" where
  "round2 x = real_of_int (round_half_even (x * 100)) / 100"

definition analyze_crime_types :: "analyzer \<Rightarrow> (error + (cell \<times> nat \<times> real) list) \<times> analyzer" where
  "analyze_crime_types s =
     (case clean_df s of
        None \<Rightarrow> (Inl (ValueError ''Data not prepared. Call clean_data() first.''), s)
      | Some c \<Rightarrow>
          (let t = frames s ! c
           in if \<not> has_column t ''primary_type'' then (Inl (KeyError ''primary_type''), s)
              else
                (let crime_counts = value_counts (column_values t ''primary_type'')
                 in (Inr (map (\<lambda>e. (fst e, snd e,
                                     round2 (real (snd e) / real (length (rows t)) * 100)))
                            crime_counts), s))))"

record geo =
  district_crimes :: "(cell \<times> nat) list option"
  location_types :: "(cell \<times> nat) list option"

definition analyze_geographic :: "analyzer \<Rightarrow> (error + geo) \<times> analyzer" where
  "analyze_geographic s =
     (case clean_df s of
        None \<Rightarrow> (Inl (ValueError ''Data not prepared. Call clean_data() first.''), s)
      | Some c \<Rightarrow>
          (let t = frames s ! c
           in (Inr \<lparr>district_crimes =
                      (if has_column t ''district''
                       then Some (value_counts (column_values t ''district'')) else None),
                    location_types =
                      (if has_column t ''location_description''
                       then Some (value_counts (column_values t ''location_description''))
                       else None)\<rparr>, s)))"

subsection \<open>calculate_kpis\<close>

text \<open>
  The sum of a boolean column counts its true values. A percentage is a float: a missing
  value stands for NaN, which is what numpy's division gives on an empty frame. The last
  division is Python's own division of two integers, which raises \<open>ZeroDivisionError\<close>
  for a zero divisor; on a frame without a non-missing date the span is NaT and the
  quotient NaN.
\<close>

fun truth :: "cell \<Rightarrow> nat" where
  "truth (BoolV True) = 1"
| "truth v = 0"

definition pct_of :: "table \<Rightarrow> string \<Rightarrow> cell" where
  "pct_of t c =
     (if rows t = [] then Missing
      else FloatV (real (sum_list (map truth (column_values t c))) / real (length (rows t)) * 100))"

fun stamp :: "cell \<Rightarrow> int option" where
  "stamp (Timestamp n) = Some n"
| "stamp v = None"

definition stamps :: "table \<Rightarrow> int list" where
  "stamps t = List.map_filter stamp (column_values t ''date'')"

text \<open>
  \<^verbatim>\<open>(df['date'].max() - df['date'].min()).days\<close> on a datetime column with a value.
  The difference of the two timestamps is a \<open>Timedelta\<close>, a signed 64-bit count of
  nanoseconds: a span of more than \<open>2\<^sup>6\<^sup>3 - 1\<close> nanoseconds (about 292 years) raises
  \<open>OutOfBoundsDatetime\<close>.
\<close>

definition timedelta_max :: int where
  "timedelta_max = 9223372036854775807"

definition date_span :: "int list \<Rightarrow> int" where
  "date_span ts = Max (set ts) - Min (set ts)"

definition date_range_days :: "int list \<Rightarrow> int" where
  "date_range_days ts = date_span ts div ns_per_day"

definition optional_kpi :: "table \<Rightarrow> string \<Rightarrow> string \<Rightarrow> (string \<times> cell) list" where
  "optional_kpi t key c = (if has_column t c then [(key, pct_of t c)] else [])"

definition calculate_kpis :: "analyzer \<Rightarrow> (error + (string \<times> cell) list) \<times> analyzer" where
  "calculate_kpis s =
     (case clean_df s of
        None \<Rightarrow> (Inl (ValueError ''Data not prepared. Call clean_data() first.''), s)
      | Some c \<Rightarrow>
          (let t = frames s ! c;
               kpis = [(''total_crimes'', IntV (int (length (rows t))))]
                  @ optional_kpi t ''arrest_rate'' ''arrest''
                  @ optional_kpi t ''domestic_pct'' ''domestic''
                  @ optional_kpi t ''violent_pct'' ''is_violent''
           in if \<not> has_column t ''date'' then (Inl (KeyError ''date''), s)
              else if dtype_of t ''date'' \<noteq> Datetime64
              then (Inl (TypeError ''unsupported operand type(s) for -''), s)
              else if stamps t = [] then (Inr (kpis @ [(''avg_crimes_per_day'', Missing)]), s)
              else if timedelta_max < date_span (stamps t) then (Inl OutOfBoundsDatetime, s)
              else if date_range_days (stamps t) = 0 then (Inl ZeroDivisionError, s)
              else (Inr (kpis @ [(''avg_crimes_per_day'',
                       FloatV (real (length (rows t)) / real_of_int (date_range_days (stamps t))))]),
                    s)))"

subsection \<open>explore_data\<close>

record exploration =
  total_records :: nat
  n_columns :: nat
  date_range :: "int option \<times> int option"
  missing_values :: nat
  duplicate_records :: nat

definition opt_min :: "int list \<Rightarrow> int option" where
  "opt_min ts = (if ts = [] then None else Some (Min (set ts)))"

definition opt_max :: "int list \<Rightarrow> int option" where
  "opt_max ts = (if ts = [] then None else Some (Max (set ts)))"

text \<open>The statistics over the loaded frame; the date range is that of a datetime
  column.\<close>

definition explore_data :: "analyzer \<Rightarrow> (error + exploration) \<times> analyzer" where
  "explore_data s =
     (case df s of
        None \<Rightarrow> (Inl (ValueError ''Data not loaded. Call load_data() first.''), s)
      | Some a \<Rightarrow>
          (let t = frames s ! a
           in if \<not> has_column t ''date'' then (Inl (KeyError ''date''), s)
              else
                (Inr \<lparr>total_records = length (rows t),
                      n_columns = length (columns t),
                      date_range = (opt_min (stamps t), opt_max (stamps t)),
                      missing_values = sum_list (map (\<lambda>r. length (filter isnull r)) (rows t)),
                      duplicate_records = length (rows t) - length (keep_first [] (rows t))\<rparr>, s)))"

section \<open>Well-formed states and example data\<close>

text \<open>A frame is rectangular: every row has one cell per column. In a state of the
  analyzer every frame of the store is rectangular and the two references point into the
  store.\<close>

definition wf_table :: "table \<Rightarrow> bool" where
  "wf_table t = list_all (\<lambda>r. length r = length (columns t)) (rows t)"

definition valid_ref :: "table list \<Rightarrow> nat option \<Rightarrow> bool" where
  "valid_ref h a = (case a of None \<Rightarrow> True | Some i \<Rightarrow> i < length h)"

definition wf_analyzer :: "analyzer \<Rightarrow> bool" where
  "wf_analyzer s = (list_all wf_table (frames s) \<and> valid_ref (frames s) (df s)
     \<and> valid_ref (frames s) (clean_df s))"

text \<open>The row that an assignment makes of a row.\<close>

definition upd_row :: "string \<Rightarrow> (cell list \<Rightarrow> cell) \<Rightarrow> table \<Rightarrow> cell list \<Rightarrow> cell list" where
  "upd_row c f t r = (case index_of c (col_names t) of Some i \<Rightarrow> r[i := f r] | None \<Rightarrow> r @ [f r])"

text \<open>In every row, the cell of column \<open>dst\<close> is \<open>g\<close> of the cell of column \<open>src\<close>.\<close>

definition derived :: "table \<Rightarrow> string \<Rightarrow> string \<Rightarrow> (cell \<Rightarrow> cell) \<Rightarrow> bool" where
  "derived t src dst g = list_all (\<lambda>r. get_cell t dst r = g (get_cell t src r)) (rows t)"

text \<open>The column \<open>dst\<close> holds, row by row, the bucket \<open>f\<close> of the number in the
  column \<open>src\<close>, and the name \<open>nan\<close> where that number is missing; \<open>src\<close> holds
  nothing but integers and missing values.\<close>

definition bucketed :: "table \<Rightarrow> string \<Rightarrow> string \<Rightarrow> (int \<Rightarrow> string) \<Rightarrow> string \<Rightarrow> bool" where
  "bucketed t src dst f nan =
     list_all (\<lambda>r. case get_cell t src r of
                      IntV n \<Rightarrow> get_cell t dst r = Str (f n)
                    | Missing \<Rightarrow> get_cell t dst r = Str nan
                    | _ \<Rightarrow> False) (rows t)"

text \<open>No cell of the column is missing.\<close>

definition no_missing :: "table \<Rightarrow> string \<Rightarrow> bool" where
  "no_missing t c = list_all (\<lambda>r. \<not> isnull (get_cell t c r)) (rows t)"

text \<open>
  A small raw frame: 2024-01-01 07:30, 2024-01-01 19:00 and 2024-01-03 00:00 as
  timestamps; the third row repeats the first, the fourth has no latitude.
\<close>

definition ex_columns :: "(string \<times> dtype) list" where
  "ex_columns = [(''date'', Datetime64), (''primary_type'', Object), (''description'', Object),
     (''latitude'', Float64), (''longitude'', Float64), (''arrest'', Object)]"

definition ex_raw :: table where
  "ex_raw = \<lparr>columns = ex_columns,
     rows = [
       [Timestamp 1704094200000000000, Str '' battery'', Missing, FloatV 41, FloatV (-87), BoolV True],
       [Timestamp 1704135600000000000, Str ''theft'', Str ''from building'', FloatV 42, FloatV (-88), Missing],
       [Timestamp 1704094200000000000, Str '' battery'', Missing, FloatV 41, FloatV (-87), BoolV True],
       [Timestamp 1704240000000000000, Str ''THEFT'', Str ''retail'', Missing, FloatV (-88), BoolV False]]\<rparr>"

definition ex_clean :: table where
  "ex_clean = \<lparr>columns = [(''date'', Datetime64), (''primary_type'', Object), (''description'', Object),
       (''latitude'', Float64), (''longitude'', Float64), (''arrest'', Boolean)],
     rows = [
       [Timestamp 1704094200000000000, Str ''BATTERY'', Str ''UNKNOWN'', FloatV 41, FloatV (-87), BoolV True],
       [Timestamp 1704135600000000000, Str ''THEFT'', Str ''FROM BUILDING'', FloatV 42, FloatV (-88), BoolV False]]\<rparr>"

definition ex_loaded :: analyzer where
  "ex_loaded = \<lparr>data_path = None, df = Some 0, clean_df = None, frames = [ex_raw]\<rparr>"

definition ex_cleaned :: analyzer where
  "ex_cleaned = \<lparr>data_path = None, df = Some 0, clean_df = Some 1, frames = [ex_raw, ex_clean]\<rparr>"

definition ex_enriched :: table where
  "ex_enriched = \<lparr>columns = [(''date'', Datetime64), (''primary_type'', Object), (''description'', Object),
       (''latitude'', Float64), (''longitude'', Float64), (''arrest'', Boolean),
       (''year'', Int64), (''month'', Int64), (''month_name'', Object), (''day'', Int64),
       (''day_of_week'', Int64), (''day_name'', Object), (''hour'', Int64),
       (''is_weekend'', Boolean), (''time_of_day'', Object), (''season'', Object),
       (''is_violent'', Boolean)],
     rows = [
       [Timestamp 1704094200000000000, Str ''BATTERY'', Str ''UNKNOWN'', FloatV 41, FloatV (-87),
        BoolV True, IntV 2024, IntV 1, Str ''January'', IntV 1, IntV 0, Str ''Monday'', IntV 7,
        BoolV False, Str ''Morning'', Str ''Winter'', BoolV True],
       [Timestamp 1704135600000000000, Str ''THEFT'', Str ''FROM BUILDING'', FloatV 42, FloatV (-88),
        BoolV False, IntV 2024, IntV 1, Str ''January'', IntV 1, IntV 0, Str ''Monday'', IntV 19,
        BoolV False, Str ''Evening'', Str ''Winter'', BoolV False]]\<rparr>"

definition ex_engineered :: analyzer where
  "ex_engineered = \<lparr>data_path = None, df = Some 0, clean_df = Some 2,
     frames = [ex_raw, ex_clean, ex_enriched]\<rparr>"

text \<open>The frame that \<^verbatim>\<open>clean_data\<close> stores, as a function of the raw frame: the
  statements of the method on the one frame they build and change, with the exception of
  the text loop if it raises one. It is proved below (\<open>clean_data_Inr\<close>) that the
  method returns only if the loop raises nothing, and that this frame is then the frame
  stored.\<close>

fun standardize_cols :: "string list \<Rightarrow> table \<Rightarrow> error option \<times> table" where
  "standardize_cols [] t = (None, t)"
| "standardize_cols (col # cols) t =
     (if col = ''date'' then standardize_cols cols t
      else if \<not> str_accessor_ok (column_values t col) then (Some str_error, t)
      else standardize_cols cols (str_normalize_column col t))"

definition text_step :: "table \<Rightarrow> error option \<times> table" where
  "text_step t = standardize_cols (select_dtypes_object t) t"

definition before_text :: "table \<Rightarrow> table" where
  "before_text t =
     bool_step ''domestic'' (bool_step ''arrest''
       (fill_step ''location_description'' (fill_step ''description''
         (dropna critical_fields (drop_duplicates t)))))"

definition clean_error :: "table \<Rightarrow> error option" where
  "clean_error t = fst (text_step (before_text t))"

definition clean_frame :: "table \<Rightarrow> table" where
  "clean_frame t = snd (text_step (before_text t))"

text \<open>The columns that \<^verbatim>\<open>engineer_features\<close> writes.\<close>

definition feature_names :: "string list" where
  "feature_names = [''year'', ''month'', ''month_name'', ''day'', ''day_of_week'', ''day_name'',
     ''hour'', ''is_weekend'', ''time_of_day'', ''season'', ''is_violent'']"

text \<open>A cleaned frame without the category column, and the state that holds it.\<close>

definition ex_dates :: table where
  "ex_dates = \<lparr>columns = [(''date'', Datetime64)],
     rows = [
       [Timestamp 1704094200000000000], [Timestamp 1704240000000000000]]\<rparr>"

definition ex_dates_state :: analyzer where
  "ex_dates_state = \<lparr>data_path = None, df = None, clean_df = Some 0, frames = [ex_dates]\<rparr>"

text \<open>A cleaned frame with one record in each season and each part of the day, and one
  without a date; the state that holds it.\<close>

definition ex_seasons :: table where
  "ex_seasons = \<lparr>columns = [(''date'', Datetime64)],
     rows = [
       [Timestamp 1705287600000000000], [Timestamp 1712732400000000000],
       [Timestamp 1721480400000000000], [Timestamp 1728154800000000000], [Missing]]\<rparr>"

definition ex_seasons_state :: analyzer where
  "ex_seasons_state = \<lparr>data_path = None, df = None, clean_df = Some 0, frames = [ex_seasons]\<rparr>"


text \<open>The frames a state refers to.\<close>

definition raw_frame :: "analyzer \<Rightarrow> table option" where
  "raw_frame s = map_option (\<lambda>a. frames s ! a) (df s)"

definition current_frame :: "analyzer \<Rightarrow> table option" where
  "current_frame s = map_option (\<lambda>a. frames s ! a) (clean_df s)"

text \<open>A raw frame with a single record, loaded.\<close>

definition ex_single :: table where
  "ex_single = \<lparr>columns = [(''date'', Datetime64), (''primary_type'', Object),
       (''latitude'', Float64), (''longitude'', Float64), (''arrest'', Boolean)],
     rows = [
       [Timestamp 1704094200000000000, Str ''THEFT'', FloatV 41, FloatV (-87), BoolV True]]\<rparr>"

definition ex_single_loaded :: analyzer where
  "ex_single_loaded = \<lparr>data_path = None, df = Some 0, clean_df = None, frames = [ex_single]\<rparr>"

text \<open>A file system with no file at all.\<close>

definition no_files :: "string \<Rightarrow> error + table" where
  "no_files path = Inl FileNotFoundError"

text \<open>A current frame with 100 records of 2022 and 150 of 2023, in the columns that
  \<^verbatim>\<open>analyze_trends\<close> reads.\<close>

definition ex_two_years :: table where
  "ex_two_years = \<lparr>columns = [(''year'', Int64), (''month'', Int64), (''day_name'', Object),
       (''hour'', Int64)],
     rows = replicate 100 [IntV 2022, IntV 3, Str ''Tuesday'', IntV 21]
          @ replicate 150 [IntV 2023, IntV 3, Str ''Friday'', IntV 9]\<rparr>"

definition ex_two_years_state :: analyzer where
  "ex_two_years_state = \<lparr>data_path = None, df = None, clean_df = Some 0, frames = [ex_two_years]\<rparr>"

definition ex_trends_two_years :: trends where
  "ex_trends_two_years = \<lparr>yearly_crimes = [(2022, 100), (2023, 150)],
     yoy_change = [(2022, None), (2023, Some 50)], monthly_avg = [(3, 125)], peak_hour = 9\<rparr>"

definition ex_trends_engineered :: trends where
  "ex_trends_engineered = \<lparr>yearly_crimes = [(2024, 2)], yoy_change = [(2024, None)],
     monthly_avg = [(1, 2)], peak_hour = 7\<rparr>"

section \<open>The cleaning contract\<close>

text \<open>
  The five cleaning steps as the specification words them, on whole frames and cell by
  cell, independent of the column assignments of the code. A step that writes text into a
  column, or booleans, gives the column the matching dtype. A text-typed column is a column
  of dtype \<open>Object\<close>.
\<close>

text \<open>Step 1: remove exact full-row duplicates; the first of equal rows stays.\<close>

fun spec_dedup_rows :: "'a list \<Rightarrow> 'a list" where
  "spec_dedup_rows [] = []"
| "spec_dedup_rows (r # rs) = r # spec_dedup_rows (filter (\<lambda>x. x \<noteq> r) rs)"

definition spec_step1 :: "table \<Rightarrow> table" where
  "spec_step1 t = t\<lparr>rows := spec_dedup_rows (rows t)\<rparr>"

text \<open>Step 2: drop the rows in which date, primary category, latitude or longitude is
  missing.\<close>

definition spec_complete :: "table \<Rightarrow> cell list \<Rightarrow> bool" where
  "spec_complete t r =
     (get_cell t ''date'' r \<noteq> Missing \<and> get_cell t ''primary_type'' r \<noteq> Missing
      \<and> get_cell t ''latitude'' r \<noteq> Missing \<and> get_cell t ''longitude'' r \<noteq> Missing)"

definition spec_step2 :: "table \<Rightarrow> table" where
  "spec_step2 t = t\<lparr>rows := filter (spec_complete t) (rows t)\<rparr>"

text \<open>A cell-wise change of the values by column name, and a change of the dtypes.\<close>

definition map_named :: "(string \<Rightarrow> cell \<Rightarrow> cell) \<Rightarrow> table \<Rightarrow> table" where
  "map_named f t = t\<lparr>rows := map (\<lambda>r. map (\<lambda>(cd, v). f (fst cd) v) (zip (columns t) r)) (rows t)\<rparr>"

definition set_dtypes :: "(string \<Rightarrow> dtype \<Rightarrow> dtype) \<Rightarrow> table \<Rightarrow> table" where
  "set_dtypes g t = t\<lparr>columns := map (\<lambda>cd. (fst cd, g (fst cd) (snd cd))) (columns t)\<rparr>"

text \<open>Step 3: fill a missing description or location description with the sentinel.\<close>

definition fill_fields :: "string list" where
  "fill_fields = [''description'', ''location_description'']"

definition spec_step3 :: "table \<Rightarrow> table" where
  "spec_step3 t =
     set_dtypes (\<lambda>c d. if c \<in> set fill_fields \<and> Missing \<in> set (column_values t c) then Object else d)
       (map_named (\<lambda>c v. if c \<in> set fill_fields \<and> v = Missing then Str ''UNKNOWN'' else v) t)"

text \<open>Step 4: arrest and domestic become booleans, a missing value false.\<close>

definition bool_fields :: "string list" where
  "bool_fields = [''arrest'', ''domestic'']"

definition spec_step4 :: "table \<Rightarrow> table" where
  "spec_step4 t =
     set_dtypes (\<lambda>c d. if c \<in> set bool_fields then Boolean else d)
       (map_named (\<lambda>c v. if c \<in> set bool_fields
                          then (if v = Missing then BoolV False else astype_bool v) else v) t)"

text \<open>Step 5: in every text-typed column except the date column, trim and upper-case the
  value; a value that is no text stays as it is.\<close>

fun spec_normalize :: "cell \<Rightarrow> cell" where
  "spec_normalize (Str s) = Str (upper (strip s))"
| "spec_normalize v = v"

definition spec_step5 :: "table \<Rightarrow> table" where
  "spec_step5 t =
     map_named (\<lambda>c v. if dtype_of t c = Object \<and> c \<noteq> ''date'' then spec_normalize v else v) t"

definition spec_clean :: "table \<Rightarrow> table" where
  "spec_clean t = spec_step5 (spec_step4 (spec_step3 (spec_step2 (spec_step1 t))))"

text \<open>
  The frames of the specification's data model: rectangular, with distinct column names
  (as the reader gives them), the four critical columns present, text in the text-typed
  columns (a string or a missing value; arrest and domestic may hold booleans, the date
  column is left alone) and text in the two description columns.
\<close>

fun text_cell :: "cell \<Rightarrow> bool" where
  "text_cell Missing = True"
| "text_cell (Str s) = True"
| "text_cell v = False"

definition text_column :: "string \<times> dtype \<Rightarrow> bool" where
  "text_column cd = ((snd cd = Object \<and> fst cd \<notin> set (''date'' # bool_fields))
                     \<or> fst cd \<in> set fill_fields)"

definition text_ok :: "table \<Rightarrow> bool" where
  "text_ok t =
     list_all (\<lambda>r. list_all (\<lambda>(cd, v). text_column cd \<longrightarrow> text_cell v) (zip (columns t) r)) (rows t)"

definition raw_ok :: "table \<Rightarrow> bool" where
  "raw_ok t = (wf_table t \<and> distinct (col_names t) \<and> list_all (has_column t) critical_fields
     \<and> text_ok t)"

text \<open>
  The cleaned frames of the data model: no missing description, booleans in the two flag
  columns, trimmed upper-case text in the text-typed columns.
\<close>

definition cleaned_cell :: "string \<times> dtype \<Rightarrow> cell \<Rightarrow> bool" where
  "cleaned_cell cd v =
     ((fst cd \<in> set fill_fields \<longrightarrow> v \<noteq> Missing)
      \<and> (fst cd \<in> set bool_fields \<longrightarrow> bool_cell v)
      \<and> (snd cd = Object \<and> fst cd \<noteq> ''date'' \<longrightarrow> spec_normalize v = v)
      \<and> (text_column cd \<longrightarrow> text_cell v))"

definition cleaned_form :: "table \<Rightarrow> bool" where
  "cleaned_form t =
     (wf_table t \<and> distinct (col_names t)
      \<and> list_all (\<lambda>cd. fst cd \<in> set bool_fields \<longrightarrow> snd cd = Boolean) (columns t)
      \<and> list_all (\<lambda>r. list_all (\<lambda>(cd, v). cleaned_cell cd v) (zip (columns t) r)) (rows t))"

text \<open>Steps 3 and 4 together, on a cell and on a dtype.\<close>

definition fill_bool :: "string \<Rightarrow> cell \<Rightarrow> cell" where
  "fill_bool c v =
     (let x = (if c \<in> set fill_fields \<and> v = Missing then Str ''UNKNOWN'' else v)
      in if c \<in> set bool_fields then (if x = Missing then BoolV False else astype_bool x) else x)"

definition fill_bool_dtype :: "table \<Rightarrow> string \<Rightarrow> dtype \<Rightarrow> dtype" where
  "fill_bool_dtype t c d =
     (if c \<in> set bool_fields then Boolean
      else if c \<in> set fill_fields \<and> Missing \<in> set (column_values t c) then Object else d)"

text \<open>An analyzer that has loaded the cleaned example frame, and a raw frame whose two
  records differ only in the case of the category.\<close>

definition ex_reloaded :: analyzer where
  "ex_reloaded = \<lparr>data_path = None, df = Some 0, clean_df = None, frames = [ex_clean]\<rparr>"

definition ex_case :: table where
  "ex_case = \<lparr>columns = [(''date'', Datetime64), (''primary_type'', Object),
       (''latitude'', Float64), (''longitude'', Float64)],
     rows = [
       [Timestamp 1704094200000000000, Str ''theft'', FloatV 41, FloatV (-87)],
             [Timestamp 1704094200000000000, Str ''THEFT'', FloatV 41, FloatV (-87)]]\<rparr>"

text \<open>
  Frames as \<^verbatim>\<open>read_csv\<close> makes them of files with a column that is no text. In the
  first a column \<open>verified\<close> reads True, blank, False: an object column of booleans
  and a missing value. In the second the \<open>description\<close> column reads 5.0, blank, 7.0:
  a float column with a missing value.
\<close>

definition ex_flags :: table where
  "ex_flags = \<lparr>columns = [(''date'', Datetime64), (''primary_type'', Object),
       (''latitude'', Float64), (''longitude'', Float64), (''verified'', Object)],
     rows = [
       [Timestamp 1704094200000000000, Str ''THEFT'', FloatV 41, FloatV (-87), BoolV True],
       [Timestamp 1704180600000000000, Str ''BATTERY'', FloatV 42, FloatV (-88), Missing],
       [Timestamp 1704267000000000000, Str ''THEFT'', FloatV 43, FloatV (-89), BoolV False]]\<rparr>"

definition ex_flags_loaded :: analyzer where
  "ex_flags_loaded = \<lparr>data_path = None, df = Some 0, clean_df = None, frames = [ex_flags]\<rparr>"

definition ex_numeric :: table where
  "ex_numeric = \<lparr>columns = [(''date'', Datetime64), (''primary_type'', Object),
       (''latitude'', Float64), (''longitude'', Float64), (''description'', Float64)],
     rows = [
       [Timestamp 1704094200000000000, Str ''THEFT'', FloatV 41, FloatV (-87), FloatV 5],
       [Timestamp 1704180600000000000, Str ''BATTERY'', FloatV 42, FloatV (-88), Missing],
       [Timestamp 1704267000000000000, Str ''THEFT'', FloatV 43, FloatV (-89), FloatV 7]]\<rparr>"

definition ex_numeric_loaded :: analyzer where
  "ex_numeric_loaded = \<lparr>data_path = None, df = Some 0, clean_df = None, frames = [ex_numeric]\<rparr>"

text \<open>The second frame with its numeric descriptions missing, as a file with a blank,
  UNKNOWN and a blank in that column reads.\<close>

definition ex_wiped :: table where
  "ex_wiped = \<lparr>columns = [(''date'', Datetime64), (''primary_type'', Object),
       (''latitude'', Float64), (''longitude'', Float64), (''description'', Object)],
     rows = [
       [Timestamp 1704094200000000000, Str ''THEFT'', FloatV 41, FloatV (-87), Missing],
       [Timestamp 1704180600000000000, Str ''BATTERY'', FloatV 42, FloatV (-88), Str ''UNKNOWN''],
       [Timestamp 1704267000000000000, Str ''THEFT'', FloatV 43, FloatV (-89), Missing]]\<rparr>"

definition ex_wiped_loaded :: analyzer where
  "ex_wiped_loaded = \<lparr>data_path = None, df = Some 0, clean_df = None, frames = [ex_wiped]\<rparr>"

section \<open>Properties\<close>

subsection \<open>Column assignment\<close>

lemma index_of_None: "index_of c xs = None \<longleftrightarrow> c \<notin> set xs"
  by (induction xs) auto

lemma index_of_Some: "index_of c xs = Some i \<Longrightarrow> i < length xs \<and> xs ! i = c"
  by (induction xs arbitrary: i) (auto split: if_splits)

lemma index_of_mem: "index_of c xs = Some i \<Longrightarrow> c \<in> set xs"
  using index_of_None[of c xs] by auto

lemma has_column_index: "has_column t c \<longleftrightarrow> index_of c (col_names t) \<noteq> None"
  by (simp add: has_column_def index_of_None)

lemma index_of_append:
  "index_of c (xs @ [x]) = (case index_of c xs of Some i \<Rightarrow> Some i
      | None \<Rightarrow> if x = c then Some (length xs) else None)"
  by (induction xs) (auto split: option.splits)

lemma length_col_names: "length (col_names t) = length (columns t)"
  by (simp add: col_names_def)

lemma col_names_assign_Some:
  assumes "index_of c (col_names t) = Some i"
  shows "col_names (assign c d f t) = col_names t"
proof -
  from index_of_Some[OF assms] have i: "i < length (col_names t)" "col_names t ! i = c" by auto
  have "col_names (assign c d f t) = (col_names t)[i := c]"
    using assms by (simp add: assign_def col_names_def map_update)
  with i show ?thesis by (metis list_update_id)
qed

lemma col_names_assign_None:
  assumes "index_of c (col_names t) = None"
  shows "col_names (assign c d f t) = col_names t @ [c]"
  using assms by (simp add: assign_def col_names_def)

lemma rows_assign: "rows (assign c d f t) = map (upd_row c f t) (rows t)"
  by (auto simp: assign_def upd_row_def split: option.splits)

lemma has_column_assign: "has_column (assign c d f t) c' \<longleftrightarrow> c' = c \<or> has_column t c'"
proof (cases "index_of c (col_names t)")
  case None
  then show ?thesis by (auto simp: has_column_def col_names_assign_None)
next
  case (Some i)
  then have "c \<in> set (col_names t)" using index_of_None[of c "col_names t"] by auto
  with Some show ?thesis by (auto simp: has_column_def col_names_assign_Some)
qed

lemma length_upd_row:
  "length (upd_row c f t r) = (if has_column t c then length r else Suc (length r))"
  by (auto simp: upd_row_def has_column_index split: option.splits)

lemma length_columns_assign:
  "length (columns (assign c d f t)) =
     (if has_column t c then length (columns t) else Suc (length (columns t)))"
  by (auto simp: assign_def has_column_index split: option.splits)

lemma wf_assign: "wf_table t \<Longrightarrow> wf_table (assign c d f t)"
  by (simp add: wf_table_def list_all_iff rows_assign length_columns_assign length_upd_row)

lemma get_cell_assign_same:
  assumes "length r = length (columns t)"
  shows "get_cell (assign c d f t) c (upd_row c f t r) = f r"
proof (cases "index_of c (col_names t)")
  case None
  then show ?thesis using assms[symmetric]
    by (simp add: get_cell_def col_names_assign_None index_of_append upd_row_def cell_at_def
        length_col_names)
next
  case (Some i)
  with index_of_Some[OF Some] show ?thesis using assms
    by (simp add: get_cell_def col_names_assign_Some upd_row_def cell_at_def length_col_names)
qed

lemma get_cell_assign_other:
  assumes "c' \<noteq> c" "length r = length (columns t)"
  shows "get_cell (assign c d f t) c' (upd_row c f t r) = get_cell t c' r"
proof (cases "index_of c (col_names t)")
  case None
  show ?thesis
  proof (cases "index_of c' (col_names t)")
    case N: None
    with None assms show ?thesis
      by (simp add: get_cell_def col_names_assign_None index_of_append)
  next
    case S: (Some j)
    with None assms index_of_Some[OF S] show ?thesis
      by (simp add: get_cell_def col_names_assign_None index_of_append upd_row_def cell_at_def
          length_col_names nth_append)
  qed
next
  case (Some i)
  show ?thesis
  proof (cases "index_of c' (col_names t)")
    case N: None
    with Some show ?thesis by (simp add: get_cell_def col_names_assign_Some)
  next
    case S: (Some j)
    from index_of_Some[OF S] index_of_Some[OF Some] assms have "i \<noteq> j" by auto
    with Some S show ?thesis
      by (simp add: get_cell_def col_names_assign_Some upd_row_def cell_at_def)
  qed
qed

lemma wf_assign_from: "wf_table t \<Longrightarrow> wf_table (assign_from dst d src g t)"
  by (simp add: assign_from_def wf_assign)

lemma has_column_assign_from:
  "has_column (assign_from dst d src g t) c' \<longleftrightarrow> c' = dst \<or> has_column t c'"
  by (simp add: assign_from_def has_column_assign)

lemma length_rows_assign_from: "length (rows (assign_from dst d src g t)) = length (rows t)"
  by (simp add: assign_from_def rows_assign)

lemma derived_assign_from:
  assumes "wf_table t" "src \<noteq> dst"
  shows "derived (assign_from dst d src g t) src dst g"
  using assms
  by (auto simp: derived_def assign_from_def rows_assign list_all_iff wf_table_def
      get_cell_assign_same get_cell_assign_other)

lemma derived_preserved:
  assumes "wf_table t" "c \<noteq> a" "c \<noteq> b" "derived t a b g"
  shows "derived (assign_from c d src g' t) a b g"
  using assms
  by (auto simp: derived_def assign_from_def rows_assign list_all_iff wf_table_def
      get_cell_assign_other)

subsection \<open>Feature engineering\<close>

lemma engineer_features_Inr:
  assumes "engineer_features s = (Inr d, s')"
  shows "\<exists>c. clean_df s = Some c \<and> d = length (frames s)
     \<and> s' = s\<lparr>frames := frames s @
                 [severity_feature (category_features (temporal_features (frames s ! c)))],
              clean_df := Some d\<rparr>"
  using assms
  by (auto simp: engineer_features_def alloc_def inplace_def Let_def split: option.splits if_splits)

lemma wf_temporal: "wf_table t \<Longrightarrow> wf_table (temporal_features t)"
  by (simp add: temporal_features_def Let_def wf_assign_from)

lemma wf_category: "wf_table t \<Longrightarrow> wf_table (category_features t)"
  by (simp add: category_features_def Let_def wf_assign_from)

lemma derived_category:
  assumes "wf_table t"
  shows "derived (category_features t) ''hour'' ''time_of_day'' apply_categorize_time"
    and "derived (category_features t) ''month'' ''season'' apply_get_season"
  using assms
  by (simp_all add: category_features_def Let_def derived_assign_from derived_preserved
      wf_assign_from)

lemma derived_severity_pres:
  assumes "wf_table t" "a \<noteq> ''is_violent''" "b \<noteq> ''is_violent''" "derived t a b g"
  shows "derived (severity_feature t) a b g"
  using assms by (simp add: severity_feature_def derived_preserved)

lemma apply_categorize_time_not_null: "\<not> isnull (apply_categorize_time v)"
  by (cases v) (simp_all add: isnull_def)

lemma apply_get_season_not_null: "\<not> isnull (apply_get_season v)"
  by (cases v) (simp_all add: isnull_def)

lemma derived_no_missing:
  assumes "derived t a b g" "\<And>v. \<not> isnull (g v)"
  shows "no_missing t b"
  using assms by (auto simp: derived_def no_missing_def list_all_iff)

lemma wf_analyzer_frame:
  "wf_analyzer s \<Longrightarrow> clean_df s = Some c \<Longrightarrow> wf_table (frames s ! c)"
  by (auto simp: wf_analyzer_def valid_ref_def list_all_iff)

lemma wf_ex_cleaned: "wf_analyzer ex_cleaned"
  by code_simp

lemma engineer_ex_cleaned: "engineer_features ex_cleaned = (Inr 2, ex_engineered)"
  by code_simp

lemma derived_temporal:
  assumes "wf_table t"
  shows "derived (temporal_features t) ''date'' ''hour'' (dt_int hour_of)"
    and "derived (temporal_features t) ''date'' ''month'' (dt_int month_of)"
  using assms
  by (simp_all add: temporal_features_def Let_def derived_assign_from derived_preserved
      wf_assign_from)

lemma derived_category_pres:
  assumes "wf_table t" "a \<notin> {''time_of_day'', ''season''}" "b \<notin> {''time_of_day'', ''season''}"
    "derived t a b g"
  shows "derived (category_features t) a b g"
  unfolding category_features_def Let_def
  using assms by (intro derived_preserved wf_assign_from) auto

lemma bucketed_derived:
  assumes "derived t src0 src (dt_int f0)" "derived t src dst g"
    "\<And>n. g (IntV n) = Str (f n)" "g Missing = Str nan"
  shows "bucketed t src dst f nan"
  unfolding bucketed_def list_all_iff
proof
  fix r assume r: "r \<in> set (rows t)"
  from assms(1) r have s: "get_cell t src r = dt_int f0 (get_cell t src0 r)"
    by (simp add: derived_def list_all_iff)
  from assms(2) r have d: "get_cell t dst r = g (get_cell t src r)"
    by (simp add: derived_def list_all_iff)
  show "case get_cell t src r of
          IntV n \<Rightarrow> get_cell t dst r = Str (f n)
        | Missing \<Rightarrow> get_cell t dst r = Str nan
        | _ \<Rightarrow> False"
    unfolding d s using assms(3,4) by (cases "get_cell t src0 r") simp_all
qed

text \<open>
  C3. \<^verbatim>\<open>categorize_time\<close> and \<^verbatim>\<open>get_season\<close> have exactly the buckets of the
  specification, half-open and left-inclusive: hours 6 to 11 Morning, 12 to 17 Afternoon,
  18 to 23 Evening, 0 to 5 Night; months 12, 1, 2 Winter, 3 to 5 Spring, 6 to 8 Summer,
  9 to 11 Fall. In the frame that \<^verbatim>\<open>engineer_features\<close> stores, the hour and month
  columns hold integers or missing values only, every row's \<open>time_of_day\<close> is
  \<^verbatim>\<open>categorize_time\<close> of the row's hour and every row's \<open>season\<close> is
  \<^verbatim>\<open>get_season\<close> of the row's month (Night and Fall where the date, and so the
  hour and the month, is missing), and neither derived column has a missing value.
\<close>

theorem time_of_day_and_season:
  "(\<forall>h \<in> {6..<12}. categorize_time h = ''Morning'')
   \<and> (\<forall>h \<in> {12..<18}. categorize_time h = ''Afternoon'')
   \<and> (\<forall>h \<in> {18..<24}. categorize_time h = ''Evening'')
   \<and> (\<forall>h \<in> {0..<6}. categorize_time h = ''Night'')
   \<and> (\<forall>m \<in> {12, 1, 2}. get_season m = ''Winter'')
   \<and> (\<forall>m \<in> {3, 4, 5}. get_season m = ''Spring'')
   \<and> (\<forall>m \<in> {6, 7, 8}. get_season m = ''Summer'')
   \<and> (\<forall>m \<in> {9, 10, 11}. get_season m = ''Fall'')
   \<and> categorize_time 6 = ''Morning'' \<and> categorize_time 5 = ''Night''
   \<and> categorize_time 18 = ''Evening'' \<and> categorize_time 0 = ''Night''
   \<and> (wf_analyzer s \<and> engineer_features s = (Inr d, s') \<longrightarrow>
        derived (frames s' ! d) ''hour'' ''time_of_day'' apply_categorize_time
      \<and> derived (frames s' ! d) ''month'' ''season'' apply_get_season
      \<and> no_missing (frames s' ! d) ''time_of_day''
      \<and> no_missing (frames s' ! d) ''season''
      \<and> bucketed (frames s' ! d) ''hour'' ''time_of_day'' categorize_time ''Night''
      \<and> bucketed (frames s' ! d) ''month'' ''season'' get_season ''Fall'')"
proof -
  have buckets: "(\<forall>h \<in> {6..<12}. categorize_time h = ''Morning'')
   \<and> (\<forall>h \<in> {12..<18}. categorize_time h = ''Afternoon'')
   \<and> (\<forall>h \<in> {18..<24}. categorize_time h = ''Evening'')
   \<and> (\<forall>h \<in> {0..<6}. categorize_time h = ''Night'')"
    by auto
  have seasons: "(\<forall>m \<in> {12, 1, 2}. get_season m = ''Winter'')
   \<and> (\<forall>m \<in> {3, 4, 5}. get_season m = ''Spring'')
   \<and> (\<forall>m \<in> {6, 7, 8}. get_season m = ''Summer'')
   \<and> (\<forall>m \<in> {9, 10, 11}. get_season m = ''Fall'')"
    by simp
  have points: "categorize_time 6 = ''Morning'' \<and> categorize_time 5 = ''Night''
   \<and> categorize_time 18 = ''Evening'' \<and> categorize_time 0 = ''Night''"
    by simp
  have frame: "derived (frames s' ! d) ''hour'' ''time_of_day'' apply_categorize_time
      \<and> derived (frames s' ! d) ''month'' ''season'' apply_get_season
      \<and> no_missing (frames s' ! d) ''time_of_day''
      \<and> no_missing (frames s' ! d) ''season''
      \<and> bucketed (frames s' ! d) ''hour'' ''time_of_day'' categorize_time ''Night''
      \<and> bucketed (frames s' ! d) ''month'' ''season'' get_season ''Fall''"
    if wf: "wf_analyzer s" and run: "engineer_features s = (Inr d, s')"
  proof -
    from engineer_features_Inr[OF run] obtain c where c: "clean_df s = Some c"
      and d: "d = length (frames s)"
      and s': "s' = s\<lparr>frames := frames s @
                 [severity_feature (category_features (temporal_features (frames s ! c)))],
              clean_df := Some d\<rparr>"
      by blast
    let ?t = "temporal_features (frames s ! c)"
    have wt: "wf_table ?t" using wf_analyzer_frame[OF wf c] by (rule wf_temporal)
    have T: "frames s' ! d = severity_feature (category_features ?t)"
      using s' d by simp
    have 1: "derived (frames s' ! d) ''hour'' ''time_of_day'' apply_categorize_time"
      unfolding T using wt by (intro derived_severity_pres wf_category derived_category) simp_all
    have 2: "derived (frames s' ! d) ''month'' ''season'' apply_get_season"
      unfolding T using wt by (intro derived_severity_pres wf_category derived_category) simp_all
    have 3: "derived (frames s' ! d) ''date'' ''hour'' (dt_int hour_of)"
      unfolding T using wt wf_analyzer_frame[OF wf c]
      by (intro derived_severity_pres wf_category derived_category_pres derived_temporal) simp_all
    have 4: "derived (frames s' ! d) ''date'' ''month'' (dt_int month_of)"
      unfolding T using wt wf_analyzer_frame[OF wf c]
      by (intro derived_severity_pres wf_category derived_category_pres derived_temporal) simp_all
    have 5: "bucketed (frames s' ! d) ''hour'' ''time_of_day'' categorize_time ''Night''"
      by (rule bucketed_derived[OF 3 1]) simp_all
    have 6: "bucketed (frames s' ! d) ''month'' ''season'' get_season ''Fall''"
      by (rule bucketed_derived[OF 4 2]) simp_all
    from 1 2 5 6 derived_no_missing[OF 1 apply_categorize_time_not_null]
      derived_no_missing[OF 2 apply_get_season_not_null]
    show ?thesis by simp
  qed
  from buckets seasons points frame show ?thesis by blast
qed

lemma wf_ex_seasons_state: "wf_analyzer ex_seasons_state"
  by code_simp

lemma engineer_ex_seasons: "fst (engineer_features ex_seasons_state) = Inr 1"
  by code_simp

lemma ex_seasons_columns:
  "column_values (frames (snd (engineer_features ex_seasons_state)) ! 1) ''hour''
     = [IntV 3, IntV 7, IntV 13, IntV 19, Missing]"
  "column_values (frames (snd (engineer_features ex_seasons_state)) ! 1) ''time_of_day''
     = [Str ''Night'', Str ''Morning'', Str ''Afternoon'', Str ''Evening'', Str ''Night'']"
  "column_values (frames (snd (engineer_features ex_seasons_state)) ! 1) ''month''
     = [IntV 1, IntV 4, IntV 7, IntV 10, Missing]"
  "column_values (frames (snd (engineer_features ex_seasons_state)) ! 1) ''season''
     = [Str ''Winter'', Str ''Spring'', Str ''Summer'', Str ''Fall'', Str ''Fall'']"
  by code_simp+

theorem time_of_day_and_season_witness:
  "(7::int) \<in> {6..<12} \<and> categorize_time 7 = ''Morning''
   \<and> (13::int) \<in> {12..<18} \<and> categorize_time 13 = ''Afternoon''
   \<and> (19::int) \<in> {18..<24} \<and> categorize_time 19 = ''Evening''
   \<and> (3::int) \<in> {0..<6} \<and> categorize_time 3 = ''Night''
   \<and> get_season 12 = ''Winter'' \<and> get_season 4 = ''Spring''
   \<and> get_season 7 = ''Summer'' \<and> get_season 10 = ''Fall''
   \<and> wf_analyzer ex_seasons_state
   \<and> fst (engineer_features ex_seasons_state) = Inr 1
   \<and> column_values (frames (snd (engineer_features ex_seasons_state)) ! 1) ''hour''
       = [IntV 3, IntV 7, IntV 13, IntV 19, Missing]
   \<and> column_values (frames (snd (engineer_features ex_seasons_state)) ! 1) ''time_of_day''
       = [Str ''Night'', Str ''Morning'', Str ''Afternoon'', Str ''Evening'', Str ''Night'']
   \<and> column_values (frames (snd (engineer_features ex_seasons_state)) ! 1) ''month''
       = [IntV 1, IntV 4, IntV 7, IntV 10, Missing]
   \<and> column_values (frames (snd (engineer_features ex_seasons_state)) ! 1) ''season''
       = [Str ''Winter'', Str ''Spring'', Str ''Summer'', Str ''Fall'', Str ''Fall'']
   \<and> derived (frames (snd (engineer_features ex_seasons_state)) ! 1) ''hour'' ''time_of_day''
        apply_categorize_time
   \<and> derived (frames (snd (engineer_features ex_seasons_state)) ! 1) ''month'' ''season''
        apply_get_season
   \<and> no_missing (frames (snd (engineer_features ex_seasons_state)) ! 1) ''time_of_day''
   \<and> no_missing (frames (snd (engineer_features ex_seasons_state)) ! 1) ''season''
   \<and> bucketed (frames (snd (engineer_features ex_seasons_state)) ! 1) ''hour'' ''time_of_day''
        categorize_time ''Night''
   \<and> bucketed (frames (snd (engineer_features ex_seasons_state)) ! 1) ''month'' ''season''
        get_season ''Fall''"
proof -
  note T = time_of_day_and_season[of ex_seasons_state 1 "snd (engineer_features ex_seasons_state)"]
  have run: "engineer_features ex_seasons_state = (Inr 1, snd (engineer_features ex_seasons_state))"
    using engineer_ex_seasons by (metis prod.collapse)
  have frame: "derived (frames (snd (engineer_features ex_seasons_state)) ! 1) ''hour'' ''time_of_day''
        apply_categorize_time
   \<and> derived (frames (snd (engineer_features ex_seasons_state)) ! 1) ''month'' ''season''
        apply_get_season
   \<and> no_missing (frames (snd (engineer_features ex_seasons_state)) ! 1) ''time_of_day''
   \<and> no_missing (frames (snd (engineer_features ex_seasons_state)) ! 1) ''season''
   \<and> bucketed (frames (snd (engineer_features ex_seasons_state)) ! 1) ''hour'' ''time_of_day''
        categorize_time ''Night''
   \<and> bucketed (frames (snd (engineer_features ex_seasons_state)) ! 1) ''month'' ''season''
        get_season ''Fall''"
    using T wf_ex_seasons_state run by blast
  have "categorize_time 7 = ''Morning''" "categorize_time 13 = ''Afternoon''"
    "categorize_time 19 = ''Evening''" "categorize_time 3 = ''Night''"
    "get_season 12 = ''Winter''" "get_season 4 = ''Spring''"
    "get_season 7 = ''Summer''" "get_season 10 = ''Fall''"
    using T by simp_all
  with frame wf_ex_seasons_state engineer_ex_seasons ex_seasons_columns show ?thesis by simp
qed

lemma column_values_assign_from:
  assumes "wf_table t" "c' \<noteq> dst"
  shows "column_values (assign_from dst d src g t) c' = column_values t c'"
  using assms
  by (auto simp: column_values_def assign_from_def rows_assign wf_table_def list_all_iff
      get_cell_assign_other)

lemma has_column_temporal:
  "has_column (temporal_features t) c \<longleftrightarrow>
     c \<in> {''year'', ''month'', ''month_name'', ''day'', ''day_of_week'', ''day_name'', ''hour'',
           ''is_weekend''} \<or> has_column t c"
  by (auto simp: temporal_features_def Let_def has_column_assign_from)

lemma has_column_category:
  "has_column (category_features t) c \<longleftrightarrow> c \<in> {''time_of_day'', ''season''} \<or> has_column t c"
  by (auto simp: category_features_def Let_def has_column_assign_from)

lemma column_values_temporal:
  assumes "wf_table t" "c \<notin> {''year'', ''month'', ''month_name'', ''day'', ''day_of_week'', ''day_name'', ''hour'',
           ''is_weekend''}"
  shows "column_values (temporal_features t) c = column_values t c"
  using assms
  by (simp add: temporal_features_def Let_def column_values_assign_from wf_assign_from)

lemma column_values_category:
  assumes "wf_table t" "c \<notin> {''time_of_day'', ''season''}"
  shows "column_values (category_features t) c = column_values t c"
  using assms
  by (simp add: category_features_def Let_def column_values_assign_from wf_assign_from)

lemma column_values_severity:
  assumes "wf_table t" "c \<noteq> ''is_violent''"
  shows "column_values (severity_feature t) c = column_values t c"
  using assms
  by (simp add: severity_feature_def column_values_assign_from)

lemma length_rows_temporal: "length (rows (temporal_features t)) = length (rows t)"
  by (simp add: temporal_features_def Let_def length_rows_assign_from)

lemma length_rows_category: "length (rows (category_features t)) = length (rows t)"
  by (simp add: category_features_def Let_def length_rows_assign_from)

lemma length_rows_severity: "length (rows (severity_feature t)) = length (rows t)"
  by (simp add: severity_feature_def length_rows_assign_from)

lemma wf_severity: "wf_table t \<Longrightarrow> wf_table (severity_feature t)"
  by (simp add: severity_feature_def wf_assign_from)

lemma derived_severity:
  assumes "wf_table t" "has_column t ''primary_type''"
  shows "derived (severity_feature t) ''primary_type'' ''is_violent'' (isin_str violent_crimes)"
  using assms by (simp add: severity_feature_def derived_assign_from)

text \<open>
  C4. A value is flagged violent exactly when it is one of the six upper-cased category
  strings (so BATTERY is, THEFT is not). In the frame that \<^verbatim>\<open>engineer_features\<close>
  stores, every row's \<^verbatim>\<open>is_violent\<close> is that test of the row's category, which is
  the category of the cleaned frame; when the cleaned frame has no category column (and no
  column of the name \<^verbatim>\<open>is_violent\<close> of its own), the stored frame has no
  \<^verbatim>\<open>is_violent\<close> column.
\<close>

theorem is_violent_flag:
  "(\<forall>v. isin_str violent_crimes v =
        BoolV (v \<in> Str ` {''HOMICIDE'', ''ASSAULT'', ''BATTERY'', ''ROBBERY'',
                           ''CRIMINAL SEXUAL ASSAULT'', ''KIDNAPPING''}))
   \<and> isin_str violent_crimes (Str ''BATTERY'') = BoolV True
   \<and> isin_str violent_crimes (Str ''THEFT'') = BoolV False
   \<and> (wf_analyzer s \<and> clean_df s = Some c \<and> engineer_features s = (Inr d, s') \<longrightarrow>
        (has_column (frames s ! c) ''primary_type'' \<longrightarrow>
           has_column (frames s' ! d) ''is_violent''
           \<and> derived (frames s' ! d) ''primary_type'' ''is_violent'' (isin_str violent_crimes)
           \<and> column_values (frames s' ! d) ''primary_type'' = column_values (frames s ! c) ''primary_type'')
      \<and> (\<not> has_column (frames s ! c) ''primary_type'' \<and> \<not> has_column (frames s ! c) ''is_violent''
           \<longrightarrow> \<not> has_column (frames s' ! d) ''is_violent''))"
proof -
  have set: "\<forall>v. isin_str violent_crimes v =
        BoolV (v \<in> Str ` {''HOMICIDE'', ''ASSAULT'', ''BATTERY'', ''ROBBERY'',
                           ''CRIMINAL SEXUAL ASSAULT'', ''KIDNAPPING''})"
  proof
    fix v show "isin_str violent_crimes v =
        BoolV (v \<in> Str ` {''HOMICIDE'', ''ASSAULT'', ''BATTERY'', ''ROBBERY'',
                           ''CRIMINAL SEXUAL ASSAULT'', ''KIDNAPPING''})"
      by (cases v) (auto simp: violent_crimes_def)
  qed
  have ex: "isin_str violent_crimes (Str ''BATTERY'') = BoolV True"
    "isin_str violent_crimes (Str ''THEFT'') = BoolV False"
    by (simp_all add: violent_crimes_def)
  have frame: "(has_column (frames s ! c) ''primary_type'' \<longrightarrow>
           has_column (frames s' ! d) ''is_violent''
           \<and> derived (frames s' ! d) ''primary_type'' ''is_violent'' (isin_str violent_crimes)
           \<and> column_values (frames s' ! d) ''primary_type'' = column_values (frames s ! c) ''primary_type'')
      \<and> (\<not> has_column (frames s ! c) ''primary_type'' \<and> \<not> has_column (frames s ! c) ''is_violent''
           \<longrightarrow> \<not> has_column (frames s' ! d) ''is_violent'')"
    if wf: "wf_analyzer s" and c: "clean_df s = Some c" and run: "engineer_features s = (Inr d, s')"
  proof -
    from engineer_features_Inr[OF run] c have d: "d = length (frames s)"
      and s': "s' = s\<lparr>frames := frames s @
                 [severity_feature (category_features (temporal_features (frames s ! c)))],
              clean_df := Some d\<rparr>"
      by auto
    let ?t = "frames s ! c"
    let ?u = "category_features (temporal_features ?t)"
    have wt: "wf_table ?t" by (rule wf_analyzer_frame[OF wf c])
    have wu: "wf_table ?u" by (intro wf_category wf_temporal wt)
    have T: "frames s' ! d = severity_feature ?u"
      using s' d by simp
    have pu: "has_column ?u ''primary_type'' = has_column ?t ''primary_type''"
      by (simp add: has_column_category has_column_temporal)
    have vu: "has_column ?u ''is_violent'' = has_column ?t ''is_violent''"
      by (simp add: has_column_category has_column_temporal)
    have cu: "column_values (severity_feature ?u) ''primary_type'' = column_values ?t ''primary_type''"
      using wt by (simp add: column_values_severity column_values_category column_values_temporal
          wf_category wf_temporal)
    show ?thesis
      unfolding T using pu vu cu derived_severity[OF wu]
      by (auto simp: severity_feature_def has_column_assign_from)
  qed
  from set ex frame show ?thesis by blast
qed


lemma wf_ex_dates_state: "wf_analyzer ex_dates_state"
  by code_simp

lemma engineer_ex_dates: "fst (engineer_features ex_dates_state) = Inr 1"
  by code_simp

lemma ex_dates_no_violent:
  "\<not> has_column (frames (snd (engineer_features ex_dates_state)) ! 1) ''is_violent''"
  by code_simp

theorem is_violent_flag_witness:
  "wf_analyzer ex_cleaned \<and> clean_df ex_cleaned = Some 1
   \<and> engineer_features ex_cleaned = (Inr 2, ex_engineered)
   \<and> has_column (frames ex_cleaned ! 1) ''primary_type''
   \<and> has_column (frames ex_engineered ! 2) ''is_violent''
   \<and> derived (frames ex_engineered ! 2) ''primary_type'' ''is_violent'' (isin_str violent_crimes)
   \<and> column_values (frames ex_engineered ! 2) ''is_violent'' = [BoolV True, BoolV False]
   \<and> wf_analyzer ex_dates_state \<and> clean_df ex_dates_state = Some 0
   \<and> fst (engineer_features ex_dates_state) = Inr 1
   \<and> \<not> has_column (frames ex_dates_state ! 0) ''primary_type''
   \<and> \<not> has_column (frames ex_dates_state ! 0) ''is_violent''
   \<and> \<not> has_column (frames (snd (engineer_features ex_dates_state)) ! 1) ''is_violent''"
proof -
  have c1: "clean_df ex_cleaned = Some 1" by (simp add: ex_cleaned_def)
  have p1: "has_column (frames ex_cleaned ! 1) ''primary_type''" by code_simp
  have v1: "column_values (frames ex_engineered ! 2) ''is_violent'' = [BoolV True, BoolV False]"
    by code_simp
  from is_violent_flag[of ex_cleaned 1 2 ex_engineered] wf_ex_cleaned c1 engineer_ex_cleaned p1
  have A: "has_column (frames ex_engineered ! 2) ''is_violent''
     \<and> derived (frames ex_engineered ! 2) ''primary_type'' ''is_violent'' (isin_str violent_crimes)"
    by blast
  have c2: "clean_df ex_dates_state = Some 0" by (simp add: ex_dates_state_def)
  have p2: "\<not> has_column (frames ex_dates_state ! 0) ''primary_type''"
    "\<not> has_column (frames ex_dates_state ! 0) ''is_violent''" by code_simp+
  have run2: "engineer_features ex_dates_state = (Inr 1, snd (engineer_features ex_dates_state))"
    using engineer_ex_dates by (metis prod.collapse)
  from is_violent_flag[of ex_dates_state 0 1 "snd (engineer_features ex_dates_state)"]
    wf_ex_dates_state c2 run2 p2
  have B: "\<not> has_column (frames (snd (engineer_features ex_dates_state)) ! 1) ''is_violent''"
    by blast
  from A B c1 p1 v1 c2 p2 wf_ex_cleaned wf_ex_dates_state engineer_ex_cleaned engineer_ex_dates
  show ?thesis by simp
qed

subsection \<open>Cleaning\<close>

lemma inplace_append3:
  "inplace (Suc (Suc (length h))) f (h @ [a, b, c]) = h @ [a, b, f c]"
  by (simp add: inplace_def list_update_append nth_append)

lemma standardize_text_append3:
  "standardize_text cols (Suc (Suc (length h))) (h @ [a, b, c])
     = (fst (standardize_cols cols c), h @ [a, b, snd (standardize_cols cols c)])"
  by (induction cols arbitrary: c) (simp_all add: inplace_append3 nth_append)

lemma nth_append3: "(h @ [a, b, c]) ! Suc (Suc (length h)) = c"
  by (simp add: nth_append)

lemma has_column_drop_duplicates: "has_column (drop_duplicates t) c = has_column t c"
  by (simp add: drop_duplicates_def has_column_def col_names_def)

lemma clean_data_Inr:
  assumes "clean_data s = (Inr (d, lg), s')"
  shows "\<exists>a. df s = Some a \<and> d = Suc (Suc (length (frames s)))
     \<and> list_all (has_column (frames s ! a)) critical_fields
     \<and> lg = \<lparr>duplicates_removed = length (rows (frames s ! a))
                  - length (rows (drop_duplicates (frames s ! a))),
               missing_critical = length (filter (any_null (drop_duplicates (frames s ! a)) critical_fields)
                  (rows (drop_duplicates (frames s ! a))))\<rparr>
     \<and> clean_error (frames s ! a) = None
     \<and> s' = s\<lparr>frames := frames s @ [frames s ! a, drop_duplicates (frames s ! a),
                                      clean_frame (frames s ! a)],
              clean_df := Some d\<rparr>"
proof -
  from assms obtain a where a: "df s = Some a"
    by (auto simp: clean_data_def split: option.splits)
  let ?h = "frames s" let ?t = "frames s ! a"
  have nth1: "\<And>x y. (?h @ [x, y]) ! Suc (length ?h) = y" by (simp add: nth_append)
  have crit: "filter (\<lambda>c. \<not> has_column ?t c) critical_fields = []"
    using assms a
    by (auto simp: clean_data_def alloc_def Let_def nth1 has_column_drop_duplicates split: list.splits)
  then have all: "list_all (has_column ?t) critical_fields"
    by (auto simp: list_all_iff filter_empty_conv)
  show ?thesis
    using assms a crit all
    by (auto simp: clean_data_def alloc_def Let_def nth1 has_column_drop_duplicates
        inplace_append3 standardize_text_append3 nth_append3 clean_frame_def clean_error_def
        before_text_def text_step_def split: option.splits)
qed

lemma length_keep_first: "length (keep_first seen xs) \<le> length xs"
  by (induction xs arbitrary: seen) (auto intro: le_SucI)

lemma length_rows_fill_step: "length (rows (fill_step c t)) = length (rows t)"
  by (simp add: fill_step_def fillna_column_def length_rows_assign_from)

lemma length_rows_bool_step: "length (rows (bool_step c t)) = length (rows t)"
  by (simp add: bool_step_def to_bool_column_def length_rows_assign_from)

lemma length_rows_standardize_cols:
  "length (rows (snd (standardize_cols cols t))) = length (rows t)"
  by (induction cols arbitrary: t) (simp_all add: str_normalize_column_def length_rows_assign_from)

lemma length_rows_text_step: "length (rows (snd (text_step t))) = length (rows t)"
  by (simp add: text_step_def length_rows_standardize_cols)

lemma length_rows_clean_frame: "length (rows (clean_frame t)) \<le> length (rows t)"
proof -
  have "length (rows (clean_frame t)) = length (rows (dropna critical_fields (drop_duplicates t)))"
    by (simp add: clean_frame_def before_text_def length_rows_text_step length_rows_bool_step
        length_rows_fill_step)
  also have "\<dots> \<le> length (rows (drop_duplicates t))"
    by (simp add: dropna_def)
  also have "\<dots> \<le> length (rows t)"
    by (simp add: drop_duplicates_def length_keep_first)
  finally show ?thesis .
qed

lemma feature_names_split:
  "c \<notin> set feature_names \<longleftrightarrow>
     c \<notin> {''year'', ''month'', ''month_name'', ''day'', ''day_of_week'', ''day_name'', ''hour'',
           ''is_weekend''} \<and> c \<notin> {''time_of_day'', ''season''} \<and> c \<noteq> ''is_violent''"
  by (simp add: feature_names_def)

text \<open>
  C6. The frame that \<^verbatim>\<open>clean_data\<close> stores has at most as many rows as the raw
  frame. The frame that \<^verbatim>\<open>engineer_features\<close> stores has exactly as many rows as
  the cleaned frame, keeps every column of it, and has in every column that is not one of
  the derived ones the same values in the same row order: no row is dropped or moved.
\<close>

theorem row_counts:
  "(df s = Some a \<and> clean_data s = (Inr (d, lg), s') \<longrightarrow>
      length (rows (frames s' ! d)) \<le> length (rows (frames s ! a)))
   \<and> (wf_analyzer u \<and> clean_df u = Some c \<and> engineer_features u = (Inr e, u') \<longrightarrow>
        length (rows (frames u' ! e)) = length (rows (frames u ! c))
      \<and> (\<forall>col. has_column (frames u ! c) col \<longrightarrow> has_column (frames u' ! e) col)
      \<and> (\<forall>col. col \<notin> set feature_names \<longrightarrow>
            column_values (frames u' ! e) col = column_values (frames u ! c) col))"
proof -
  have clean: "length (rows (frames s' ! d)) \<le> length (rows (frames s ! a))"
    if a: "df s = Some a" and run: "clean_data s = (Inr (d, lg), s')"
  proof -
    from clean_data_Inr[OF run] a have "frames s' ! d = clean_frame (frames s ! a)"
      by (auto simp: nth_append)
    then show ?thesis by (simp add: length_rows_clean_frame)
  qed
  have eng: "length (rows (frames u' ! e)) = length (rows (frames u ! c))
      \<and> (\<forall>col. has_column (frames u ! c) col \<longrightarrow> has_column (frames u' ! e) col)
      \<and> (\<forall>col. col \<notin> set feature_names \<longrightarrow>
            column_values (frames u' ! e) col = column_values (frames u ! c) col)"
    if wf: "wf_analyzer u" and c: "clean_df u = Some c" and run: "engineer_features u = (Inr e, u')"
  proof -
    from engineer_features_Inr[OF run] c
    have T: "frames u' ! e = severity_feature (category_features (temporal_features (frames u ! c)))"
      by auto
    have wt: "wf_table (frames u ! c)" by (rule wf_analyzer_frame[OF wf c])
    have 1: "length (rows (frames u' ! e)) = length (rows (frames u ! c))"
      by (simp add: T length_rows_severity length_rows_category length_rows_temporal)
    have 2: "has_column (frames u' ! e) col" if "has_column (frames u ! c) col" for col
      using that
      by (simp add: T severity_feature_def has_column_assign_from has_column_category has_column_temporal)
    have 3: "column_values (frames u' ! e) col = column_values (frames u ! c) col"
      if "col \<notin> set feature_names" for col
      using that wt unfolding feature_names_split
      by (simp add: T column_values_severity column_values_category column_values_temporal
          wf_category wf_temporal)
    from 1 2 3 show ?thesis by blast
  qed
  from clean eng show ?thesis by blast
qed

lemma clean_ex_loaded:
  "fst (clean_data ex_loaded) = Inr (3, \<lparr>duplicates_removed = 1, missing_critical = 1\<rparr>)"
  by code_simp

lemma clean_ex_loaded_frame: "frames (snd (clean_data ex_loaded)) ! 3 = ex_clean"
  by code_simp

theorem row_counts_witness:
  "df ex_loaded = Some 0
   \<and> fst (clean_data ex_loaded) = Inr (3, \<lparr>duplicates_removed = 1, missing_critical = 1\<rparr>)
   \<and> length (rows (frames (snd (clean_data ex_loaded)) ! 3)) \<le> length (rows (frames ex_loaded ! 0))
   \<and> length (rows (frames (snd (clean_data ex_loaded)) ! 3)) = 2
   \<and> wf_analyzer ex_cleaned \<and> clean_df ex_cleaned = Some 1
   \<and> engineer_features ex_cleaned = (Inr 2, ex_engineered)
   \<and> length (rows (frames ex_engineered ! 2)) = length (rows (frames ex_cleaned ! 1))
   \<and> has_column (frames ex_cleaned ! 1) ''latitude'' \<and> has_column (frames ex_engineered ! 2) ''latitude''
   \<and> ''latitude'' \<notin> set feature_names
   \<and> column_values (frames ex_engineered ! 2) ''latitude'' = column_values (frames ex_cleaned ! 1) ''latitude''"
proof -
  have a: "df ex_loaded = Some 0" by (simp add: ex_loaded_def)
  have run: "clean_data ex_loaded =
      (Inr (3, \<lparr>duplicates_removed = 1, missing_critical = 1\<rparr>), snd (clean_data ex_loaded))"
    using clean_ex_loaded by (metis prod.collapse)
  have c: "clean_df ex_cleaned = Some 1" by (simp add: ex_cleaned_def)
  have l: "has_column (frames ex_cleaned ! 1) ''latitude''" by code_simp
  have f: "''latitude'' \<notin> set feature_names" by (simp add: feature_names_def)
  have n: "length (rows (frames (snd (clean_data ex_loaded)) ! 3)) = 2"
    by (simp add: clean_ex_loaded_frame ex_clean_def)
  note T = row_counts[of ex_loaded 0 3 "\<lparr>duplicates_removed = 1, missing_critical = 1\<rparr>"
      "snd (clean_data ex_loaded)" ex_cleaned 1 2 ex_engineered]
  from T a run have A: "length (rows (frames (snd (clean_data ex_loaded)) ! 3))
      \<le> length (rows (frames ex_loaded ! 0))" by blast
  from T wf_ex_cleaned c engineer_ex_cleaned
  have B: "length (rows (frames ex_engineered ! 2)) = length (rows (frames ex_cleaned ! 1))
      \<and> (\<forall>col. has_column (frames ex_cleaned ! 1) col \<longrightarrow> has_column (frames ex_engineered ! 2) col)
      \<and> (\<forall>col. col \<notin> set feature_names \<longrightarrow>
            column_values (frames ex_engineered ! 2) col = column_values (frames ex_cleaned ! 1) col)"
    by blast
  from B l have C: "has_column (frames ex_engineered ! 2) ''latitude''" by blast
  from B f have D: "column_values (frames ex_engineered ! 2) ''latitude''
      = column_values (frames ex_cleaned ! 1) ''latitude''" by blast
  from a clean_ex_loaded A n wf_ex_cleaned c engineer_ex_cleaned B l C f D show ?thesis by simp
qed

subsection \<open>Effects on the state\<close>

lemma analyze_trends_state: "snd (analyze_trends s) = s"
  by (simp add: analyze_trends_def Let_def split: option.splits sum.splits)

lemma analyze_crime_types_state: "snd (analyze_crime_types s) = s"
  by (simp add: analyze_crime_types_def Let_def split: option.splits)

lemma analyze_geographic_state: "snd (analyze_geographic s) = s"
  by (simp add: analyze_geographic_def Let_def split: option.splits)

lemma calculate_kpis_state: "snd (calculate_kpis s) = s"
  by (simp add: calculate_kpis_def Let_def split: option.splits)

lemma explore_data_state: "snd (explore_data s) = s"
  by (simp add: explore_data_def Let_def split: option.splits)

lemma clean_data_frames:
  "\<exists>ys. frames (snd (clean_data s)) = frames s @ ys"
proof (cases "clean_data s")
  case (Pair r s')
  show ?thesis
  proof (cases r)
    case (Inl e)
    have nth1: "\<And>x y. (frames s @ [x, y]) ! Suc (length (frames s)) = y"
      by (simp add: nth_append)
    from Inl Pair show ?thesis
      by (auto simp: clean_data_def alloc_def Let_def nth1 inplace_append3
          standardize_text_append3 nth_append3 split: option.splits list.splits)
  next
    case (Inr x)
    with Pair clean_data_Inr[of s "fst x" "snd x" s'] show ?thesis by auto
  qed
qed

lemma clean_data_attrs: "df (snd (clean_data s)) = df s \<and> data_path (snd (clean_data s)) = data_path s"
proof -
  have nth1: "\<And>x y. (frames s @ [x, y]) ! Suc (length (frames s)) = y"
    by (simp add: nth_append)
  show ?thesis
    by (auto simp: clean_data_def alloc_def Let_def nth1 inplace_append3
        standardize_text_append3 nth_append3 split: option.splits list.splits)
qed

lemma engineer_features_frames:
  "\<exists>ys. frames (snd (engineer_features s)) = frames s @ ys"
proof (cases "engineer_features s")
  case (Pair r s')
  show ?thesis
  proof (cases r)
    case (Inl e)
    with Pair show ?thesis
      by (auto simp: engineer_features_def alloc_def Let_def split: option.splits if_splits)
  next
    case (Inr x)
    with Pair engineer_features_Inr[of s x s'] show ?thesis by auto
  qed
qed

lemma engineer_features_attrs:
  "df (snd (engineer_features s)) = df s \<and> data_path (snd (engineer_features s)) = data_path s"
  by (auto simp: engineer_features_def alloc_def Let_def split: option.splits)

lemma raw_frame_append:
  assumes "wf_analyzer s" "frames s' = frames s @ ys" "df s' = df s"
  shows "raw_frame s' = raw_frame s"
  using assms by (auto simp: raw_frame_def wf_analyzer_def valid_ref_def nth_append split: option.splits)

lemma current_frame_append:
  assumes "wf_analyzer s" "frames s' = frames s @ ys" "clean_df s' = clean_df s"
  shows "current_frame s' = current_frame s"
  using assms by (auto simp: current_frame_def wf_analyzer_def valid_ref_def nth_append split: option.splits)

text \<open>
  C9. The raw frame is never changed after loading. \<^verbatim>\<open>clean_data\<close> and
  \<^verbatim>\<open>engineer_features\<close>, whether they succeed or raise, leave every frame object
  that existed before as it was (they only add new objects to the store) and leave the
  reference \<^verbatim>\<open>df\<close> as it was, so the raw frame is the same afterwards. The
  exploration step and the four analyzers (trends, crime types, geographic, KPIs) return the
  state they were given: neither the raw nor the current frame changes.
\<close>

theorem raw_table_never_mutated:
  "take (length (frames s)) (frames (snd (clean_data s))) = frames s
   \<and> df (snd (clean_data s)) = df s
   \<and> take (length (frames s)) (frames (snd (engineer_features s))) = frames s
   \<and> df (snd (engineer_features s)) = df s
   \<and> (wf_analyzer s \<longrightarrow> raw_frame (snd (clean_data s)) = raw_frame s
                          \<and> raw_frame (snd (engineer_features s)) = raw_frame s)
   \<and> snd (explore_data s) = s
   \<and> snd (analyze_trends s) = s
   \<and> snd (analyze_crime_types s) = s
   \<and> snd (analyze_geographic s) = s
   \<and> snd (calculate_kpis s) = s"
proof -
  obtain ys where ys: "frames (snd (clean_data s)) = frames s @ ys"
    using clean_data_frames by blast
  obtain zs where zs: "frames (snd (engineer_features s)) = frames s @ zs"
    using engineer_features_frames by blast
  have 1: "take (length (frames s)) (frames (snd (clean_data s))) = frames s" using ys by simp
  have 2: "take (length (frames s)) (frames (snd (engineer_features s))) = frames s" using zs by simp
  have 3: "raw_frame (snd (clean_data s)) = raw_frame s" if "wf_analyzer s"
    using raw_frame_append[OF that ys] clean_data_attrs by simp
  have 4: "raw_frame (snd (engineer_features s)) = raw_frame s" if "wf_analyzer s"
    using raw_frame_append[OF that zs] engineer_features_attrs by simp
  from 1 2 3 4 show ?thesis
    by (simp add: clean_data_attrs engineer_features_attrs explore_data_state analyze_trends_state
        analyze_crime_types_state analyze_geographic_state calculate_kpis_state)
qed

lemma wf_ex_loaded: "wf_analyzer ex_loaded"
  by code_simp

theorem raw_table_never_mutated_witness:
  "wf_analyzer ex_loaded \<and> raw_frame ex_loaded = Some ex_raw
   \<and> raw_frame (snd (clean_data ex_loaded)) = Some ex_raw
   \<and> raw_frame (snd (engineer_features ex_loaded)) = Some ex_raw"
proof -
  have r: "raw_frame ex_loaded = Some ex_raw" by (simp add: raw_frame_def ex_loaded_def)
  from raw_table_never_mutated[of ex_loaded] wf_ex_loaded r show ?thesis by simp
qed

text \<open>
  C10. Without a path argument and without a path given at construction,
  \<^verbatim>\<open>load_data\<close> raises \<open>ValueError\<close> whatever the reader would do (it is not
  consulted) and leaves the state as it was. That error is not \<open>FileNotFoundError\<close>;
  any other error of \<^verbatim>\<open>load_data\<close> is the reader's error for a path that was
  given, again with the state unchanged.
\<close>

theorem load_without_path:
  "(data_path s = None \<longrightarrow>
      (\<forall>read_csv. load_data read_csv None s = (Inl (ValueError ''Data path must be provided''), s)))
   \<and> ValueError ''Data path must be provided'' \<noteq> FileNotFoundError
   \<and> (load_data reader arg u = (Inl e, u') \<and> e \<noteq> ValueError ''Data path must be provided'' \<longrightarrow>
        u' = u \<and> (\<exists>p. py_or arg (data_path u) = Some p \<and> reader p = Inl e))"
  by (auto simp: load_data_def py_or_def alloc_def Let_def split: option.splits sum.splits if_splits)

theorem load_without_path_witness:
  "data_path (init None) = None
   \<and> load_data no_files None (init None) = (Inl (ValueError ''Data path must be provided''), init None)
   \<and> load_data no_files (Some ''crimes.csv'') (init None) = (Inl FileNotFoundError, init None)
   \<and> FileNotFoundError \<noteq> ValueError ''Data path must be provided''
   \<and> py_or (Some ''crimes.csv'') (data_path (init None)) = Some ''crimes.csv''
   \<and> no_files ''crimes.csv'' = Inl FileNotFoundError"
proof -
  have d: "data_path (init None) = None" by (simp add: init_def)
  have l: "load_data no_files (Some ''crimes.csv'') (init None) = (Inl FileNotFoundError, init None)"
    by (simp add: load_data_def py_or_def no_files_def)
  from load_without_path[of "init None" no_files "Some ''crimes.csv''" "init None" FileNotFoundError "init None"] d l
  show ?thesis by (simp add: py_or_def no_files_def)
qed

subsection \<open>Guards and failures of the analyzers\<close>

text \<open>
  C2 (as the code has it). When no cleaned frame is stored (\<^verbatim>\<open>clean_df\<close> is None),
  \<^verbatim>\<open>analyze_trends\<close> raises the \<open>ValueError\<close> of its guard, the invalid-state
  error; and in every state, whatever the outcome, it returns the state unchanged.
\<close>

theorem trends_invalid_state:
  "(clean_df s = None \<longrightarrow>
      analyze_trends s = (Inl (ValueError ''Data not prepared. Call clean_data() first.''), s))
   \<and> snd (analyze_trends s) = s"
  by (simp add: analyze_trends_state) (simp add: analyze_trends_def)

theorem trends_invalid_state_witness:
  "clean_df (init None) = None
   \<and> analyze_trends (init None) =
       (Inl (ValueError ''Data not prepared. Call clean_data() first.''), init None)"
  using trends_invalid_state[of "init None"] by (simp add: init_def)

text \<open>
  C2, the case the guard does not cover: after \<^verbatim>\<open>clean_data\<close> alone the guard
  passes, since \<^verbatim>\<open>clean_df\<close> is set, and \<^verbatim>\<open>groupby('year')\<close> raises
  \<open>KeyError\<close>, not the invalid-state error.
\<close>

lemma ex_loaded_cleaned_ref: "clean_df (snd (clean_data ex_loaded)) = Some 3"
  by code_simp

lemma trends_ex_loaded_cleaned:
  "fst (analyze_trends (snd (clean_data ex_loaded))) = Inl (KeyError ''year'')"
  by code_simp

theorem trends_before_features_counterexample:
  "fst (clean_data ex_loaded) = Inr (3, \<lparr>duplicates_removed = 1, missing_critical = 1\<rparr>)
   \<and> clean_df (snd (clean_data ex_loaded)) = Some 3
   \<and> fst (analyze_trends (snd (clean_data ex_loaded))) = Inl (KeyError ''year'')
   \<and> fst (analyze_trends (snd (clean_data ex_loaded)))
       \<noteq> Inl (ValueError ''Data not prepared. Call clean_data() first.'')"
  by (simp add: clean_ex_loaded ex_loaded_cleaned_ref trends_ex_loaded_cleaned)

lemma zero_span_raises:
  assumes "clean_df s = Some c" "has_column (frames s ! c) ''date''"
    "dtype_of (frames s ! c) ''date'' = Datetime64" "stamps (frames s ! c) \<noteq> []"
    "Max (set (stamps (frames s ! c))) = Min (set (stamps (frames s ! c)))"
  shows "calculate_kpis s = (Inl ZeroDivisionError, s)"
  using assms
  by (simp add: calculate_kpis_def Let_def date_range_days_def date_span_def timedelta_max_def)

text \<open>
  C1. A frame whose smallest and largest date coincide has a span of zero days. On the
  single-record frame, loaded, cleaned and enriched, \<^verbatim>\<open>calculate_kpis\<close> raises
  \<open>ZeroDivisionError\<close> at the last division: the method aborts and returns no KPI at
  all, neither a substituted average nor the other indicators.
\<close>

theorem kpis_zero_day_span:
  "fst (clean_data ex_single_loaded) = Inr (3, \<lparr>duplicates_removed = 0, missing_critical = 0\<rparr>)
   \<and> fst (engineer_features (snd (clean_data ex_single_loaded))) = Inr 4
   \<and> stamps (frames (snd (engineer_features (snd (clean_data ex_single_loaded)))) ! 4)
       = [1704094200000000000]
   \<and> fst (calculate_kpis (snd (engineer_features (snd (clean_data ex_single_loaded)))))
       = Inl ZeroDivisionError"
  by code_simp

subsection \<open>Trend analysis\<close>

lemma map_fst_groupby_size: "map fst (groupby_size ks) = sort (remdups ks)"
  by (simp add: groupby_size_def comp_def)

lemma groupby_size_keys:
  "sorted (map fst (groupby_size ks))" "distinct (map fst (groupby_size ks))"
  "set (map fst (groupby_size ks)) = set ks"
  by (simp_all add: map_fst_groupby_size)

lemma groupby_size_count: "(k, n) \<in> set (groupby_size ks) \<Longrightarrow> n = count_list ks k"
  by (auto simp: groupby_size_def)

lemma groupby_size_mem: "k \<in> set ks \<Longrightarrow> (k, count_list ks k) \<in> set (groupby_size ks)"
  by (auto simp: groupby_size_def)

lemma groupby_size_Nil: "groupby_size ks = [] \<longleftrightarrow> ks = []"
  by (metis groupby_size_keys(3) map_is_Nil_conv set_empty)

lemma count_int_keys: "count_list (int_keys vs) y = length (filter (\<lambda>v. v = IntV y) vs)"
proof (induction vs)
  case Nil
  show ?case by (simp add: int_keys_def List.map_filter_simps)
next
  case (Cons v vs)
  then show ?case by (cases v) (auto simp: int_keys_def List.map_filter_simps)
qed

lemma set_int_keys: "y \<in> set (int_keys vs) \<longleftrightarrow> IntV y \<in> set vs"
proof (induction vs)
  case Nil
  show ?case by (simp add: int_keys_def List.map_filter_simps)
next
  case (Cons v vs)
  then show ?case by (cases v) (auto simp: int_keys_def List.map_filter_simps)
qed

lemma length_pct_from: "length (pct_from p xs) = length xs"
  by (induction p xs rule: pct_from.induct) simp_all

lemma map_fst_pct_from: "map fst (pct_from p xs) = map fst xs"
  by (induction p xs rule: pct_from.induct) simp_all

lemma pct_from_nth:
  "i < length xs \<Longrightarrow>
     snd (pct_from p xs ! i) =
       Some ((real (snd (xs ! i)) / real (if i = 0 then p else snd (xs ! (i - 1))) - 1) * 100)"
proof (induction p xs arbitrary: i rule: pct_from.induct)
  case (1 prev)
  then show ?case by simp
next
  case (2 prev k c xs)
  show ?case
  proof (cases i)
    case 0
    then show ?thesis by simp
  next
    case (Suc j)
    with 2 show ?thesis by (cases j) simp_all
  qed
qed

lemma pct_change_props:
  "map fst (pct_change xs) = map fst xs"
  "xs \<noteq> [] \<Longrightarrow> snd (pct_change xs ! 0) = None"
  "0 < i \<Longrightarrow> i < length xs \<Longrightarrow>
     snd (pct_change xs ! i) = Some ((real (snd (xs ! i)) / real (snd (xs ! (i - 1))) - 1) * 100)"
proof -
  show "map fst (pct_change xs) = map fst xs"
    by (cases xs rule: pct_change.cases) (simp_all add: map_fst_pct_from)
  show "xs \<noteq> [] \<Longrightarrow> snd (pct_change xs ! 0) = None"
    by (cases xs rule: pct_change.cases) simp_all
  show "0 < i \<Longrightarrow> i < length xs \<Longrightarrow>
     snd (pct_change xs ! i) = Some ((real (snd (xs ! i)) / real (snd (xs ! (i - 1))) - 1) * 100)"
  proof (cases xs rule: pct_change.cases)
    case 1
    then show "0 < i \<Longrightarrow> i < length xs \<Longrightarrow> ?thesis" by simp
  next
    case (2 k c ys)
    assume i: "0 < i" "i < length xs"
    then obtain j where j: "i = Suc j" by (cases i) auto
    with i 2 have "j < length ys" by simp
    from pct_from_nth[OF this, of c] 2 j show ?thesis by (cases j) simp_all
  qed
qed

lemma argmax_first_split:
  "\<exists>pre n post. b # xs = pre @ (argmax_first b xs, n) # post
     \<and> (\<forall>e \<in> set pre. snd e < n) \<and> (\<forall>e \<in> set post. snd e \<le> n)"
proof (induction xs arbitrary: b)
  case Nil
  have "b # [] = [] @ (argmax_first b [], snd b) # []
     \<and> (\<forall>e \<in> set []. snd e < snd b) \<and> (\<forall>e \<in> set []. snd e \<le> snd b)"
    by simp
  then show ?case by blast
next
  case (Cons x xs)
  show ?case
  proof (cases "snd b < snd x")
    case True
    from Cons[of x] obtain pre n post where s: "x # xs = pre @ (argmax_first x xs, n) # post"
      and p: "\<forall>e \<in> set pre. snd e < n" and q: "\<forall>e \<in> set post. snd e \<le> n" by blast
    have "snd x \<le> n"
    proof (cases pre)
      case Nil
      with s have "x = (argmax_first x xs, n)" by auto
      then have "snd x = n" by (metis snd_conv)
      then show ?thesis by simp
    next
      case (Cons y ys)
      with s p show ?thesis by auto
    qed
    with True have "snd b < n" by simp
    moreover have "argmax_first b (x # xs) = argmax_first x xs" using True by simp
    ultimately
    have "b # x # xs = (b # pre) @ (argmax_first b (x # xs), n) # post
       \<and> (\<forall>e \<in> set (b # pre). snd e < n) \<and> (\<forall>e \<in> set post. snd e \<le> n)"
      using s p q by simp
    then show ?thesis by blast
  next
    case False
    from Cons[of b] obtain pre n post where s: "b # xs = pre @ (argmax_first b xs, n) # post"
      and p: "\<forall>e \<in> set pre. snd e < n" and q: "\<forall>e \<in> set post. snd e \<le> n" by blast
    show ?thesis
    proof (cases pre)
      case Nil
      with s have b: "b = (argmax_first b xs, n)" and xs: "xs = post" by auto
      from b have "snd b = n" by (metis snd_conv)
      with False have "snd x \<le> n" by simp
      moreover have e: "argmax_first b (x # xs) = argmax_first b xs" using False by simp
      ultimately
      have "b # x # xs = [] @ (argmax_first b (x # xs), n) # (x # post)
         \<and> (\<forall>e \<in> set []. snd e < n) \<and> (\<forall>e \<in> set (x # post). snd e \<le> n)"
        using b xs q unfolding e by auto
      then show ?thesis by blast
    next
      case (Cons y ys)
      with s have y: "y = b" and xs: "xs = ys @ (argmax_first b xs, n) # post" by auto
      from p Cons y have "snd b < n" by simp
      with False have "snd x < n" by simp
      moreover have e: "argmax_first b (x # xs) = argmax_first b xs" using False by simp
      ultimately
      have "b # x # xs = (b # x # ys) @ (argmax_first b (x # xs), n) # post
         \<and> (\<forall>e \<in> set (b # x # ys). snd e < n) \<and> (\<forall>e \<in> set post. snd e \<le> n)"
        using p q Cons y xs unfolding e by auto
      then show ?thesis by blast
    qed
  qed
qed

lemma idxmax_groupby:
  assumes "ks \<noteq> []"
  shows "\<exists>k. idxmax (groupby_size ks) = Inr k \<and> k \<in> set ks
     \<and> (\<forall>h \<in> set ks. count_list ks h \<le> count_list ks k
           \<and> (count_list ks h = count_list ks k \<longrightarrow> k \<le> h))"
proof -
  from assms obtain b xs where g: "groupby_size ks = b # xs"
    by (cases "groupby_size ks") (auto simp: groupby_size_Nil)
  let ?k = "argmax_first b xs"
  from argmax_first_split[of b xs] obtain pre n post
    where s: "b # xs = pre @ (?k, n) # post"
      and p: "\<forall>e \<in> set pre. snd e < n" and q: "\<forall>e \<in> set post. snd e \<le> n" by blast
  have mem: "(?k, n) \<in> set (groupby_size ks)" using g s by simp
  then have n: "n = count_list ks ?k" by (rule groupby_size_count)
  have kin: "?k \<in> set ks" using mem groupby_size_keys(3)[of ks] by force
  have keys: "map fst (groupby_size ks) = map fst pre @ ?k # map fst post" using g s by simp
  have srt: "sorted (map fst pre @ ?k # map fst post)" "distinct (map fst pre @ ?k # map fst post)"
    using groupby_size_keys(1,2)[of ks] keys by simp_all
  have "count_list ks h \<le> count_list ks ?k \<and> (count_list ks h = count_list ks ?k \<longrightarrow> ?k \<le> h)"
    if h: "h \<in> set ks" for h
  proof -
    from groupby_size_mem[OF h] g s
    have "(h, count_list ks h) \<in> set pre \<or> h = ?k \<or> (h, count_list ks h) \<in> set post"
      by auto
    then show ?thesis
    proof (elim disjE)
      assume "(h, count_list ks h) \<in> set pre"
      with p n show ?thesis by force
    next
      assume "h = ?k" then show ?thesis by simp
    next
      assume a: "(h, count_list ks h) \<in> set post"
      with q n have le: "count_list ks h \<le> count_list ks ?k" by force
      from a have "h \<in> set (map fst post)" by force
      with srt(1) have "?k \<le> h" by (auto simp: sorted_append)
      with le show ?thesis by simp
    qed
  qed
  with g kin show ?thesis by auto
qed

lemma analyze_trends_Inr:
  assumes "analyze_trends s = (Inr tr, s')" "clean_df s = Some c"
  shows "yearly_crimes tr = groupby_size (int_keys (column_values (frames s ! c) ''year''))
     \<and> yoy_change tr = pct_change (yearly_crimes tr)
     \<and> monthly_avg tr = monthly_mean (groupby_size (year_month_keys (frames s ! c)))
     \<and> idxmax (groupby_size (int_keys (column_values (frames s ! c) ''hour''))) = Inr (peak_hour tr)
     \<and> s' = s"
  using assms
  by (auto simp: analyze_trends_def Let_def split: if_splits sum.splits)

lemma analyze_trends_total:
  assumes "clean_df s = Some c" "has_column (frames s ! c) ''year''"
    "has_column (frames s ! c) ''month''" "has_column (frames s ! c) ''day_name''"
    "has_column (frames s ! c) ''hour''" "IntV h \<in> set (column_values (frames s ! c) ''hour'')"
  shows "\<exists>tr. analyze_trends s = (Inr tr, s)"
proof -
  from assms(6) have "h \<in> set (int_keys (column_values (frames s ! c) ''hour''))"
    by (simp add: set_int_keys)
  then have "int_keys (column_values (frames s ! c) ''hour'') \<noteq> []"
    by auto
  from idxmax_groupby[OF this] obtain k
    where "idxmax (groupby_size (int_keys (column_values (frames s ! c) ''hour''))) = Inr k"
    by blast
  with assms(1-5) show ?thesis by (simp add: analyze_trends_def Let_def)
qed

text \<open>
  C7. When \<^verbatim>\<open>analyze_trends\<close> returns, the yearly counts list the years that occur
  in the \<^verbatim>\<open>year\<close> column in ascending order, each once, with the number of rows of
  that year; the year-over-year change has the same years, no value (NaN) for the first and
  (current / previous - 1) * 100 for every later one, so that the counts 2022: 100,
  2023: 150 give no value for 2022 and exactly 50 for 2023; and the peak hour is an hour of
  the \<^verbatim>\<open>hour\<close> column with the largest number of rows, the smallest such hour when
  several tie. It returns whenever the four columns it reads exist and some row has an hour.
  Percentages are computed in exact arithmetic.
\<close>

theorem trend_analysis:
  "(clean_df s = Some c \<and> analyze_trends s = (Inr tr, s') \<longrightarrow>
      sorted (map fst (yearly_crimes tr)) \<and> distinct (map fst (yearly_crimes tr))
    \<and> (\<forall>y. y \<in> set (map fst (yearly_crimes tr))
            \<longleftrightarrow> IntV y \<in> set (column_values (frames s ! c) ''year''))
    \<and> (\<forall>y n. (y, n) \<in> set (yearly_crimes tr) \<longrightarrow>
            n = length (filter (\<lambda>v. v = IntV y) (column_values (frames s ! c) ''year'')))
    \<and> map fst (yoy_change tr) = map fst (yearly_crimes tr)
    \<and> (yearly_crimes tr \<noteq> [] \<longrightarrow> snd (yoy_change tr ! 0) = None)
    \<and> (\<forall>i. 0 < i \<and> i < length (yearly_crimes tr) \<longrightarrow>
          snd (yoy_change tr ! i) =
            Some ((real (snd (yearly_crimes tr ! i)) / real (snd (yearly_crimes tr ! (i - 1))) - 1) * 100))
    \<and> IntV (peak_hour tr) \<in> set (column_values (frames s ! c) ''hour'')
    \<and> (\<forall>h. IntV h \<in> set (column_values (frames s ! c) ''hour'') \<longrightarrow>
          length (filter (\<lambda>v. v = IntV h) (column_values (frames s ! c) ''hour''))
            \<le> length (filter (\<lambda>v. v = IntV (peak_hour tr)) (column_values (frames s ! c) ''hour''))
        \<and> (length (filter (\<lambda>v. v = IntV h) (column_values (frames s ! c) ''hour''))
            = length (filter (\<lambda>v. v = IntV (peak_hour tr)) (column_values (frames s ! c) ''hour''))
           \<longrightarrow> peak_hour tr \<le> h)))
   \<and> pct_change [(2022 :: int, 100), (2023, 150)] = [(2022, None), (2023, Some 50)]
   \<and> (clean_df u = Some d \<and> has_column (frames u ! d) ''year'' \<and> has_column (frames u ! d) ''month''
        \<and> has_column (frames u ! d) ''day_name'' \<and> has_column (frames u ! d) ''hour''
        \<and> IntV k \<in> set (column_values (frames u ! d) ''hour'')
      \<longrightarrow> (\<exists>tr. analyze_trends u = (Inr tr, u)))"
proof -
  have main: "sorted (map fst (yearly_crimes tr)) \<and> distinct (map fst (yearly_crimes tr))
    \<and> (\<forall>y. y \<in> set (map fst (yearly_crimes tr))
            \<longleftrightarrow> IntV y \<in> set (column_values (frames s ! c) ''year''))
    \<and> (\<forall>y n. (y, n) \<in> set (yearly_crimes tr) \<longrightarrow>
            n = length (filter (\<lambda>v. v = IntV y) (column_values (frames s ! c) ''year'')))
    \<and> map fst (yoy_change tr) = map fst (yearly_crimes tr)
    \<and> (yearly_crimes tr \<noteq> [] \<longrightarrow> snd (yoy_change tr ! 0) = None)
    \<and> (\<forall>i. 0 < i \<and> i < length (yearly_crimes tr) \<longrightarrow>
          snd (yoy_change tr ! i) =
            Some ((real (snd (yearly_crimes tr ! i)) / real (snd (yearly_crimes tr ! (i - 1))) - 1) * 100))
    \<and> IntV (peak_hour tr) \<in> set (column_values (frames s ! c) ''hour'')
    \<and> (\<forall>h. IntV h \<in> set (column_values (frames s ! c) ''hour'') \<longrightarrow>
          length (filter (\<lambda>v. v = IntV h) (column_values (frames s ! c) ''hour''))
            \<le> length (filter (\<lambda>v. v = IntV (peak_hour tr)) (column_values (frames s ! c) ''hour''))
        \<and> (length (filter (\<lambda>v. v = IntV h) (column_values (frames s ! c) ''hour''))
            = length (filter (\<lambda>v. v = IntV (peak_hour tr)) (column_values (frames s ! c) ''hour''))
           \<longrightarrow> peak_hour tr \<le> h))"
    if c: "clean_df s = Some c" and run: "analyze_trends s = (Inr tr, s')"
  proof -
    let ?ys = "int_keys (column_values (frames s ! c) ''year'')"
    let ?hs = "int_keys (column_values (frames s ! c) ''hour'')"
    from analyze_trends_Inr[OF run c]
    have y: "yearly_crimes tr = groupby_size ?ys"
      and p: "yoy_change tr = pct_change (yearly_crimes tr)"
      and k: "idxmax (groupby_size ?hs) = Inr (peak_hour tr)" by simp_all
    have 1: "sorted (map fst (yearly_crimes tr))" "distinct (map fst (yearly_crimes tr))"
      unfolding y by (rule groupby_size_keys)+
    have 2: "y \<in> set (map fst (yearly_crimes tr))
            \<longleftrightarrow> IntV y \<in> set (column_values (frames s ! c) ''year'')" for y
      unfolding y groupby_size_keys(3) by (rule set_int_keys)
    have 3: "n = length (filter (\<lambda>v. v = IntV y) (column_values (frames s ! c) ''year''))"
      if "(y, n) \<in> set (yearly_crimes tr)" for y n
      using groupby_size_count[of y n ?ys] that unfolding y by (simp add: count_int_keys)
    have 4: "map fst (yoy_change tr) = map fst (yearly_crimes tr)"
      unfolding p by (rule pct_change_props(1))
    have 5: "snd (yoy_change tr ! 0) = None" if "yearly_crimes tr \<noteq> []"
      unfolding p using that by (rule pct_change_props(2))
    have 6: "snd (yoy_change tr ! i) =
            Some ((real (snd (yearly_crimes tr ! i)) / real (snd (yearly_crimes tr ! (i - 1))) - 1) * 100)"
      if "0 < i \<and> i < length (yearly_crimes tr)" for i
      unfolding p using that pct_change_props(3)[of i "yearly_crimes tr"] by simp
    have ne: "?hs \<noteq> []"
    proof
      assume "?hs = []"
      then have "groupby_size ?hs = []" by (simp add: groupby_size_Nil)
      with k show False by simp
    qed
    from idxmax_groupby[OF ne] k
    have kin: "peak_hour tr \<in> set ?hs"
      and best: "\<forall>h \<in> set ?hs. count_list ?hs h \<le> count_list ?hs (peak_hour tr)
           \<and> (count_list ?hs h = count_list ?hs (peak_hour tr) \<longrightarrow> peak_hour tr \<le> h)"
      by auto
    have 7: "IntV (peak_hour tr) \<in> set (column_values (frames s ! c) ''hour'')"
      using kin by (simp add: set_int_keys)
    have 8: "length (filter (\<lambda>v. v = IntV h) (column_values (frames s ! c) ''hour''))
            \<le> length (filter (\<lambda>v. v = IntV (peak_hour tr)) (column_values (frames s ! c) ''hour''))
        \<and> (length (filter (\<lambda>v. v = IntV h) (column_values (frames s ! c) ''hour''))
            = length (filter (\<lambda>v. v = IntV (peak_hour tr)) (column_values (frames s ! c) ''hour''))
           \<longrightarrow> peak_hour tr \<le> h)"
      if "IntV h \<in> set (column_values (frames s ! c) ''hour'')" for h
      using best that by (simp add: set_int_keys count_int_keys)
    from 1 2 3 4 5 6 7 8 show ?thesis by blast
  qed
  have ex: "pct_change [(2022 :: int, 100), (2023, 150)] = [(2022, None), (2023, Some 50)]"
    by simp
  have total: "\<exists>tr. analyze_trends u = (Inr tr, u)"
    if "clean_df u = Some d \<and> has_column (frames u ! d) ''year'' \<and> has_column (frames u ! d) ''month''
        \<and> has_column (frames u ! d) ''day_name'' \<and> has_column (frames u ! d) ''hour''
        \<and> IntV k \<in> set (column_values (frames u ! d) ''hour'')"
    using that analyze_trends_total[of u d k] by blast
  from main ex total show ?thesis by blast
qed


lemma trends_ex_two_years:
  "analyze_trends ex_two_years_state = (Inr ex_trends_two_years, ex_two_years_state)"
  by code_simp

lemma trends_ex_engineered:
  "analyze_trends ex_engineered = (Inr ex_trends_engineered, ex_engineered)"
  by code_simp

theorem trend_analysis_witness:
  "clean_df ex_two_years_state = Some 0
   \<and> analyze_trends ex_two_years_state = (Inr ex_trends_two_years, ex_two_years_state)
   \<and> yearly_crimes ex_trends_two_years = [(2022, 100), (2023, 150)]
   \<and> length (filter (\<lambda>v. v = IntV 2023) (column_values (frames ex_two_years_state ! 0) ''year'')) = 150
   \<and> snd (yoy_change ex_trends_two_years ! 0) = None
   \<and> (0::nat) < 1 \<and> 1 < length (yearly_crimes ex_trends_two_years)
   \<and> snd (yoy_change ex_trends_two_years ! 1) = Some 50
   \<and> IntV 21 \<in> set (column_values (frames ex_two_years_state ! 0) ''hour'')
   \<and> peak_hour ex_trends_two_years = 9
   \<and> length (filter (\<lambda>v. v = IntV 21) (column_values (frames ex_two_years_state ! 0) ''hour''))
      \<le> length (filter (\<lambda>v. v = IntV 9) (column_values (frames ex_two_years_state ! 0) ''hour''))
   \<and> clean_df ex_engineered = Some 2
   \<and> analyze_trends ex_engineered = (Inr ex_trends_engineered, ex_engineered)
   \<and> IntV 19 \<in> set (column_values (frames ex_engineered ! 2) ''hour'')
   \<and> length (filter (\<lambda>v. v = IntV 19) (column_values (frames ex_engineered ! 2) ''hour''))
      = length (filter (\<lambda>v. v = IntV 7) (column_values (frames ex_engineered ! 2) ''hour''))
   \<and> peak_hour ex_trends_engineered = 7 \<and> peak_hour ex_trends_engineered \<le> 19"
proof -
  note A = trend_analysis[of ex_two_years_state 0 ex_trends_two_years ex_two_years_state
      ex_two_years_state 0 9]
  note B = trend_analysis[of ex_engineered 2 ex_trends_engineered ex_engineered
      ex_two_years_state 0 9]
  have c1: "clean_df ex_two_years_state = Some 0" by (simp add: ex_two_years_state_def)
  have c2: "clean_df ex_engineered = Some 2" by (simp add: ex_engineered_def)
  have y: "yearly_crimes ex_trends_two_years = [(2022, 100), (2023, 150)]"
    by (simp add: ex_trends_two_years_def)
  have p1: "peak_hour ex_trends_two_years = 9" by (simp add: ex_trends_two_years_def)
  have p2: "peak_hour ex_trends_engineered = 7" by (simp add: ex_trends_engineered_def)
  have h21: "IntV 21 \<in> set (column_values (frames ex_two_years_state ! 0) ''hour'')" by code_simp
  have h19: "IntV 19 \<in> set (column_values (frames ex_engineered ! 2) ''hour'')" by code_simp
  have tie: "length (filter (\<lambda>v. v = IntV 19) (column_values (frames ex_engineered ! 2) ''hour''))
      = length (filter (\<lambda>v. v = IntV 7) (column_values (frames ex_engineered ! 2) ''hour''))"
    by code_simp
  have mem: "(2023, 150) \<in> set (yearly_crimes ex_trends_two_years)" by (simp add: y)
  from A c1 trends_ex_two_years mem
  have n: "150 = length (filter (\<lambda>v. v = IntV 2023) (column_values (frames ex_two_years_state ! 0) ''year''))"
    by blast
  from A c1 trends_ex_two_years y have z: "snd (yoy_change ex_trends_two_years ! 0) = None"
    by simp
  have i: "(0::nat) < 1 \<and> 1 < length (yearly_crimes ex_trends_two_years)" by (simp add: y)
  from A c1 trends_ex_two_years i
  have "snd (yoy_change ex_trends_two_years ! 1) =
      Some ((real (snd (yearly_crimes ex_trends_two_years ! 1))
             / real (snd (yearly_crimes ex_trends_two_years ! (1 - 1))) - 1) * 100)"
    by blast
  then have o: "snd (yoy_change ex_trends_two_years ! 1) = Some 50" by (simp add: y)
  from A c1 trends_ex_two_years h21
  have le: "length (filter (\<lambda>v. v = IntV 21) (column_values (frames ex_two_years_state ! 0) ''hour''))
      \<le> length (filter (\<lambda>v. v = IntV (peak_hour ex_trends_two_years))
            (column_values (frames ex_two_years_state ! 0) ''hour''))"
    by blast
  from B c2 trends_ex_engineered h19 tie p2
  have t: "peak_hour ex_trends_engineered \<le> 19" by simp
  from c1 trends_ex_two_years y n z i o h21 p1 le c2 trends_ex_engineered h19 tie p2 t
  show ?thesis by simp
qed

subsection \<open>The code's steps are the specification's steps\<close>

lemma keep_first_spec:
  "keep_first seen xs = spec_dedup_rows (filter (\<lambda>x. x \<notin> set seen) xs)"
proof (induction xs arbitrary: seen)
  case Nil
  show ?case by simp
next
  case (Cons x xs)
  have "filter (\<lambda>y. y \<noteq> x) (filter (\<lambda>y. y \<notin> set seen) xs) = filter (\<lambda>y. y \<notin> set (x # seen)) xs"
    by (auto intro: filter_cong)
  with Cons show ?case by simp
qed

lemma drop_duplicates_spec: "drop_duplicates t = spec_step1 t"
  by (simp add: drop_duplicates_def spec_step1_def keep_first_spec)

lemma dropna_spec: "dropna critical_fields t = spec_step2 t"
proof -
  have "(\<lambda>r. \<not> any_null t critical_fields r) = spec_complete t"
    by (rule ext) (simp add: any_null_def critical_fields_def spec_complete_def isnull_def)
  then show ?thesis by (simp add: dropna_def spec_step2_def)
qed

lemma distinct_fst_nth:
  "distinct (map fst cols) \<Longrightarrow> i < length cols \<Longrightarrow> j < length cols \<Longrightarrow> j \<noteq> i
     \<Longrightarrow> fst (cols ! j) \<noteq> fst (cols ! i)"
  by (metis distinct_conv_nth length_map nth_map)

lemma row_update_as_map:
  assumes "length r = length cols" "distinct (map fst cols)" "i < length cols" "fst (cols ! i) = c"
  shows "r[i := g (r ! i)] = map (\<lambda>(cd, v). if fst cd = c then g v else v) (zip cols r)"
proof (rule nth_equalityI)
  show "length (r[i := g (r ! i)]) = length (map (\<lambda>(cd, v). if fst cd = c then g v else v) (zip cols r))"
    using assms by simp
next
  fix j assume "j < length (r[i := g (r ! i)])"
  then have j: "j < length r" by simp
  show "r[i := g (r ! i)] ! j = map (\<lambda>(cd, v). if fst cd = c then g v else v) (zip cols r) ! j"
  proof (cases "j = i")
    case True
    with j assms show ?thesis by simp
  next
    case False
    have "fst (cols ! j) \<noteq> c"
      using distinct_fst_nth[of cols i j] assms j False by simp
    with j assms False show ?thesis by simp
  qed
qed

lemma header_update_as_map:
  assumes "distinct (map fst cols)" "i < length cols" "fst (cols ! i) = c"
  shows "cols[i := (c, d')] = map (\<lambda>cd. (fst cd, if fst cd = c then d' else snd cd)) cols"
proof (rule nth_equalityI)
  show "length (cols[i := (c, d')]) = length (map (\<lambda>cd. (fst cd, if fst cd = c then d' else snd cd)) cols)"
    by simp
next
  fix j assume "j < length (cols[i := (c, d')])"
  then have j: "j < length cols" by simp
  show "cols[i := (c, d')] ! j = map (\<lambda>cd. (fst cd, if fst cd = c then d' else snd cd)) cols ! j"
  proof (cases "j = i")
    case True
    with j assms show ?thesis by simp
  next
    case False
    have "fst (cols ! j) \<noteq> c"
      using distinct_fst_nth[of cols i j] assms j False by simp
    with j False show ?thesis by simp
  qed
qed

text \<open>An element-wise assignment to an existing column is a cell-wise map of that column
  and a change of its dtype.\<close>

lemma assign_from_as_map:
  assumes wf: "wf_table t" and dist: "distinct (col_names t)" and has: "has_column t c"
  shows "assign_from c d' c g t =
     set_dtypes (\<lambda>c' d. if c' = c then d' else d) (map_named (\<lambda>c' v. if c' = c then g v else v) t)"
proof -
  from has obtain i where i: "index_of c (col_names t) = Some i"
    by (auto simp: has_column_index)
  from index_of_Some[OF i] have il: "i < length (columns t)" and ic: "fst (columns t ! i) = c"
    by (auto simp: col_names_def)
  have d: "distinct (map fst (columns t))" using dist by (simp add: col_names_def)
  have rows: "map (\<lambda>r. r[i := g (get_cell t c r)]) (rows t)
      = map (\<lambda>r. map (\<lambda>(cd, v). if fst cd = c then g v else v) (zip (columns t) r)) (rows t)"
  proof (rule map_cong[OF refl])
    fix r assume "r \<in> set (rows t)"
    with wf have l: "length r = length (columns t)" by (simp add: wf_table_def list_all_iff)
    with i il have "get_cell t c r = r ! i" by (simp add: get_cell_def cell_at_def)
    with row_update_as_map[OF l d il ic, of g]
    show "r[i := g (get_cell t c r)] = map (\<lambda>(cd, v). if fst cd = c then g v else v) (zip (columns t) r)"
      by simp
  qed
  show ?thesis
    using i rows header_update_as_map[OF d il ic, of d']
    by (simp add: assign_from_def assign_def set_dtypes_def map_named_def)
qed


lemma columns_map_named [simp]: "columns (map_named f t) = columns t"
  by (simp add: map_named_def)

lemma rows_set_dtypes [simp]: "rows (set_dtypes g t) = rows t"
  by (simp add: set_dtypes_def)

lemma col_names_map_named [simp]: "col_names (map_named f t) = col_names t"
  by (simp add: col_names_def)

lemma col_names_set_dtypes [simp]: "col_names (set_dtypes g t) = col_names t"
  by (simp add: col_names_def set_dtypes_def comp_def)

lemma has_column_map_named [simp]: "has_column (map_named f t) c = has_column t c"
  by (simp add: has_column_def)

lemma has_column_set_dtypes [simp]: "has_column (set_dtypes g t) c = has_column t c"
  by (simp add: has_column_def)

lemma length_rows_map_named [simp]: "length (rows (map_named f t)) = length (rows t)"
  by (simp add: map_named_def)

lemma wf_map_named: "wf_table t \<Longrightarrow> wf_table (map_named f t)"
  by (simp add: wf_table_def map_named_def list_all_iff)

lemma wf_set_dtypes: "wf_table t \<Longrightarrow> wf_table (set_dtypes g t)"
  by (simp add: wf_table_def set_dtypes_def list_all_iff)

lemma get_cell_set_dtypes [simp]: "get_cell (set_dtypes g t) c r = get_cell t c r"
  by (simp add: get_cell_def)

lemma column_values_set_dtypes [simp]: "column_values (set_dtypes g t) c = column_values t c"
  by (simp add: column_values_def)

lemma map_named_set_dtypes: "map_named f (set_dtypes g t) = set_dtypes g (map_named f t)"
proof -
  have "map (\<lambda>(cd, v). f (fst cd) v) (zip (map (\<lambda>cd. (fst cd, g (fst cd) (snd cd))) cols) r)
      = map (\<lambda>(cd, v). f (fst cd) v) (zip cols r)" for cols r
    by (induction cols arbitrary: r) (auto simp: zip_Cons1 split: list.splits)
  then show ?thesis by (simp add: map_named_def set_dtypes_def)
qed

lemma zip_map_zip:
  "map (\<lambda>(cd, v). f (fst cd) v) (zip cols (map (\<lambda>(cd, v). g (fst cd) v) (zip cols r)))
     = map (\<lambda>(cd, v). f (fst cd) (g (fst cd) v)) (zip cols r)"
  by (induction cols arbitrary: r) (auto simp: zip_Cons1 split: list.splits)

lemma map_named_map_named: "map_named f (map_named g t) = map_named (\<lambda>c v. f c (g c v)) t"
  by (simp add: map_named_def zip_map_zip comp_def)

lemma set_dtypes_set_dtypes: "set_dtypes f (set_dtypes g t) = set_dtypes (\<lambda>c d. f c (g c d)) t"
  by (simp add: set_dtypes_def comp_def)

lemma map_named_cong:
  assumes "\<And>r cd v. r \<in> set (rows t) \<Longrightarrow> (cd, v) \<in> set (zip (columns t) r) \<Longrightarrow> f (fst cd) v = g (fst cd) v"
  shows "map_named f t = map_named g t"
proof -
  have "map (\<lambda>r. map (\<lambda>(cd, v). f (fst cd) v) (zip (columns t) r)) (rows t)
      = map (\<lambda>r. map (\<lambda>(cd, v). g (fst cd) v) (zip (columns t) r)) (rows t)"
    using assms by (intro map_cong refl) auto
  then show ?thesis by (simp add: map_named_def)
qed

lemma set_dtypes_cong:
  assumes "\<And>cd. cd \<in> set (columns t) \<Longrightarrow> f (fst cd) (snd cd) = g (fst cd) (snd cd)"
  shows "set_dtypes f t = set_dtypes g t"
  using assms by (simp add: set_dtypes_def)

lemma set_dtypes_id:
  assumes "\<And>cd. cd \<in> set (columns t) \<Longrightarrow> g (fst cd) (snd cd) = snd cd"
  shows "set_dtypes g t = t"
proof -
  have "map (\<lambda>cd. (fst cd, g (fst cd) (snd cd))) (columns t) = map (\<lambda>cd. cd) (columns t)"
    using assms by (intro map_cong refl) simp
  then show ?thesis by (simp add: set_dtypes_def)
qed

lemma map_named_id:
  assumes "wf_table t"
    "\<And>r cd v. r \<in> set (rows t) \<Longrightarrow> (cd, v) \<in> set (zip (columns t) r) \<Longrightarrow> f (fst cd) v = v"
  shows "map_named f t = t"
proof -
  have "map (\<lambda>(cd, v). f (fst cd) v) (zip (columns t) r) = r" if r: "r \<in> set (rows t)" for r
  proof -
    have "map (\<lambda>(cd, v). f (fst cd) v) (zip (columns t) r) = map snd (zip (columns t) r)"
      using assms(2)[OF r] by (intro map_cong refl) auto
    also have "\<dots> = r"
      using assms(1) r by (simp add: wf_table_def list_all_iff)
    finally show ?thesis .
  qed
  then have "map (\<lambda>r. map (\<lambda>(cd, v). f (fst cd) v) (zip (columns t) r)) (rows t) = map (\<lambda>r. r) (rows t)"
    by (intro map_cong refl)
  then show ?thesis by (simp add: map_named_def)
qed

lemma zip_columns_has_column:
  "(cd, v) \<in> set (zip (columns t) r) \<Longrightarrow> has_column t (fst cd)"
  by (auto simp: has_column_def col_names_def dest: set_zip_leftD)

lemma dtype_of_distinct:
  "distinct (col_names t) \<Longrightarrow> (c, d) \<in> set (columns t) \<Longrightarrow> dtype_of t c = d"
  by (simp add: dtype_of_def col_names_def)


lemma get_cell_map_named:
  assumes "length r = length (columns t)" "has_column t c"
  shows "get_cell (map_named f t) c (map (\<lambda>(cd, v). f (fst cd) v) (zip (columns t) r))
     = f c (get_cell t c r)"
proof -
  from assms(2) obtain i where i: "index_of c (col_names t) = Some i"
    by (auto simp: has_column_index)
  from index_of_Some[OF i] have il: "i < length (columns t)" and ic: "fst (columns t ! i) = c"
    by (auto simp: col_names_def)
  with assms(1) i show ?thesis by (simp add: get_cell_def cell_at_def)
qed

lemma column_values_map_named:
  assumes "wf_table t" "has_column t c"
  shows "column_values (map_named f t) c = map (f c) (column_values t c)"
proof -
  have "map (get_cell (map_named f t) c) (rows (map_named f t))
      = map (\<lambda>r. f c (get_cell t c r)) (rows t)"
    unfolding map_named_def
    using assms
    by (auto simp: wf_table_def list_all_iff get_cell_map_named[unfolded map_named_def] comp_def)
  then show ?thesis by (simp add: column_values_def comp_def)
qed

lemma fill_step_as_map:
  assumes wf: "wf_table t" and dist: "distinct (col_names t)"
  shows "fill_step c t =
     set_dtypes (\<lambda>c' d. if c' = c \<and> Missing \<in> set (column_values t c) then Object else d)
       (map_named (\<lambda>c' v. if c' = c \<and> v = Missing then Str ''UNKNOWN'' else v) t)"
    (is "_ = set_dtypes ?g (map_named ?f t)")
proof (cases "has_column t c")
  case True
  have "fill_step c t =
      set_dtypes (\<lambda>c' d. if c' = c then fillna_dtype t c else d)
        (map_named (\<lambda>c' v. if c' = c then fillna_cell (Str ''UNKNOWN'') v else v) t)"
    using True by (simp add: fill_step_def fillna_column_def assign_from_as_map[OF wf dist True])
  also have "map_named (\<lambda>c' v. if c' = c then fillna_cell (Str ''UNKNOWN'') v else v) t = map_named ?f t"
    by (rule map_named_cong) (simp add: fillna_cell_def isnull_def)
  also have "set_dtypes (\<lambda>c' d. if c' = c then fillna_dtype t c else d) (map_named ?f t)
      = set_dtypes ?g (map_named ?f t)"
  proof (rule set_dtypes_cong)
    fix cd assume "cd \<in> set (columns (map_named ?f t))"
    then have "(fst cd, snd cd) \<in> set (columns t)" by simp
    from dtype_of_distinct[OF dist this]
    show "(if fst cd = c then fillna_dtype t c else snd cd) = ?g (fst cd) (snd cd)"
      by (auto simp: fillna_dtype_def)
  qed
  finally show ?thesis .
next
  case False
  have 1: "map_named ?f t = t"
  proof (rule map_named_id[OF wf])
    fix r cd v assume "r \<in> set (rows t)" and m: "(cd, v) \<in> set (zip (columns t) r)"
    from zip_columns_has_column[OF m] False show "?f (fst cd) v = v" by auto
  qed
  have 2: "set_dtypes ?g t = t"
  proof (rule set_dtypes_id)
    fix cd assume "cd \<in> set (columns t)"
    then have "has_column t (fst cd)" by (auto simp: has_column_def col_names_def)
    with False show "?g (fst cd) (snd cd) = snd cd" by auto
  qed
  from False 1 2 show ?thesis by (simp add: fill_step_def)
qed

lemma bool_step_as_map:
  assumes wf: "wf_table t" and dist: "distinct (col_names t)"
  shows "bool_step c t =
     set_dtypes (\<lambda>c' d. if c' = c then Boolean else d)
       (map_named (\<lambda>c' v. if c' = c then (if v = Missing then BoolV False else astype_bool v) else v) t)"
    (is "_ = set_dtypes ?g (map_named ?f t)")
proof (cases "has_column t c")
  case True
  have "map_named (\<lambda>c' v. if c' = c then astype_bool (fillna_cell (BoolV False) v) else v) t
      = map_named ?f t"
    by (rule map_named_cong) (simp add: fillna_cell_def isnull_def)
  with True show ?thesis
    by (simp add: bool_step_def to_bool_column_def assign_from_as_map[OF wf dist True])
next
  case False
  have 1: "map_named ?f t = t"
  proof (rule map_named_id[OF wf])
    fix r cd v assume "r \<in> set (rows t)" and m: "(cd, v) \<in> set (zip (columns t) r)"
    from zip_columns_has_column[OF m] False show "?f (fst cd) v = v" by auto
  qed
  have 2: "set_dtypes ?g t = t"
  proof (rule set_dtypes_id)
    fix cd assume "cd \<in> set (columns t)"
    then have "has_column t (fst cd)" by (auto simp: has_column_def col_names_def)
    with False show "?g (fst cd) (snd cd) = snd cd" by auto
  qed
  from False 1 2 show ?thesis by (simp add: bool_step_def)
qed

lemma normalize_as_map:
  assumes wf: "wf_table t" and dist: "distinct (col_names t)" and obj: "(c, Object) \<in> set (columns t)"
  shows "str_normalize_column c t = map_named (\<lambda>c' v. if c' = c then str_upper (str_strip v) else v) t"
proof -
  from obj have has: "has_column t c" by (force simp: has_column_def col_names_def)
  have "set_dtypes (\<lambda>c' d. if c' = c then Object else d)
      (map_named (\<lambda>c' v. if c' = c then str_upper (str_strip v) else v) t)
      = map_named (\<lambda>c' v. if c' = c then str_upper (str_strip v) else v) t"
  proof (rule set_dtypes_id)
    fix cd assume "cd \<in> set (columns (map_named (\<lambda>c' v. if c' = c then str_upper (str_strip v) else v) t))"
    then have "(fst cd, snd cd) \<in> set (columns t)" by simp
    from dtype_of_distinct[OF dist this] dtype_of_distinct[OF dist obj]
    show "(if fst cd = c then Object else snd cd) = snd cd" by auto
  qed
  then show ?thesis
    by (simp add: str_normalize_column_def assign_from_as_map[OF wf dist has])
qed


lemma column_values_map_named_fixed:
  assumes "wf_table t" "\<And>v. f c v = v"
  shows "column_values (map_named f t) c = column_values t c"
proof (cases "has_column t c")
  case True
  have "map (f c) (column_values t c) = map (\<lambda>v. v) (column_values t c)"
    using assms(2) by (intro map_cong refl)
  with column_values_map_named[OF assms(1) True, of f] show ?thesis by simp
next
  case False
  then have "get_cell (map_named f t) c = (\<lambda>r. Missing)" "get_cell t c = (\<lambda>r. Missing)"
    by (auto simp: get_cell_def has_column_index)
  then show ?thesis by (simp add: column_values_def map_named_def)
qed

lemma distinct_fill_step: "wf_table t \<Longrightarrow> distinct (col_names t) \<Longrightarrow> distinct (col_names (fill_step c t))"
  by (simp add: fill_step_as_map)

lemma wf_fill_step: "wf_table t \<Longrightarrow> distinct (col_names t) \<Longrightarrow> wf_table (fill_step c t)"
  by (simp add: fill_step_as_map wf_map_named wf_set_dtypes)

lemma distinct_bool_step: "wf_table t \<Longrightarrow> distinct (col_names t) \<Longrightarrow> distinct (col_names (bool_step c t))"
  by (simp add: bool_step_as_map)

lemma wf_bool_step: "wf_table t \<Longrightarrow> distinct (col_names t) \<Longrightarrow> wf_table (bool_step c t)"
  by (simp add: bool_step_as_map wf_map_named wf_set_dtypes)

lemma step3_eq:
  assumes wf: "wf_table t" and dist: "distinct (col_names t)"
  shows "fill_step ''location_description'' (fill_step ''description'' t) = spec_step3 t"
proof -
  let ?f1 = "\<lambda>c' v. if c' = ''description'' \<and> v = Missing then Str ''UNKNOWN'' else v"
  let ?g1 = "\<lambda>c' d. if c' = ''description'' \<and> Missing \<in> set (column_values t ''description'')
                     then Object else d"
  let ?t1 = "fill_step ''description'' t"
  have t1: "?t1 = set_dtypes ?g1 (map_named ?f1 t)" by (rule fill_step_as_map[OF wf dist])
  have cv: "column_values ?t1 ''location_description'' = column_values t ''location_description''"
    unfolding t1 by (simp add: column_values_map_named_fixed[OF wf])
  have "fill_step ''location_description'' ?t1 =
      set_dtypes (\<lambda>c' d. if c' = ''location_description''
                            \<and> Missing \<in> set (column_values t ''location_description'') then Object else d)
        (map_named (\<lambda>c' v. if c' = ''location_description'' \<and> v = Missing then Str ''UNKNOWN'' else v) ?t1)"
    using fill_step_as_map[OF wf_fill_step[OF wf dist] distinct_fill_step[OF wf dist],
        of "''location_description''" "''description''"] cv by simp
  also have "\<dots> = spec_step3 t"
    unfolding t1 spec_step3_def map_named_set_dtypes set_dtypes_set_dtypes map_named_map_named
    by (intro arg_cong2[where f = set_dtypes] arg_cong2[where f = map_named] refl ext)
       (auto simp: fill_fields_def)
  finally show ?thesis .
qed

lemma step4_eq:
  assumes wf: "wf_table t" and dist: "distinct (col_names t)"
  shows "bool_step ''domestic'' (bool_step ''arrest'' t) = spec_step4 t"
proof -
  have "bool_step ''domestic'' (bool_step ''arrest'' t) =
      set_dtypes (\<lambda>c' d. if c' = ''domestic'' then Boolean else d)
        (map_named (\<lambda>c' v. if c' = ''domestic''
                            then (if v = Missing then BoolV False else astype_bool v) else v)
           (bool_step ''arrest'' t))"
    by (rule bool_step_as_map[OF wf_bool_step[OF wf dist] distinct_bool_step[OF wf dist]])
  also have "\<dots> = spec_step4 t"
    unfolding bool_step_as_map[OF wf dist] spec_step4_def map_named_set_dtypes
      set_dtypes_set_dtypes map_named_map_named
    by (intro arg_cong2[where f = set_dtypes] arg_cong2[where f = map_named] refl ext)
       (auto simp: bool_fields_def)
  finally show ?thesis .
qed

lemma column_values_cells:
  assumes "wf_table t" "distinct (col_names t)" "(c, d) \<in> set (columns t)"
    "v \<in> set (column_values t c)"
  shows "\<exists>r \<in> set (rows t). ((c, d), v) \<in> set (zip (columns t) r)"
proof -
  from assms(3) have "has_column t c" by (force simp: has_column_def col_names_def)
  then obtain i where i: "index_of c (col_names t) = Some i" by (auto simp: has_column_index)
  from index_of_Some[OF i] have il: "i < length (columns t)" and ic: "fst (columns t ! i) = c"
    by (auto simp: col_names_def)
  have "(c, snd (columns t ! i)) \<in> set (columns t)"
    using il ic by (metis nth_mem prod.collapse)
  from dtype_of_distinct[OF assms(2) this] dtype_of_distinct[OF assms(2,3)] ic
  have ci: "columns t ! i = (c, d)" by (metis prod.collapse)
  from assms(4) obtain r where r: "r \<in> set (rows t)" and v: "v = get_cell t c r"
    by (auto simp: column_values_def)
  from assms(1) r have l: "length r = length (columns t)" by (simp add: wf_table_def list_all_iff)
  with i il v have "v = r ! i" by (simp add: get_cell_def cell_at_def)
  with il l ci have "((c, d), v) \<in> set (zip (columns t) r)"
    by (auto simp: set_zip intro!: exI[of _ i])
  with r show ?thesis by blast
qed

lemma text_accessor_ok:
  assumes "\<And>v. v \<in> set vs \<Longrightarrow> text_cell v"
  shows "str_accessor_ok vs"
proof (cases "filter (\<lambda>v. \<not> isnull v) vs")
  case Nil
  then show ?thesis by (simp add: str_accessor_ok_def)
next
  case (Cons x xs)
  then have "x \<in> set (filter (\<lambda>v. \<not> isnull v) vs)" by simp
  then have "x \<in> set vs" "\<not> isnull x" by simp_all
  with assms[of x] obtain w where "x = Str w" by (cases x) (simp_all add: isnull_def)
  with Cons show ?thesis by (simp add: str_accessor_ok_def)
qed

lemma standardize_cols_as_map:
  assumes "wf_table t" "distinct (col_names t)" "distinct cols"
    "\<And>c. c \<in> set cols \<Longrightarrow> (c, Object) \<in> set (columns t)"
    "\<And>c. c \<in> set cols \<Longrightarrow> c \<noteq> ''date'' \<Longrightarrow> str_accessor_ok (column_values t c)"
  shows "standardize_cols cols t =
     (None, map_named (\<lambda>c v. if c \<in> set cols \<and> c \<noteq> ''date'' then str_upper (str_strip v) else v) t)"
  using assms
proof (induction cols arbitrary: t)
  case Nil
  have "map_named (\<lambda>c v. v) t = t" by (rule map_named_id[OF Nil(1)]) simp
  then show ?case by simp
next
  case (Cons col cols)
  show ?case
  proof (cases "col = ''date''")
    case True
    have "standardize_cols cols t =
        (None, map_named (\<lambda>c v. if c \<in> set cols \<and> c \<noteq> ''date'' then str_upper (str_strip v) else v) t)"
      using Cons.prems by (intro Cons.IH) auto
    also have "map_named (\<lambda>c v. if c \<in> set cols \<and> c \<noteq> ''date'' then str_upper (str_strip v) else v) t
        = map_named (\<lambda>c v. if c \<in> set (col # cols) \<and> c \<noteq> ''date''
                                     then str_upper (str_strip v) else v) t"
      using True by (intro arg_cong2[where f = map_named] refl ext) auto
    finally show ?thesis using True by simp
  next
    case False
    let ?t1 = "str_normalize_column col t"
    have t1: "?t1 = map_named (\<lambda>c' v. if c' = col then str_upper (str_strip v) else v) t"
      using Cons.prems by (intro normalize_as_map) auto
    have ok: "str_accessor_ok (column_values t col)" using Cons.prems(5)[of col] False by simp
    have ok1: "str_accessor_ok (column_values ?t1 c)" if "c \<in> set cols" "c \<noteq> ''date''" for c
    proof -
      from that Cons.prems(3) have "c \<noteq> col" by auto
      then have "column_values ?t1 c = column_values t c"
        unfolding t1 by (intro column_values_map_named_fixed[OF Cons.prems(1)]) simp
      with Cons.prems(5)[of c] that show ?thesis by simp
    qed
    have "standardize_cols cols ?t1 =
        (None, map_named (\<lambda>c v. if c \<in> set cols \<and> c \<noteq> ''date'' then str_upper (str_strip v) else v) ?t1)"
    proof (rule Cons.IH)
      show "wf_table ?t1" unfolding t1 using Cons.prems(1) by (rule wf_map_named)
      show "distinct (col_names ?t1)" unfolding t1 using Cons.prems(2) by simp
      show "distinct cols" using Cons.prems(3) by simp
      show "\<And>c. c \<in> set cols \<Longrightarrow> (c, Object) \<in> set (columns ?t1)"
        unfolding t1 using Cons.prems(4) by simp
      show "\<And>c. c \<in> set cols \<Longrightarrow> c \<noteq> ''date'' \<Longrightarrow> str_accessor_ok (column_values ?t1 c)"
        by (rule ok1)
    qed
    also have "map_named (\<lambda>c v. if c \<in> set cols \<and> c \<noteq> ''date'' then str_upper (str_strip v) else v) ?t1
        = map_named (\<lambda>c v. if c \<in> set (col # cols) \<and> c \<noteq> ''date''
                                     then str_upper (str_strip v) else v) t"
      unfolding t1 map_named_map_named
      using Cons.prems(3) False by (intro arg_cong2[where f = map_named] refl ext) auto
    finally show ?thesis using False ok by simp
  qed
qed

lemma select_dtypes_object_props:
  assumes "distinct (col_names t)"
  shows "distinct (select_dtypes_object t)"
    and "c \<in> set (select_dtypes_object t) \<longleftrightarrow> (c, Object) \<in> set (columns t)"
proof -
  show "distinct (select_dtypes_object t)"
    using assms unfolding select_dtypes_object_def col_names_def by (rule distinct_map_filter)
  show "c \<in> set (select_dtypes_object t) \<longleftrightarrow> (c, Object) \<in> set (columns t)"
    by (force simp: select_dtypes_object_def)
qed

lemma step5_eq:
  assumes wf: "wf_table t" and dist: "distinct (col_names t)"
    and tc: "\<And>r cd v. r \<in> set (rows t) \<Longrightarrow> (cd, v) \<in> set (zip (columns t) r) \<Longrightarrow>
                snd cd = Object \<Longrightarrow> fst cd \<noteq> ''date'' \<Longrightarrow> text_cell v"
  shows "text_step t = (None, spec_step5 t)"
proof -
  have ok: "str_accessor_ok (column_values t c)"
    if sel: "c \<in> set (select_dtypes_object t)" and nd: "c \<noteq> ''date''" for c
  proof (rule text_accessor_ok)
    fix v assume v: "v \<in> set (column_values t c)"
    from sel have obj: "(c, Object) \<in> set (columns t)"
      by (simp add: select_dtypes_object_props(2)[OF dist])
    from column_values_cells[OF wf dist obj v]
    obtain r where "r \<in> set (rows t)" "((c, Object), v) \<in> set (zip (columns t) r)" by blast
    from tc[OF this] nd show "text_cell v" by simp
  qed
  have "text_step t = (None, map_named (\<lambda>c v. if c \<in> set (select_dtypes_object t) \<and> c \<noteq> ''date''
                                        then str_upper (str_strip v) else v) t)"
    unfolding text_step_def
    using select_dtypes_object_props[OF dist] ok
    by (intro standardize_cols_as_map[OF wf dist]) auto
  also have "map_named (\<lambda>c v. if c \<in> set (select_dtypes_object t) \<and> c \<noteq> ''date''
                                        then str_upper (str_strip v) else v) t = spec_step5 t"
    unfolding spec_step5_def
  proof (rule map_named_cong)
    fix r cd v assume r: "r \<in> set (rows t)" and m: "(cd, v) \<in> set (zip (columns t) r)"
    from m have mem: "(fst cd, snd cd) \<in> set (columns t)" by (auto dest: set_zip_leftD)
    from dtype_of_distinct[OF dist mem] have dt: "dtype_of t (fst cd) = snd cd" .
    have sel: "fst cd \<in> set (select_dtypes_object t) \<longleftrightarrow> snd cd = Object"
    proof
      assume "fst cd \<in> set (select_dtypes_object t)"
      then have "(fst cd, Object) \<in> set (columns t)"
        by (simp add: select_dtypes_object_props(2)[OF dist])
      from dtype_of_distinct[OF dist this] dt show "snd cd = Object" by simp
    next
      assume "snd cd = Object"
      with mem show "fst cd \<in> set (select_dtypes_object t)"
        by (simp add: select_dtypes_object_props(2)[OF dist])
    qed
    show "(if fst cd \<in> set (select_dtypes_object t) \<and> fst cd \<noteq> ''date''
           then str_upper (str_strip v) else v)
        = (if dtype_of t (fst cd) = Object \<and> fst cd \<noteq> ''date'' then spec_normalize v else v)"
    proof (cases "snd cd = Object \<and> fst cd \<noteq> ''date''")
      case True
      with tc[OF r m] have "text_cell v" by simp
      then have "str_upper (str_strip v) = spec_normalize v" by (cases v) simp_all
      with True sel dt show ?thesis by simp
    next
      case False
      with sel dt show ?thesis by auto
    qed
  qed
  finally show ?thesis .
qed


lemma set_keep_first: "set (keep_first seen xs) \<subseteq> set xs"
  by (induction xs arbitrary: seen) auto

lemma set_rows_step1: "set (rows (spec_step1 t)) \<subseteq> set (rows t)"
  using set_keep_first[of "[]" "rows t"] by (simp add: spec_step1_def keep_first_spec)

lemma set_rows_step2: "set (rows (spec_step2 t)) \<subseteq> set (rows t)"
  by (auto simp: spec_step2_def)

lemma columns_step1 [simp]: "columns (spec_step1 t) = columns t"
  by (simp add: spec_step1_def)

lemma columns_step2 [simp]: "columns (spec_step2 t) = columns t"
  by (simp add: spec_step2_def)

lemma wf_rows_subset:
  "wf_table t \<Longrightarrow> columns u = columns t \<Longrightarrow> set (rows u) \<subseteq> set (rows t) \<Longrightarrow> wf_table u"
  by (auto simp: wf_table_def list_all_iff)

lemma text_ok_rows_subset:
  "text_ok t \<Longrightarrow> columns u = columns t \<Longrightarrow> set (rows u) \<subseteq> set (rows t) \<Longrightarrow> text_ok u"
  by (auto simp: text_ok_def list_all_iff)

lemma zip_map_map_zip:
  "zip (map h cols) (map k (zip cols r)) = map (\<lambda>p. (h (fst p), k p)) (zip cols r)"
  by (induction cols arbitrary: r) (auto simp: zip_Cons1 split: list.splits)

lemma cell_of_maps:
  assumes "r \<in> set (rows (set_dtypes G (map_named F t)))"
    "(cd, v) \<in> set (zip (columns (set_dtypes G (map_named F t))) r)"
  shows "\<exists>r0 cd0 v0. r0 \<in> set (rows t) \<and> (cd0, v0) \<in> set (zip (columns t) r0)
     \<and> cd = (fst cd0, G (fst cd0) (snd cd0)) \<and> v = F (fst cd0) v0"
proof -
  from assms(1) obtain r0 where r0: "r0 \<in> set (rows t)"
    and r: "r = map (\<lambda>(cd, v). F (fst cd) v) (zip (columns t) r0)"
    by (auto simp: map_named_def)
  have "zip (columns (set_dtypes G (map_named F t))) r
      = map (\<lambda>p. ((fst (fst p), G (fst (fst p)) (snd (fst p))), (\<lambda>(cd, v). F (fst cd) v) p))
          (zip (columns t) r0)"
    unfolding r by (simp add: set_dtypes_def zip_map_map_zip)
  with assms(2) obtain p where "p \<in> set (zip (columns t) r0)"
    and "cd = (fst (fst p), G (fst (fst p)) (snd (fst p)))" and "v = F (fst (fst p)) (snd p)"
    by (auto simp: case_prod_beta)
  with r0 show ?thesis by (intro exI[of _ r0] exI[of _ "fst p"] exI[of _ "snd p"]) simp
qed

lemma clean_frame_spec:
  assumes "raw_ok t"
  shows "clean_error t = None" and "clean_frame t = spec_clean t"
proof -
  from assms have wf: "wf_table t" and dist: "distinct (col_names t)" and ok: "text_ok t"
    by (simp_all add: raw_ok_def)
  let ?t1 = "spec_step1 t"
  let ?t2 = "spec_step2 ?t1"
  let ?t3 = "spec_step3 ?t2"
  let ?t4 = "spec_step4 ?t3"
  have wf1: "wf_table ?t1" by (rule wf_rows_subset[OF wf columns_step1 set_rows_step1])
  have wf2: "wf_table ?t2" by (rule wf_rows_subset[OF wf1 columns_step2 set_rows_step2])
  have d2: "distinct (col_names ?t2)" using dist by (simp add: col_names_def)
  have ok2: "text_ok ?t2"
    by (intro text_ok_rows_subset[OF text_ok_rows_subset[OF ok columns_step1 set_rows_step1]
          columns_step2 set_rows_step2])
  have wf3: "wf_table ?t3" unfolding spec_step3_def by (intro wf_set_dtypes wf_map_named wf2)
  have d3: "distinct (col_names ?t3)" unfolding spec_step3_def using d2 by simp
  have wf4: "wf_table ?t4" unfolding spec_step4_def by (intro wf_set_dtypes wf_map_named wf3)
  have d4: "distinct (col_names ?t4)" unfolding spec_step4_def using d3 by simp
  have s3: "fill_step ''location_description'' (fill_step ''description'' ?t2) = ?t3"
    by (rule step3_eq[OF wf2 d2])
  have s4: "bool_step ''domestic'' (bool_step ''arrest'' ?t3) = ?t4"
    by (rule step4_eq[OF wf3 d3])
  have t4: "?t4 = set_dtypes
       (\<lambda>c d. if c \<in> set bool_fields then Boolean
              else if c \<in> set fill_fields \<and> Missing \<in> set (column_values ?t2 c) then Object else d)
       (map_named
         (\<lambda>c v. if c \<in> set bool_fields
                 then (if (if c \<in> set fill_fields \<and> v = Missing then Str ''UNKNOWN'' else v) = Missing
                       then BoolV False
                       else astype_bool (if c \<in> set fill_fields \<and> v = Missing then Str ''UNKNOWN'' else v))
                 else (if c \<in> set fill_fields \<and> v = Missing then Str ''UNKNOWN'' else v)) ?t2)"
    unfolding spec_step4_def spec_step3_def map_named_set_dtypes set_dtypes_set_dtypes
      map_named_map_named ..
  have s5: "text_step ?t4 = (None, spec_step5 ?t4)"
  proof (rule step5_eq[OF wf4 d4])
    fix r cd v
    assume r: "r \<in> set (rows ?t4)" and m: "(cd, v) \<in> set (zip (columns ?t4) r)"
      and o: "snd cd = Object" and nd: "fst cd \<noteq> ''date''"
    from cell_of_maps[OF r[unfolded t4] m[unfolded t4]] obtain r0 cd0 v0
      where r0: "r0 \<in> set (rows ?t2)" and m0: "(cd0, v0) \<in> set (zip (columns ?t2) r0)"
        and cd: "cd = (fst cd0, if fst cd0 \<in> set bool_fields then Boolean
              else if fst cd0 \<in> set fill_fields \<and> Missing \<in> set (column_values ?t2 (fst cd0))
                   then Object else snd cd0)"
        and v: "v = (if fst cd0 \<in> set bool_fields
                 then (if (if fst cd0 \<in> set fill_fields \<and> v0 = Missing then Str ''UNKNOWN'' else v0) = Missing
                       then BoolV False
                       else astype_bool (if fst cd0 \<in> set fill_fields \<and> v0 = Missing then Str ''UNKNOWN'' else v0))
                 else (if fst cd0 \<in> set fill_fields \<and> v0 = Missing then Str ''UNKNOWN'' else v0))"
      by blast
    from cd o nd have nb: "fst cd0 \<notin> set bool_fields" and nd0: "fst cd0 \<noteq> ''date''"
      and tc: "fst cd0 \<in> set fill_fields \<or> snd cd0 = Object"
      by (auto split: if_splits)
    then have "text_column cd0" by (auto simp: text_column_def)
    with ok2 r0 m0 have "text_cell v0" by (auto simp: text_ok_def list_all_iff)
    with v nb show "text_cell v" by auto
  qed
  show "clean_error t = None"
    unfolding clean_error_def before_text_def drop_duplicates_spec dropna_spec s3 s4 s5 by simp
  show "clean_frame t = spec_clean t"
    unfolding clean_frame_def before_text_def spec_clean_def drop_duplicates_spec dropna_spec
      s3 s4 s5 by simp
qed

lemma length_filter_not: "length (filter P xs) = length xs - length (filter (\<lambda>x. \<not> P x) xs)"
  using sum_length_filter_compl[of P xs] by simp

lemma clean_data_run:
  assumes "df s = Some a" "list_all (has_column (frames s ! a)) critical_fields"
    "clean_error (frames s ! a) = None"
  shows "clean_data s =
     (Inr (Suc (Suc (length (frames s))),
           \<lparr>duplicates_removed = length (rows (frames s ! a))
              - length (rows (drop_duplicates (frames s ! a))),
            missing_critical = length (rows (drop_duplicates (frames s ! a)))
              - length (rows (dropna critical_fields (drop_duplicates (frames s ! a))))\<rparr>),
      s\<lparr>frames := frames s @ [frames s ! a, drop_duplicates (frames s ! a),
                               clean_frame (frames s ! a)],
        clean_df := Some (Suc (Suc (length (frames s))))\<rparr>)"
proof -
  have nth1: "\<And>x y. (frames s @ [x, y]) ! Suc (length (frames s)) = y" by (simp add: nth_append)
  have crit: "filter (\<lambda>c. \<not> has_column (frames s ! a) c) critical_fields = []"
    using assms(2) by (auto simp: list_all_iff filter_empty_conv)
  have miss: "length (filter (any_null (drop_duplicates (frames s ! a)) critical_fields)
        (rows (drop_duplicates (frames s ! a))))
      = length (rows (drop_duplicates (frames s ! a)))
        - length (rows (dropna critical_fields (drop_duplicates (frames s ! a))))"
    by (simp add: dropna_def length_filter_not[of "any_null _ _"])
  have err: "fst (standardize_cols (select_dtypes_object (before_text (frames s ! a)))
      (before_text (frames s ! a))) = None"
    using assms(3) by (simp add: clean_error_def text_step_def)
  show ?thesis
    using assms(1) crit miss err
    by (simp add: clean_data_def alloc_def Let_def nth1 has_column_drop_duplicates
        inplace_append3 standardize_text_append3 nth_append3 clean_frame_def text_step_def
        before_text_def)
qed

text \<open>
  On a frame with text only in its text-typed and description columns (rectangular,
  distinct column names, the four critical columns present) \<^verbatim>\<open>clean_data\<close> returns,
  and the frame it stores is the composition of the five steps in their order: remove
  duplicate rows, drop the rows with a missing critical field, fill the two description
  columns with UNKNOWN, make arrest and domestic boolean with a missing value false, trim
  and upper-case every text-typed column but the date. The counts it reports are the rows
  removed by the first and by the second step.
\<close>

lemma text_frames_five_steps:
  "df s = Some a \<and> raw_ok (frames s ! a) \<longrightarrow>
     fst (clean_data s) =
       Inr (Suc (Suc (length (frames s))),
            \<lparr>duplicates_removed = length (rows (frames s ! a))
                - length (rows (spec_step1 (frames s ! a))),
             missing_critical = length (rows (spec_step1 (frames s ! a)))
                - length (rows (spec_step2 (spec_step1 (frames s ! a))))\<rparr>)
   \<and> clean_df (snd (clean_data s)) = Some (Suc (Suc (length (frames s))))
   \<and> frames (snd (clean_data s)) ! Suc (Suc (length (frames s)))
       = spec_step5 (spec_step4 (spec_step3 (spec_step2 (spec_step1 (frames s ! a)))))"
proof
  assume h: "df s = Some a \<and> raw_ok (frames s ! a)"
  then have a: "df s = Some a" and ok: "raw_ok (frames s ! a)" by simp_all
  from ok have crit: "list_all (has_column (frames s ! a)) critical_fields"
    by (simp add: raw_ok_def)
  note run = clean_data_run[OF a crit clean_frame_spec(1)[OF ok]]
  have "frames (snd (clean_data s)) ! Suc (Suc (length (frames s))) = clean_frame (frames s ! a)"
    by (simp add: run nth_append3)
  with clean_frame_spec(2)[OF ok]
  have f: "frames (snd (clean_data s)) ! Suc (Suc (length (frames s)))
       = spec_step5 (spec_step4 (spec_step3 (spec_step2 (spec_step1 (frames s ! a)))))"
    by (simp add: spec_clean_def)
  have l: "fst (clean_data s) =
       Inr (Suc (Suc (length (frames s))),
            \<lparr>duplicates_removed = length (rows (frames s ! a))
                - length (rows (spec_step1 (frames s ! a))),
             missing_critical = length (rows (spec_step1 (frames s ! a)))
                - length (rows (spec_step2 (spec_step1 (frames s ! a))))\<rparr>)"
    by (simp add: run drop_duplicates_spec dropna_spec)
  have c: "clean_df (snd (clean_data s)) = Some (Suc (Suc (length (frames s))))"
    by (simp add: run)
  from l c f show "fst (clean_data s) =
       Inr (Suc (Suc (length (frames s))),
            \<lparr>duplicates_removed = length (rows (frames s ! a))
                - length (rows (spec_step1 (frames s ! a))),
             missing_critical = length (rows (spec_step1 (frames s ! a)))
                - length (rows (spec_step2 (spec_step1 (frames s ! a))))\<rparr>)
   \<and> clean_df (snd (clean_data s)) = Some (Suc (Suc (length (frames s))))
   \<and> frames (snd (clean_data s)) ! Suc (Suc (length (frames s)))
       = spec_step5 (spec_step4 (spec_step3 (spec_step2 (spec_step1 (frames s ! a)))))"
    by simp
qed

lemma raw_ok_ex_raw: "raw_ok ex_raw"
  by code_simp

lemma spec_clean_ex_raw:
  "spec_step5 (spec_step4 (spec_step3 (spec_step2 (spec_step1 ex_raw)))) = ex_clean"
  by code_simp

lemma text_frames_five_steps_example:
  "df ex_loaded = Some 0 \<and> raw_ok (frames ex_loaded ! 0)
   \<and> fst (clean_data ex_loaded) = Inr (3, \<lparr>duplicates_removed = 1, missing_critical = 1\<rparr>)
   \<and> clean_df (snd (clean_data ex_loaded)) = Some 3
   \<and> frames (snd (clean_data ex_loaded)) ! 3 = ex_clean
   \<and> spec_step5 (spec_step4 (spec_step3 (spec_step2 (spec_step1 ex_raw)))) = ex_clean"
proof -
  have a: "df ex_loaded = Some 0" by (simp add: ex_loaded_def)
  have f: "frames ex_loaded ! 0 = ex_raw" by (simp add: ex_loaded_def)
  have n: "Suc (Suc (length (frames ex_loaded))) = 3" by (simp add: ex_loaded_def)
  from text_frames_five_steps[of ex_loaded 0] a raw_ok_ex_raw f n
  have "clean_df (snd (clean_data ex_loaded)) = Some 3
     \<and> frames (snd (clean_data ex_loaded)) ! 3
       = spec_step5 (spec_step4 (spec_step3 (spec_step2 (spec_step1 ex_raw))))"
    by simp
  with a f raw_ok_ex_raw spec_clean_ex_raw clean_ex_loaded show ?thesis by simp
qed

subsection \<open>Cleaning a cleaned frame\<close>

lemma upper_append: "upper (s @ t) = upper s @ upper t"
  by (simp add: upper_def)

lemma upper_upper_char: "upper (upper_char c) = upper_char c"
  unfolding upper_def upper_char_def Let_def
  by (auto simp: of_char_of)

lemma upper_Cons: "upper (c # s) = upper_char c @ upper s"
  by (simp add: upper_def)

lemma upper_idem: "upper (upper s) = upper s"
proof (induction s)
  case Nil
  show ?case by (simp add: upper_def)
next
  case (Cons c s)
  then show ?case by (simp add: upper_Cons upper_append upper_upper_char)
qed

lemma upper_char_not_Nil: "upper_char c \<noteq> []"
  by (simp add: upper_char_def Let_def)

lemma is_space_upper_char: "x \<in> set (upper_char c) \<Longrightarrow> is_space x = is_space c"
  unfolding is_space_def upper_char_def Let_def by (auto split: if_splits)

lemma rev_upper_char: "rev (upper_char c) = upper_char c"
  by (simp add: upper_char_def Let_def)

lemma dropWhile_upper_char:
  "dropWhile is_space (upper_char c @ t) = (if is_space c then dropWhile is_space t else upper_char c @ t)"
proof (cases "upper_char c")
  case Nil
  with upper_char_not_Nil show ?thesis by simp
next
  case (Cons x xs)
  have all: "\<And>y. y \<in> set (upper_char c) \<Longrightarrow> is_space y = is_space c" by (rule is_space_upper_char)
  show ?thesis
  proof (cases "is_space c")
    case True
    with all have "\<forall>y \<in> set (upper_char c). is_space y" by simp
    then show ?thesis using True by (simp add: dropWhile_append)
  next
    case False
    with all[of x] Cons have "\<not> is_space x" by simp
    with Cons False show ?thesis by simp
  qed
qed

lemma dropWhile_upper: "dropWhile is_space (upper s) = upper (dropWhile is_space s)"
proof (induction s)
  case Nil show ?case by (simp add: upper_def)
next
  case (Cons c s)
  have "upper (c # s) = upper_char c @ upper s" by (simp add: upper_def)
  with Cons show ?case by (simp add: dropWhile_upper_char)
qed

lemma rev_upper: "rev (upper s) = upper (rev s)"
  by (induction s) (simp_all add: upper_def rev_upper_char)

lemma strip_upper: "strip (upper s) = upper (strip s)"
  by (simp add: strip_def dropWhile_upper rev_upper)

lemma strip_idem: "strip (strip s) = strip s"
  unfolding strip_def
  by (metis (no_types, lifting) ext dropWhile_eq_Nil_conv
    dropWhile_eq_self_iff dropWhile_last hd_dropWhile last_rev
    rev_is_Nil_conv rev_swap)

lemma spec_normalize_idem: "spec_normalize (spec_normalize v) = spec_normalize v"
  by (cases v) (simp_all add: strip_upper strip_idem upper_idem)

lemma spec_dedup_rows_distinct: "distinct xs \<Longrightarrow> spec_dedup_rows xs = xs"
proof (induction xs)
  case Nil
  show ?case by simp
next
  case (Cons x xs)
  then have "filter (\<lambda>y. y \<noteq> x) xs = xs" by (auto intro: filter_True)
  with Cons show ?case by simp
qed


lemma spec_normalize_Missing: "spec_normalize v = Missing \<longleftrightarrow> v = Missing"
  by (cases v) simp_all

lemma text_cell_spec_normalize: "text_cell v \<Longrightarrow> text_cell (spec_normalize v)"
  by (cases v) simp_all

lemma bool_cell_astype_bool: "bool_cell (astype_bool v)"
  by (cases v) simp_all

lemma astype_bool_bool_cell: "bool_cell v \<Longrightarrow> astype_bool v = v \<and> v \<noteq> Missing"
  by (cases v) simp_all

lemma step34_as_maps:
  "spec_step4 (spec_step3 t) = set_dtypes (fill_bool_dtype t) (map_named fill_bool t)"
  unfolding spec_step4_def spec_step3_def map_named_set_dtypes set_dtypes_set_dtypes
    map_named_map_named
  by (intro arg_cong2[where f = set_dtypes] arg_cong2[where f = map_named] refl ext)
     (auto simp: fill_bool_def fill_bool_dtype_def Let_def)

lemma spec_clean_as_maps:
  "spec_clean t =
     set_dtypes (fill_bool_dtype (spec_step2 (spec_step1 t)))
       (map_named
         (\<lambda>c v. if dtype_of (spec_step4 (spec_step3 (spec_step2 (spec_step1 t)))) c = Object
                     \<and> c \<noteq> ''date''
                 then spec_normalize (fill_bool c v) else fill_bool c v)
         (spec_step2 (spec_step1 t)))"
proof -
  define T2 where "T2 = spec_step2 (spec_step1 t)"
  define T4 where "T4 = spec_step4 (spec_step3 T2)"
  define f5 where "f5 = (\<lambda>c v. if dtype_of T4 c = Object \<and> c \<noteq> ''date'' then spec_normalize v else v)"
  have "spec_clean t = map_named f5 T4"
    by (simp add: spec_clean_def spec_step5_def T4_def T2_def f5_def)
  also have "T4 = set_dtypes (fill_bool_dtype T2) (map_named fill_bool T2)"
    unfolding T4_def by (rule step34_as_maps)
  also have "map_named f5 (set_dtypes (fill_bool_dtype T2) (map_named fill_bool T2))
      = set_dtypes (fill_bool_dtype T2) (map_named (\<lambda>c v. f5 c (fill_bool c v)) T2)"
    by (simp add: map_named_set_dtypes map_named_map_named)
  also have "(\<lambda>c v. f5 c (fill_bool c v))
      = (\<lambda>c v. if dtype_of T4 c = Object \<and> c \<noteq> ''date''
                 then spec_normalize (fill_bool c v) else fill_bool c v)"
    by (intro ext) (simp add: f5_def)
  finally show ?thesis unfolding T4_def T2_def .
qed


lemma col_names_spec_clean: "col_names (spec_clean t) = col_names t"
  by (simp add: spec_clean_as_maps) (simp add: col_names_def)

lemma text_cell_fill_bool:
  "c \<notin> set bool_fields \<Longrightarrow> text_cell v \<Longrightarrow> text_cell (fill_bool c v)"
  by (simp add: fill_bool_def)

lemma fill_bool_fill: "c \<in> set fill_fields \<Longrightarrow> fill_bool c v \<noteq> Missing"
  by (auto simp: fill_bool_def fill_fields_def bool_fields_def)

lemma fill_bool_bool: "c \<in> set bool_fields \<Longrightarrow> bool_cell (fill_bool c v)"
  by (auto simp: fill_bool_def Let_def bool_cell_astype_bool)

lemma cleaned_form_spec_clean:
  assumes "raw_ok t"
  shows "cleaned_form (spec_clean t)"
proof -
  from assms have wf: "wf_table t" and dist: "distinct (col_names t)" and ok: "text_ok t"
    by (simp_all add: raw_ok_def)
  define T2 where "T2 = spec_step2 (spec_step1 t)"
  define T4 where "T4 = spec_step4 (spec_step3 T2)"
  define H where "H = (\<lambda>c v. if dtype_of T4 c = Object \<and> c \<noteq> ''date''
                 then spec_normalize (fill_bool c v) else fill_bool c v)"
  have wf2: "wf_table T2" unfolding T2_def
    by (intro wf_rows_subset[OF wf_rows_subset[OF wf columns_step1 set_rows_step1]
          columns_step2 set_rows_step2])
  have d2: "distinct (col_names T2)" using dist by (simp add: col_names_def T2_def)
  have ok2: "text_ok T2" unfolding T2_def
    by (intro text_ok_rows_subset[OF text_ok_rows_subset[OF ok columns_step1 set_rows_step1]
          columns_step2 set_rows_step2])
  have t4: "T4 = set_dtypes (fill_bool_dtype T2) (map_named fill_bool T2)"
    unfolding T4_def by (rule step34_as_maps)
  have d4: "distinct (col_names T4)" unfolding t4 using d2 by simp
  have t': "spec_clean t = set_dtypes (fill_bool_dtype T2) (map_named H T2)"
    unfolding H_def T4_def T2_def by (rule spec_clean_as_maps)
  have wf': "wf_table (spec_clean t)" unfolding t' by (intro wf_set_dtypes wf_map_named wf2)
  have d': "distinct (col_names (spec_clean t))" using dist by (simp add: col_names_spec_clean)
  have cells: "cleaned_cell cd v"
    if r: "r \<in> set (rows (spec_clean t))" and m: "(cd, v) \<in> set (zip (columns (spec_clean t)) r)"
    for r cd v
  proof -
    from cell_of_maps[OF r[unfolded t'] m[unfolded t']] obtain r0 cd0 v0
      where r0: "r0 \<in> set (rows T2)" and m0: "(cd0, v0) \<in> set (zip (columns T2) r0)"
        and cd: "cd = (fst cd0, fill_bool_dtype T2 (fst cd0) (snd cd0))"
        and v: "v = H (fst cd0) v0"
      by blast
    let ?c = "fst cd0"
    from m0 have mem: "(?c, snd cd0) \<in> set (columns T2)" by (auto dest: set_zip_leftD)
    then have "(?c, fill_bool_dtype T2 ?c (snd cd0)) \<in> set (columns T4)"
      unfolding t4 by (force simp: set_dtypes_def)
    from dtype_of_distinct[OF d4 this] have D: "dtype_of T4 ?c = fill_bool_dtype T2 ?c (snd cd0)" .
    have tx: "text_column cd0 \<Longrightarrow> text_cell v0"
      using ok2 r0 m0 by (auto simp: text_ok_def list_all_iff)
    have 1: "?c \<in> set fill_fields \<Longrightarrow> v \<noteq> Missing"
      unfolding v H_def by (simp add: fill_bool_fill spec_normalize_Missing)
    have 2: "?c \<in> set bool_fields \<Longrightarrow> bool_cell v"
      unfolding v H_def D by (simp add: fill_bool_dtype_def fill_bool_bool)
    have 3: "snd cd = Object \<and> ?c \<noteq> ''date'' \<Longrightarrow> spec_normalize v = v"
      unfolding v H_def cd D by (simp add: spec_normalize_idem)
    have 4: "text_cell v" if tc: "text_column cd"
    proof -
      from tc have nb: "?c \<notin> set bool_fields"
        unfolding cd text_column_def
        by (auto simp: fill_bool_dtype_def fill_fields_def bool_fields_def split: if_splits)
      from tc nb have "text_column cd0"
        unfolding cd text_column_def
        by (auto simp: fill_bool_dtype_def split: if_splits)
      from tx[OF this] nb have "text_cell (fill_bool ?c v0)" by (simp add: text_cell_fill_bool)
      then show ?thesis unfolding v H_def by (simp add: text_cell_spec_normalize)
    qed
    from 1 2 3 4 show ?thesis unfolding cleaned_cell_def by (simp add: cd)
  qed
  have hdr: "list_all (\<lambda>cd. fst cd \<in> set bool_fields \<longrightarrow> snd cd = Boolean) (columns (spec_clean t))"
    unfolding t' by (auto simp: list_all_iff set_dtypes_def fill_bool_dtype_def)
  show ?thesis
    unfolding cleaned_form_def using wf' d' hdr cells by (auto simp: list_all_iff)
qed


lemma cleaned_form_cell:
  "cleaned_form t \<Longrightarrow> r \<in> set (rows t) \<Longrightarrow> (cd, v) \<in> set (zip (columns t) r)
     \<Longrightarrow> cleaned_cell cd v"
  by (auto simp: cleaned_form_def list_all_iff)

lemma cleaned_form_fixed:
  assumes cf: "cleaned_form t"
  shows "spec_step3 t = t" and "spec_step4 t = t" and "spec_step5 t = t"
proof -
  from cf have wf: "wf_table t" and dist: "distinct (col_names t)"
    and hdr: "\<And>cd. cd \<in> set (columns t) \<Longrightarrow> fst cd \<in> set bool_fields \<Longrightarrow> snd cd = Boolean"
    by (auto simp: cleaned_form_def list_all_iff)
  have m3: "map_named (\<lambda>c v. if c \<in> set fill_fields \<and> v = Missing then Str ''UNKNOWN'' else v) t = t"
  proof (rule map_named_id[OF wf])
    fix r cd v assume "r \<in> set (rows t)" "(cd, v) \<in> set (zip (columns t) r)"
    from cleaned_form_cell[OF cf this]
    show "(if fst cd \<in> set fill_fields \<and> v = Missing then Str ''UNKNOWN'' else v) = v"
      by (auto simp: cleaned_cell_def)
  qed
  have s3: "set_dtypes (\<lambda>c d. if c \<in> set fill_fields \<and> Missing \<in> set (column_values t c)
                              then Object else d) t = t"
  proof (rule set_dtypes_id)
    fix cd assume mem: "cd \<in> set (columns t)"
    have "Missing \<notin> set (column_values t (fst cd))" if f: "fst cd \<in> set fill_fields"
    proof
      assume "Missing \<in> set (column_values t (fst cd))"
      from column_values_cells[OF wf dist _ this, of "snd cd"] mem
      obtain r where "r \<in> set (rows t)" "(cd, Missing) \<in> set (zip (columns t) r)" by auto
      from cleaned_form_cell[OF cf this] f show False by (simp add: cleaned_cell_def)
    qed
    then show "(if fst cd \<in> set fill_fields \<and> Missing \<in> set (column_values t (fst cd))
                then Object else snd cd) = snd cd" by auto
  qed
  show "spec_step3 t = t" unfolding spec_step3_def m3 s3 ..
  have m4: "map_named (\<lambda>c v. if c \<in> set bool_fields
                          then (if v = Missing then BoolV False else astype_bool v) else v) t = t"
  proof (rule map_named_id[OF wf])
    fix r cd v assume "r \<in> set (rows t)" "(cd, v) \<in> set (zip (columns t) r)"
    from cleaned_form_cell[OF cf this]
    show "(if fst cd \<in> set bool_fields
           then (if v = Missing then BoolV False else astype_bool v) else v) = v"
      using astype_bool_bool_cell[of v] by (auto simp: cleaned_cell_def)
  qed
  have s4: "set_dtypes (\<lambda>c d. if c \<in> set bool_fields then Boolean else d) t = t"
    by (rule set_dtypes_id) (auto dest: hdr)
  show "spec_step4 t = t" unfolding spec_step4_def m4 s4 ..
  show "spec_step5 t = t" unfolding spec_step5_def
  proof (rule map_named_id[OF wf])
    fix r cd v assume r: "r \<in> set (rows t)" and m: "(cd, v) \<in> set (zip (columns t) r)"
    from m have "(fst cd, snd cd) \<in> set (columns t)" by (auto dest: set_zip_leftD)
    from dtype_of_distinct[OF dist this] cleaned_form_cell[OF cf r m]
    show "(if dtype_of t (fst cd) = Object \<and> fst cd \<noteq> ''date'' then spec_normalize v else v) = v"
      by (auto simp: cleaned_cell_def)
  qed
qed

lemma cleaned_form_text_ok: "cleaned_form t \<Longrightarrow> text_ok t"
  by (auto simp: cleaned_form_def text_ok_def cleaned_cell_def list_all_iff)

lemma spec_step1_distinct: "distinct (rows t) \<Longrightarrow> spec_step1 t = t"
  by (simp add: spec_step1_def spec_dedup_rows_distinct)

lemma spec_step2_complete:
  assumes "list_all (no_missing t) critical_fields"
  shows "spec_step2 t = t"
proof -
  have "filter (spec_complete t) (rows t) = rows t"
    using assms
    by (intro filter_True)
       (auto simp: spec_complete_def critical_fields_def no_missing_def isnull_def list_all_iff)
  then show ?thesis by (simp add: spec_step2_def)
qed

lemma clean_frame_fixed:
  assumes ok: "raw_ok t" and dr: "distinct (rows (clean_frame t))"
    and nm: "list_all (no_missing (clean_frame t)) critical_fields"
  shows "clean_frame (clean_frame t) = clean_frame t" and "raw_ok (clean_frame t)"
proof -
  let ?u = "clean_frame t"
  have u: "?u = spec_clean t" by (rule clean_frame_spec(2)[OF ok])
  have cf: "cleaned_form ?u" unfolding u by (rule cleaned_form_spec_clean[OF ok])
  have crit: "list_all (has_column ?u) critical_fields"
    using ok unfolding u by (simp add: raw_ok_def has_column_def col_names_spec_clean list_all_iff)
  show ok': "raw_ok ?u"
    using cf crit cleaned_form_text_ok[OF cf] by (simp add: raw_ok_def cleaned_form_def)
  have "clean_frame ?u = spec_step5 (spec_step4 (spec_step3 (spec_step2 (spec_step1 ?u))))"
    using clean_frame_spec(2)[OF ok'] by (simp add: spec_clean_def)
  also have "\<dots> = ?u"
    by (simp add: spec_step1_distinct[OF dr] spec_step2_complete[OF nm] cleaned_form_fixed[OF cf])
  finally show "clean_frame ?u = ?u" .
qed


text \<open>
  Let a frame with text only in its text-typed and description columns be cleaned, and let
  the cleaned frame have no duplicate rows and no missing value in date, primary category,
  latitude and longitude. Then \<^verbatim>\<open>clean_data\<close>, run by any analyzer that has this
  cleaned frame as its loaded frame, returns, removes nothing, and stores a frame identical
  to its input.
\<close>

lemma text_frames_idempotent:
  "df s = Some a \<and> raw_ok (frames s ! a) \<and> clean_data s = (Inr (d, lg), s')
   \<and> distinct (rows (frames s' ! d))
   \<and> list_all (no_missing (frames s' ! d)) critical_fields
   \<and> df u = Some b \<and> frames u ! b = frames s' ! d
   \<longrightarrow> fst (clean_data u) =
         Inr (Suc (Suc (length (frames u))), \<lparr>duplicates_removed = 0, missing_critical = 0\<rparr>)
     \<and> frames (snd (clean_data u)) ! Suc (Suc (length (frames u))) = frames s' ! d"
proof
  assume h: "df s = Some a \<and> raw_ok (frames s ! a) \<and> clean_data s = (Inr (d, lg), s')
   \<and> distinct (rows (frames s' ! d))
   \<and> list_all (no_missing (frames s' ! d)) critical_fields
   \<and> df u = Some b \<and> frames u ! b = frames s' ! d"
  let ?t = "frames s ! a"
  from h have a: "df s = Some a" and ok: "raw_ok ?t" and run: "clean_data s = (Inr (d, lg), s')"
    and b: "df u = Some b" and ub: "frames u ! b = frames s' ! d" by simp_all
  from clean_data_Inr[OF run] a have t': "frames s' ! d = clean_frame ?t"
    by (auto simp: nth_append3)
  from h have dr: "distinct (rows (clean_frame ?t))"
    and nm: "list_all (no_missing (clean_frame ?t)) critical_fields"
    unfolding t' by simp_all
  note fx = clean_frame_fixed[OF ok dr nm]
  from fx(2) have crit: "list_all (has_column (frames u ! b)) critical_fields"
    unfolding ub t' by (simp add: raw_ok_def)
  from clean_frame_spec(1)[OF fx(2)] have err: "clean_error (frames u ! b) = None"
    unfolding ub t' .
  note run2 = clean_data_run[OF b crit err]
  have d1: "drop_duplicates (clean_frame ?t) = clean_frame ?t"
    by (simp add: drop_duplicates_spec spec_step1_distinct[OF dr])
  have d2: "dropna critical_fields (clean_frame ?t) = clean_frame ?t"
    by (simp add: dropna_spec spec_step2_complete[OF nm])
  show "fst (clean_data u) =
         Inr (Suc (Suc (length (frames u))), \<lparr>duplicates_removed = 0, missing_critical = 0\<rparr>)
     \<and> frames (snd (clean_data u)) ! Suc (Suc (length (frames u))) = frames s' ! d"
    unfolding run2 ub t' by (simp add: d1 d2 fx(1) nth_append3)
qed

lemma clean_ex_loaded_run:
  "clean_data ex_loaded =
     (Inr (3, \<lparr>duplicates_removed = 1, missing_critical = 1\<rparr>), snd (clean_data ex_loaded))"
  using clean_ex_loaded by (metis prod.collapse)

lemma text_frames_idempotent_example:
  "df ex_loaded = Some 0 \<and> raw_ok (frames ex_loaded ! 0)
   \<and> fst (clean_data ex_loaded) = Inr (3, \<lparr>duplicates_removed = 1, missing_critical = 1\<rparr>)
   \<and> frames (snd (clean_data ex_loaded)) ! 3 = ex_clean
   \<and> distinct (rows ex_clean)
   \<and> list_all (no_missing ex_clean) critical_fields
   \<and> df ex_reloaded = Some 0 \<and> frames ex_reloaded ! 0 = ex_clean
   \<and> fst (clean_data ex_reloaded) = Inr (3, \<lparr>duplicates_removed = 0, missing_critical = 0\<rparr>)
   \<and> frames (snd (clean_data ex_reloaded)) ! 3 = ex_clean"
proof -
  have a: "df ex_loaded = Some 0" and f: "frames ex_loaded ! 0 = ex_raw"
    by (simp_all add: ex_loaded_def)
  have b: "df ex_reloaded = Some 0" and g: "frames ex_reloaded ! 0 = ex_clean"
    and n: "Suc (Suc (length (frames ex_reloaded))) = 3"
    by (simp_all add: ex_reloaded_def)
  have dr: "distinct (rows ex_clean)" by code_simp
  have nm: "list_all (no_missing ex_clean) critical_fields" by code_simp
  from text_frames_idempotent[of ex_loaded 0 3 "\<lparr>duplicates_removed = 1, missing_critical = 1\<rparr>"
      "snd (clean_data ex_loaded)" ex_reloaded 0]
    a f raw_ok_ex_raw clean_ex_loaded_run clean_ex_loaded_frame dr nm b g n
  have "fst (clean_data ex_reloaded) = Inr (3, \<lparr>duplicates_removed = 0, missing_critical = 0\<rparr>)
     \<and> frames (snd (clean_data ex_reloaded)) ! 3 = ex_clean"
    by simp
  with a f raw_ok_ex_raw clean_ex_loaded clean_ex_loaded_frame dr nm b g show ?thesis by simp
qed

text \<open>
  The hypothesis on duplicate rows is needed: two records that differ only in case are
  different rows for the first step and equal rows after the fifth, so the cleaned frame
  has a duplicate, which a second cleaning removes.
\<close>

lemma cleaning_can_leave_duplicates:
  "raw_ok ex_case \<and> length (rows (clean_frame ex_case)) = 2
   \<and> \<not> distinct (rows (clean_frame ex_case))
   \<and> length (rows (clean_frame (clean_frame ex_case))) = 1"
  by code_simp

subsection \<open>Object columns that hold no text\<close>

text \<open>
  C5. \<^verbatim>\<open>clean_data\<close> runs its fifth step on every column of dtype object, whatever
  the column holds, and \<^verbatim>\<open>.str\<close> is defined on strings only. On the loaded frame
  with the boolean object column \<open>verified\<close> the method raises \<open>AttributeError\<close> in
  the fifth step and stores no cleaned frame, where the five steps of the specification
  leave this frame as it is. On the loaded frame with the numeric descriptions the method
  returns, and the description column it stores is missing, UNKNOWN, missing: the third
  step has filled the blank, which makes the column an object column, and the fifth step
  has replaced the two numbers by missing values. The composition of the five steps has
  5.0, UNKNOWN, 7.0 there.
\<close>

theorem cleaning_object_columns:
  "df ex_flags_loaded = Some 0 \<and> wf_analyzer ex_flags_loaded
   \<and> list_all (has_column ex_flags) critical_fields
   \<and> fst (clean_data ex_flags_loaded)
       = Inl (AttributeError ''Can only use .str accessor with string values!'')
   \<and> clean_df (snd (clean_data ex_flags_loaded)) = None
   \<and> spec_step5 (spec_step4 (spec_step3 (spec_step2 (spec_step1 ex_flags)))) = ex_flags
   \<and> df ex_numeric_loaded = Some 0 \<and> wf_analyzer ex_numeric_loaded
   \<and> list_all (has_column ex_numeric) critical_fields
   \<and> fst (clean_data ex_numeric_loaded)
       = Inr (3, \<lparr>duplicates_removed = 0, missing_critical = 0\<rparr>)
   \<and> column_values (frames (snd (clean_data ex_numeric_loaded)) ! 3) ''description''
       = [Missing, Str ''UNKNOWN'', Missing]
   \<and> column_values (spec_step5 (spec_step4 (spec_step3 (spec_step2 (spec_step1 ex_numeric)))))
         ''description''
       = [FloatV 5, Str ''UNKNOWN'', FloatV 7]"
  by code_simp

text \<open>
  C8. The frame that \<^verbatim>\<open>clean_data\<close> stores for the frame with the numeric
  descriptions has no duplicate rows and no missing value in date, primary category,
  latitude and longitude; its description column is missing, UNKNOWN, missing. Cleaning
  this cleaned frame again removes no row and fills the two missing descriptions: the
  frame stored has UNKNOWN three times and differs from its input.
\<close>

theorem cleaner_not_idempotent:
  "fst (clean_data ex_numeric_loaded) = Inr (3, \<lparr>duplicates_removed = 0, missing_critical = 0\<rparr>)
   \<and> frames (snd (clean_data ex_numeric_loaded)) ! 3 = ex_wiped
   \<and> distinct (rows ex_wiped)
   \<and> list_all (no_missing ex_wiped) critical_fields
   \<and> df ex_wiped_loaded = Some 0 \<and> frames ex_wiped_loaded ! 0 = ex_wiped
   \<and> fst (clean_data ex_wiped_loaded) = Inr (3, \<lparr>duplicates_removed = 0, missing_critical = 0\<rparr>)
   \<and> column_values ex_wiped ''description'' = [Missing, Str ''UNKNOWN'', Missing]
   \<and> column_values (frames (snd (clean_data ex_wiped_loaded)) ! 3) ''description''
       = [Str ''UNKNOWN'', Str ''UNKNOWN'', Str ''UNKNOWN'']
   \<and> frames (snd (clean_data ex_wiped_loaded)) ! 3 \<noteq> ex_wiped"
  by code_simp

end
